(* ===== verification/Prelude.thy ===== *)
theory Prelude
  imports Main
begin

text \<open>
  Shared vocabulary of the PayGuard development: the fact collections the component proofs
  draw on, identifiers and their printed form (Python's \<open>str(uuid)\<close> and \<open>uuid.UUID(text)\<close>),
  decimal printing of integers, JSON values (the JSONB columns, request and response bodies),
  and generic lemmas on tables represented as lists of rows.
\<close>

named_theorems prog_simps \<open>unfolding rules of session programs\<close>
named_theorems row_simps \<open>what a write leaves of each table\<close>
named_theorems keeps_rules \<open>invariant preservation of session programs\<close>

section \<open>Identifiers, instants, printing\<close>

text \<open>A UUID is the 128-bit number it stands for, an instant the number of microseconds
  since the epoch (the resolution of Python's datetime and of Postgres timestamps).\<close>

type_synonym uuid = nat
type_synonym instant = int

definition seconds :: "int \<Rightarrow> int" where
  "seconds n = n * 1000000"

definition hex_char :: "nat \<Rightarrow> char" where
  "hex_char d = ''0123456789abcdef'' ! d"

definition hex_digit :: "char \<Rightarrow> nat option" where
  "hex_digit c =
     (let n = of_char c :: nat in
      if 48 \<le> n \<and> n \<le> 57 then Some (n - 48)
      else if 97 \<le> n \<and> n \<le> 102 then Some (n - 87)
      else if 65 \<le> n \<and> n \<le> 70 then Some (n - 55)
      else None)"

fun hex_str :: "nat \<Rightarrow> nat \<Rightarrow> string" where
  "hex_str 0 n = []"
| "hex_str (Suc k) n = hex_str k (n div 16) @ [hex_char (n mod 16)]"

text \<open>\<open>int(text, 16)\<close> on a text of hexadecimal digits; anything else is a ValueError.\<close>

fun hex_val :: "nat \<Rightarrow> string \<Rightarrow> nat option" where
  "hex_val acc [] = Some acc"
| "hex_val acc (c # cs) =
     (case hex_digit c of None \<Rightarrow> None | Some d \<Rightarrow> hex_val (16 * acc + d) cs)"

definition uuid_str :: "uuid \<Rightarrow> string" where
  "uuid_str u =
     (let h = hex_str 32 u in
      take 8 h @ ''-'' @ take 4 (drop 8 h) @ ''-'' @ take 4 (drop 12 h) @ ''-'' @
      take 4 (drop 16 h) @ ''-'' @ drop 20 h)"

definition uuid_of_str :: "string \<Rightarrow> uuid option" where
  "uuid_of_str s =
     (let h = filter (\<lambda>c. c \<noteq> CHR ''-'') s in if length h = 32 then hex_val 0 h else None)"

fun nat_str :: "nat \<Rightarrow> string" where
  "nat_str n =
     (if n < 10 then [char_of (48 + n)] else nat_str (n div 10) @ [char_of (48 + n mod 10)])"

declare nat_str.simps [simp del]

definition int_str :: "int \<Rightarrow> string" where
  "int_str i = (if i < 0 then CHR ''-'' # nat_str (nat (- i)) else nat_str (nat i))"

section \<open>JSON values\<close>

text \<open>\<open>JTime\<close> is the text \<open>t.isoformat()\<close> of an instant, kept as the instant it prints.\<close>

datatype json =
    JNull
  | JBool bool
  | JInt int
  | JStr string
  | JTime instant
  | JArr "json list"
  | JObj "(string \<times> json) list"

definition opt_str :: "string option \<Rightarrow> json" where
  "opt_str x = (case x of None \<Rightarrow> JNull | Some s \<Rightarrow> JStr s)"

text \<open>\<open>d.get(k)\<close> on a dict: the value, or None for a missing key.\<close>

definition dict_get :: "(string \<times> json) list \<Rightarrow> string \<Rightarrow> json option" where
  "dict_get d k = map_of d k"

section \<open>Printing and reading identifiers\<close>

lemma length_hex_str [simp]: "length (hex_str k n) = k"
  by (induction k n rule: hex_str.induct) auto

lemma hex_char_digit: "d < 16 \<Longrightarrow> hex_digit (hex_char d) = Some d"
  by (auto simp: hex_digit_def hex_char_def less_Suc_eq numeral_eq_Suc)

lemma hex_char_not_dash: "d < 16 \<Longrightarrow> hex_char d \<noteq> CHR ''-''"
  by (auto simp: hex_char_def less_Suc_eq numeral_eq_Suc)

lemma hex_str_no_dash: "CHR ''-'' \<notin> set (hex_str k n)"
proof (induction k n rule: hex_str.induct)
  case (2 k n)
  then show ?case using hex_char_not_dash [of "n mod 16"] by auto
qed simp

lemma hex_val_append:
  "hex_val acc (xs @ ys) =
     (case hex_val acc xs of None \<Rightarrow> None | Some a \<Rightarrow> hex_val a ys)"
  by (induction acc xs rule: hex_val.induct) (auto split: option.splits)

lemma hex_val_hex_str: "hex_val acc (hex_str k n) = Some (acc * 16 ^ k + n mod 16 ^ k)"
proof (induction k n arbitrary: acc rule: hex_str.induct)
  case (2 k n)
  have "n mod 16 ^ Suc k = 16 * (n div 16 mod 16 ^ k) + n mod 16"
    by (simp add: mod_mult2_eq)
  with 2 show ?case
    by (simp add: hex_val_append hex_char_digit algebra_simps)
qed simp

lemma filter_dash: "CHR ''-'' \<notin> set xs \<Longrightarrow> filter (\<lambda>c. c \<noteq> CHR ''-'') xs = xs"
  by (induction xs) auto

lemma uuid_str_hex: "filter (\<lambda>c. c \<noteq> CHR ''-'') (uuid_str u) = hex_str 32 u"
proof -
  let ?h = "hex_str 32 u"
  have nd: "CHR ''-'' \<notin> set ?h" by (rule hex_str_no_dash)
  then have "CHR ''-'' \<notin> set (take m (drop n ?h))" and "CHR ''-'' \<notin> set (take m ?h)"
    and "CHR ''-'' \<notin> set (drop n ?h)" for m n
    by (meson in_set_dropD in_set_takeD)+
  then have "filter (\<lambda>c. c \<noteq> CHR ''-'') (uuid_str u) =
      take 8 ?h @ take 4 (drop 8 ?h) @ take 4 (drop 12 ?h) @ take 4 (drop 16 ?h) @ drop 20 ?h"
    by (simp add: uuid_str_def Let_def filter_dash)
  also have "take 4 (drop 16 ?h) @ drop 20 ?h = drop 16 ?h"
    using append_take_drop_id [of 4 "drop 16 ?h"] by simp
  also have "take 4 (drop 12 ?h) @ drop 16 ?h = drop 12 ?h"
    using append_take_drop_id [of 4 "drop 12 ?h"] by simp
  also have "take 4 (drop 8 ?h) @ drop 12 ?h = drop 8 ?h"
    using append_take_drop_id [of 4 "drop 8 ?h"] by simp
  also have "take 8 ?h @ drop 8 ?h = ?h" by simp
  finally show ?thesis .
qed

lemma uuid_of_str_uuid_str: "u < 2 ^ 128 \<Longrightarrow> uuid_of_str (uuid_str u) = Some u"
  by (simp add: uuid_of_str_def uuid_str_hex hex_val_hex_str)

lemma uuid_str_inject: "u < 2 ^ 128 \<Longrightarrow> v < 2 ^ 128 \<Longrightarrow> uuid_str u = uuid_str v \<longleftrightarrow> u = v"
  by (metis option.inject uuid_of_str_uuid_str)

section \<open>Tables as lists of rows\<close>

text \<open>\<open>UPDATE t SET \<dots> WHERE key = k\<close>.\<close>

definition update_where :: "('r \<Rightarrow> bool) \<Rightarrow> ('r \<Rightarrow> 'r) \<Rightarrow> 'r list \<Rightarrow> 'r list" where
  "update_where p f rows = map (\<lambda>r. if p r then f r else r) rows"

text \<open>\<open>SELECT \<dots> WHERE p\<close> followed by \<open>scalar_one_or_none()\<close> or \<open>LIMIT 1\<close>.\<close>

definition select_one :: "('r \<Rightarrow> bool) \<Rightarrow> 'r list \<Rightarrow> 'r option" where
  "select_one p rows = find p rows"

definition select_sum :: "('r \<Rightarrow> int) \<Rightarrow> ('r \<Rightarrow> bool) \<Rightarrow> 'r list \<Rightarrow> int" where
  "select_sum f p rows = sum_list (map f (filter p rows))"

definition select_count :: "('r \<Rightarrow> bool) \<Rightarrow> 'r list \<Rightarrow> nat" where
  "select_count p rows = length (filter p rows)"

lemma select_one_Some: "select_one p rows = Some r \<Longrightarrow> r \<in> set rows \<and> p r"
  by (auto simp: select_one_def find_Some_iff)

lemma select_one_None: "select_one p rows = None \<longleftrightarrow> (\<forall>r \<in> set rows. \<not> p r)"
  by (auto simp: select_one_def find_None_iff)

lemma select_one_Nil [simp]: "select_one p [] = None"
  by (simp add: select_one_def)

lemma select_one_Cons [simp]: "select_one p (r # rs) = (if p r then Some r else select_one p rs)"
  by (simp add: select_one_def)

lemma select_one_append:
  "select_one p (xs @ ys) =
     (case select_one p xs of None \<Rightarrow> select_one p ys | Some r \<Rightarrow> Some r)"
  by (induction xs) (auto simp: select_one_def)

lemma select_sum_Nil [simp]: "select_sum f p [] = 0"
  by (simp add: select_sum_def)

lemma select_sum_Cons [simp]:
  "select_sum f p (r # rs) = (if p r then f r else 0) + select_sum f p rs"
  by (simp add: select_sum_def)

lemma select_sum_append [simp]:
  "select_sum f p (xs @ ys) = select_sum f p xs + select_sum f p ys"
  by (simp add: select_sum_def)

lemma select_sum_cong:
  "(\<And>r. r \<in> set rs \<Longrightarrow> p r = q r) \<Longrightarrow> (\<And>r. r \<in> set rs \<Longrightarrow> p r \<Longrightarrow> f r = g r) \<Longrightarrow>
   select_sum f p rs = select_sum g q rs"
  by (induction rs) auto

lemma select_sum_nonneg:
  "(\<And>r. r \<in> set rs \<Longrightarrow> p r \<Longrightarrow> 0 \<le> f r) \<Longrightarrow> 0 \<le> select_sum f p rs"
  by (induction rs) auto

lemma select_sum_mono_pred:
  assumes "\<And>r. r \<in> set rs \<Longrightarrow> p r \<Longrightarrow> q r" and "\<And>r. r \<in> set rs \<Longrightarrow> q r \<Longrightarrow> 0 \<le> f r"
  shows "select_sum f p rs \<le> select_sum f q rs"
  using assms by (induction rs) (auto simp: add_increasing)

lemma select_sum_none: "(\<And>r. r \<in> set rs \<Longrightarrow> \<not> p r) \<Longrightarrow> select_sum f p rs = 0"
  by (induction rs) auto

lemma select_count_append [simp]:
  "select_count p (xs @ ys) = select_count p xs + select_count p ys"
  by (simp add: select_count_def)

lemma select_count_update_where:
  "(\<And>r. r \<in> set rows \<Longrightarrow> q r \<Longrightarrow> p (g r) = p r) \<Longrightarrow> select_count p (update_where q g rows) = select_count p rows"
  by (induction rows) (auto simp: select_count_def update_where_def)

lemma select_count_0: "select_count p xs = 0 \<longleftrightarrow> (\<forall>r \<in> set xs. \<not> p r)"
  by (auto simp: select_count_def filter_empty_conv)

lemma filter_unique:
  "distinct rows \<Longrightarrow> r \<in> set rows \<Longrightarrow> p r \<Longrightarrow> (\<And>r'. r' \<in> set rows \<Longrightarrow> p r' \<Longrightarrow> r' = r) \<Longrightarrow> filter p rows = [r]"
proof (induction rows)
  case (Cons x rows)
  show ?case
  proof (cases "x = r")
    case True
    have "\<not> p y" if "y \<in> set rows" for y
      using Cons.prems(1) Cons.prems(4) [of y] that True by (metis distinct.simps(2) list.set_intros(2))
    with True Cons.prems(3) show ?thesis by (simp add: filter_empty_conv)
  next
    case False
    then have "\<not> p x" using Cons.prems(4) [of x] by (metis list.set_intros(1))
    moreover have "filter p rows = [r]"
      using Cons.prems False by (intro Cons.IH) (auto intro: Cons.prems(4))
    ultimately show ?thesis by simp
  qed
qed simp

lemma update_where_append [simp]:
  "update_where p f (xs @ ys) = update_where p f xs @ update_where p f ys"
  by (simp add: update_where_def)

lemma update_where_Nil [simp]: "update_where p f [] = []"
  by (simp add: update_where_def)

lemma update_where_Cons [simp]:
  "update_where p f (r # rs) = (if p r then f r else r) # update_where p f rs"
  by (simp add: update_where_def)

lemma length_update_where [simp]: "length (update_where p f rows) = length rows"
  by (simp add: update_where_def)

lemma set_update_where:
  "set (update_where p f rows) = (\<lambda>r. if p r then f r else r) ` set rows"
  by (auto simp: update_where_def)

text \<open>A column the update does not write keeps its values.\<close>

lemma map_update_where:
  "(\<And>r. r \<in> set rows \<Longrightarrow> p r \<Longrightarrow> g (f r) = g r) \<Longrightarrow> map g (update_where p f rows) = map g rows"
  by (induction rows) auto

lemma update_where_none: "(\<And>r. r \<in> set rows \<Longrightarrow> \<not> p r) \<Longrightarrow> update_where p f rows = rows"
  by (induction rows) auto

lemma select_one_update_where:
  "(\<And>r. q (f r) = q r) \<Longrightarrow>
     select_one q (update_where p f rows) = map_option (\<lambda>r. if p r then f r else r) (select_one q rows)"
  by (induction rows) (auto simp: select_one_def)

lemma select_sum_update_where:
  assumes "\<And>r. r \<in> set rows \<Longrightarrow> p r \<Longrightarrow> q (f r) = q r \<and> (q r \<longrightarrow> g (f r) = g r)"
  shows "select_sum g q (update_where p f rows) = select_sum g q rows"
  using assms by (induction rows) auto

text \<open>A primary key column: its values are distinct and were all given out before \<open>n\<close>.\<close>

definition fresh_ids :: "('r \<Rightarrow> uuid) \<Rightarrow> 'r list \<Rightarrow> uuid \<Rightarrow> bool" where
  "fresh_ids key rows n \<longleftrightarrow> distinct (map key rows) \<and> (\<forall>r \<in> set rows. key r < n)"

lemma fresh_ids_map:
  "fresh_ids key rows n \<longleftrightarrow> distinct (map key rows) \<and> (\<forall>x \<in> set (map key rows). x < n)"
  by (simp add: fresh_ids_def)

lemma fresh_ids_Nil [simp]: "fresh_ids key [] n"
  by (simp add: fresh_ids_def)

lemma fresh_ids_mono: "fresh_ids key rows n \<Longrightarrow> n \<le> m \<Longrightarrow> fresh_ids key rows m"
  by (auto simp: fresh_ids_def intro: less_le_trans)

lemma fresh_ids_insert: "fresh_ids key rows n \<Longrightarrow> key r = n \<Longrightarrow> fresh_ids key (rows @ [r]) (Suc n)"
  by (auto simp: fresh_ids_def)

lemma fresh_ids_update:
  "(\<And>r. key (f r) = key r) \<Longrightarrow> fresh_ids key (update_where p f rows) n \<longleftrightarrow> fresh_ids key rows n"
proof -
  assume "\<And>r. key (f r) = key r"
  then have "map key (update_where p f rows) = map key rows" by (simp add: map_update_where)
  then show ?thesis by (simp add: fresh_ids_map)
qed

lemma append_sep_eq:
  "c \<notin> set xs \<Longrightarrow> c \<notin> set xs' \<Longrightarrow> xs @ c # ys = xs' @ c # ys' \<longleftrightarrow> xs = xs' \<and> ys = ys'"
proof (induction xs arbitrary: xs')
  case Nil
  then show ?case by (cases xs') auto
next
  case (Cons x xs)
  then show ?case by (cases xs') auto
qed

lemma distinct_map_inj_row:
  "distinct (map g rows) \<Longrightarrow> r \<in> set rows \<Longrightarrow> r' \<in> set rows \<Longrightarrow> g r = g r' \<Longrightarrow> r = r'"
  by (metis distinct_map inj_onD)

end
