(* ===== verification/Domain.thy ===== *)
theory Domain
  imports Prelude
begin

text \<open>
  The domain layer (\<open>packages/domain\<close>): payment and refund statuses with their transition
  tables (\<open>state_machine.py\<close>), the exceptions the services raise (\<open>errors.py\<close> and the
  exceptions of Python and of the database driver the handlers can see) and API key
  generation (\<open>security.py\<close>). The lemmas show what the tables promise: terminal statuses
  have no way out, an UNKNOWN payment is left by reconciliation only, and the refund table
  agrees with its terminal set.
\<close>

section \<open>Statuses and actors\<close>

datatype payment_status =
    CREATED | PROCESSING | REQUIRES_ACTION | UNKNOWN | SUCCEEDED | FAILED
  | REFUND_PENDING | REFUNDED | REFUND_FAILED

definition TERMINAL_PAYMENT_STATUSES :: "payment_status set" where
  "TERMINAL_PAYMENT_STATUSES = {FAILED, REFUNDED}"

datatype refund_status = RF_PENDING | RF_SUCCEEDED | RF_FAILED

definition TERMINAL_REFUND_STATUSES :: "refund_status set" where
  "TERMINAL_REFUND_STATUSES = {RF_SUCCEEDED}"

datatype actor = API | WORKER | WEBHOOK | RECONCILIATION

text \<open>The members' string values (\<open>StrEnum\<close>), which is what the status columns store.\<close>

fun payment_status_value :: "payment_status \<Rightarrow> string" where
  "payment_status_value CREATED = ''CREATED''"
| "payment_status_value PROCESSING = ''PROCESSING''"
| "payment_status_value REQUIRES_ACTION = ''REQUIRES_ACTION''"
| "payment_status_value UNKNOWN = ''UNKNOWN''"
| "payment_status_value SUCCEEDED = ''SUCCEEDED''"
| "payment_status_value FAILED = ''FAILED''"
| "payment_status_value REFUND_PENDING = ''REFUND_PENDING''"
| "payment_status_value REFUNDED = ''REFUNDED''"
| "payment_status_value REFUND_FAILED = ''REFUND_FAILED''"

fun refund_status_value :: "refund_status \<Rightarrow> string" where
  "refund_status_value RF_PENDING = ''PENDING''"
| "refund_status_value RF_SUCCEEDED = ''SUCCEEDED''"
| "refund_status_value RF_FAILED = ''FAILED''"

fun actor_value :: "actor \<Rightarrow> string" where
  "actor_value API = ''API''"
| "actor_value WORKER = ''WORKER''"
| "actor_value WEBHOOK = ''WEBHOOK''"
| "actor_value RECONCILIATION = ''RECONCILIATION''"

section \<open>Exceptions\<close>

text \<open>
  \<open>PayGuardError code message\<close> is the domain error; \<open>InvalidStateTransition\<close> and its refund
  counterpart are the state machine's; \<open>IntegrityError c\<close> is the driver's error
  for a violated constraint \<open>c\<close>, \<open>DataError\<close> its error for a value out of the column's
  range, \<open>PendingRollbackError\<close> the session's error for use after a failed flush; the rest are
  Python's own, and \<open>ProviderError\<close> stands for whatever a provider adapter lets escape.
\<close>

datatype exn =
    PayGuardError string string
  | InvalidStateTransition payment_status payment_status "actor option"
  | InvalidRefundTransition refund_status refund_status
  | IntegrityError string
  | DataError
  | NoResultFound
  | MultipleResultsFound
  | RuntimeError string
  | ResponseError string
  | JSONDecodeError
  | AssertionError
  | AttributeError
  | TypeError
  | KeyError
  | ValueError
  | PendingRollbackError
  | ProviderError string

section \<open>Transition tables\<close>

record transition =
  to_status :: payment_status
  allowed_actors :: "actor set option"

abbreviation any_actor :: "payment_status \<Rightarrow> transition" where
  "any_actor t \<equiv> \<lparr>to_status = t, allowed_actors = None\<rparr>"

abbreviation only_actors :: "payment_status \<Rightarrow> actor set \<Rightarrow> transition" where
  "only_actors t as \<equiv> \<lparr>to_status = t, allowed_actors = Some as\<rparr>"

fun PAYMENT_TRANSITIONS :: "payment_status \<Rightarrow> transition list" where
  "PAYMENT_TRANSITIONS CREATED = [any_actor PROCESSING]"
| "PAYMENT_TRANSITIONS PROCESSING =
     [any_actor SUCCEEDED, any_actor FAILED, any_actor REQUIRES_ACTION, any_actor UNKNOWN]"
| "PAYMENT_TRANSITIONS REQUIRES_ACTION = [any_actor PROCESSING, any_actor FAILED]"
| "PAYMENT_TRANSITIONS UNKNOWN =
     [only_actors SUCCEEDED {RECONCILIATION}, only_actors FAILED {RECONCILIATION},
      only_actors UNKNOWN {RECONCILIATION}]"
| "PAYMENT_TRANSITIONS SUCCEEDED = [any_actor REFUND_PENDING]"
| "PAYMENT_TRANSITIONS REFUND_PENDING =
     [any_actor REFUNDED, any_actor REFUND_FAILED, any_actor SUCCEEDED]"
| "PAYMENT_TRANSITIONS REFUND_FAILED = [any_actor REFUND_PENDING]"
| "PAYMENT_TRANSITIONS FAILED = []"
| "PAYMENT_TRANSITIONS REFUNDED = []"

fun REFUND_TRANSITIONS :: "refund_status \<Rightarrow> refund_status list" where
  "REFUND_TRANSITIONS RF_PENDING = [RF_SUCCEEDED, RF_FAILED]"
| "REFUND_TRANSITIONS RF_FAILED = [RF_PENDING]"
| "REFUND_TRANSITIONS RF_SUCCEEDED = []"

text \<open>The loop of \<open>is_valid_payment_transition\<close> over the table's row: the first entry with the
  wanted target decides. Membership of None in a set of actors is false.\<close>

fun scan_transitions :: "transition list \<Rightarrow> payment_status \<Rightarrow> actor option \<Rightarrow> bool" where
  "scan_transitions [] tgt act = False"
| "scan_transitions (t # ts) tgt act =
     (if to_status t \<noteq> tgt then scan_transitions ts tgt act
      else (case allowed_actors t of
              None \<Rightarrow> True
            | Some as \<Rightarrow> (case act of None \<Rightarrow> False | Some a \<Rightarrow> a \<in> as)))"

definition is_valid_payment_transition ::
    "payment_status \<Rightarrow> payment_status \<Rightarrow> actor option \<Rightarrow> bool" where
  "is_valid_payment_transition from tgt act = scan_transitions (PAYMENT_TRANSITIONS from) tgt act"

definition validate_payment_transition ::
    "payment_status \<Rightarrow> payment_status \<Rightarrow> actor option \<Rightarrow> exn + unit" where
  "validate_payment_transition from tgt act =
     (if \<not> is_valid_payment_transition from tgt act
      then Inl (InvalidStateTransition from tgt act) else Inr ())"

definition allowed_payment_transitions :: "payment_status \<Rightarrow> payment_status set" where
  "allowed_payment_transitions from = set (map to_status (PAYMENT_TRANSITIONS from))"

definition is_valid_refund_transition :: "refund_status \<Rightarrow> refund_status \<Rightarrow> bool" where
  "is_valid_refund_transition from tgt \<longleftrightarrow> tgt \<in> set (REFUND_TRANSITIONS from)"

definition validate_refund_transition :: "refund_status \<Rightarrow> refund_status \<Rightarrow> exn + unit" where
  "validate_refund_transition from tgt =
     (if \<not> is_valid_refund_transition from tgt then Inl (InvalidRefundTransition from tgt) else Inr ())"

definition allowed_refund_transitions :: "refund_status \<Rightarrow> refund_status set" where
  "allowed_refund_transitions from = set (REFUND_TRANSITIONS from)"

section \<open>API keys\<close>

text \<open>\<open>token\<close> is the text \<open>secrets.token_urlsafe(32)\<close> returned, \<open>sha256hex\<close> the digest
  function \<open>hashlib.sha256(_).hexdigest()\<close>.\<close>

definition API_KEY_PREFIX :: string where
  "API_KEY_PREFIX = ''sk_test_''"

definition generate_api_key :: "string \<Rightarrow> string" where
  "generate_api_key token = API_KEY_PREFIX @ token"

definition hash_api_key :: "(string \<Rightarrow> string) \<Rightarrow> string \<Rightarrow> string" where
  "hash_api_key sha256hex api_key = sha256hex api_key"

section \<open>The contract of a status machine\<close>

text \<open>
  Both tables promise the same: statuses declared terminal have no outgoing transition, and
  every other status has one. From that alone, a run that has reached a terminal status
  stays there.
\<close>

locale status_machine =
  fixes valid :: "'s \<Rightarrow> 's \<Rightarrow> 'a \<Rightarrow> bool"
    and terminal :: "'s set"
  assumes terminal_iff: "s \<in> terminal \<longleftrightarrow> (\<forall>t a. \<not> valid s t a)"
begin

inductive path :: "'s \<Rightarrow> ('s \<times> 'a) list \<Rightarrow> 's \<Rightarrow> bool" where
  path_nil: "path s [] s"
| path_cons: "valid s t a \<Longrightarrow> path t ps u \<Longrightarrow> path s ((t, a) # ps) u"

inductive_cases path_nilE: "path s [] u"
inductive_cases path_consE: "path s ((t, a) # ps) u"

lemma terminal_stuck: "s \<in> terminal \<Longrightarrow> path s ps u \<Longrightarrow> ps = [] \<and> u = s"
  by (erule path.cases) (auto simp: terminal_iff)

lemma not_terminal_progress: "s \<notin> terminal \<Longrightarrow> \<exists>t a. path s [(t, a)] t"
  by (auto simp: terminal_iff intro: path.intros)

lemma path_append: "path s ps t \<Longrightarrow> path t qs u \<Longrightarrow> path s (ps @ qs) u"
  by (induction rule: path.induct) (auto intro: path.intros)

end

section \<open>What the tables promise\<close>

lemma payment_status_value_inject [simp]:
  "payment_status_value s = payment_status_value t \<longleftrightarrow> s = t"
  by (cases s; cases t) simp_all

lemma all_payment_status:
  "(\<forall>s. P s) \<longleftrightarrow> P CREATED \<and> P PROCESSING \<and> P REQUIRES_ACTION \<and> P UNKNOWN \<and> P SUCCEEDED \<and>
     P FAILED \<and> P REFUND_PENDING \<and> P REFUNDED \<and> P REFUND_FAILED"
  by (metis payment_status.exhaust)

lemma valid_payment_transition_cases:
  "is_valid_payment_transition s t a \<longleftrightarrow>
     (case s of
        CREATED \<Rightarrow> t = PROCESSING
      | PROCESSING \<Rightarrow> t \<in> {SUCCEEDED, FAILED, REQUIRES_ACTION, UNKNOWN}
      | REQUIRES_ACTION \<Rightarrow> t \<in> {PROCESSING, FAILED}
      | UNKNOWN \<Rightarrow> t \<in> {SUCCEEDED, FAILED, UNKNOWN} \<and> a = Some RECONCILIATION
      | SUCCEEDED \<Rightarrow> t = REFUND_PENDING
      | REFUND_PENDING \<Rightarrow> t \<in> {REFUNDED, REFUND_FAILED, SUCCEEDED}
      | REFUND_FAILED \<Rightarrow> t = REFUND_PENDING
      | FAILED \<Rightarrow> False
      | REFUNDED \<Rightarrow> False)"
  by (cases s; cases t) (auto simp: is_valid_payment_transition_def split: option.splits)

lemma payment_terminal_iff:
  "s \<in> TERMINAL_PAYMENT_STATUSES \<longleftrightarrow> (\<forall>t a. \<not> is_valid_payment_transition s t a)"
  by (cases s) (auto simp: valid_payment_transition_cases TERMINAL_PAYMENT_STATUSES_def)

lemma refund_terminal_iff:
  "s \<in> TERMINAL_REFUND_STATUSES \<longleftrightarrow> (\<forall>t (a :: unit). \<not> is_valid_refund_transition s t)"
  by (cases s) (auto simp: is_valid_refund_transition_def TERMINAL_REFUND_STATUSES_def)

interpretation pay: status_machine is_valid_payment_transition TERMINAL_PAYMENT_STATUSES
  by unfold_locales (rule payment_terminal_iff)

interpretation rfd: status_machine "\<lambda>s t (_ :: unit). is_valid_refund_transition s t" TERMINAL_REFUND_STATUSES
  by unfold_locales (rule refund_terminal_iff)

lemma unknown_exit_actor:
  "is_valid_payment_transition UNKNOWN t a \<Longrightarrow> a = Some RECONCILIATION"
  by (simp add: valid_payment_transition_cases)

lemma allowed_payment_transitions_iff:
  "t \<in> allowed_payment_transitions s \<longleftrightarrow> (\<exists>a. is_valid_payment_transition s t a)"
  by (cases s; cases t) (auto simp: allowed_payment_transitions_def valid_payment_transition_cases)

section \<open>Properties\<close>

text \<open>The declared terminal sets are exactly the statuses their tables give no way out, for
  payments and refunds alike, and the listing of allowed targets agrees with the check that
  guards a transition.\<close>

theorem terminal_sets_match_tables:
  "(s \<in> TERMINAL_PAYMENT_STATUSES \<longleftrightarrow> allowed_payment_transitions s = {}) \<and>
   (r \<in> TERMINAL_REFUND_STATUSES \<longleftrightarrow> allowed_refund_transitions r = {}) \<and>
   allowed_payment_transitions s = {t. \<exists>a. validate_payment_transition s t (Some a) = Inr ()} \<and>
   allowed_refund_transitions r = {t. validate_refund_transition r t = Inr ()}"
proof -
  have "is_valid_payment_transition s t None \<Longrightarrow> \<exists>a. is_valid_payment_transition s t (Some a)" for t
    by (cases s) (auto simp: valid_payment_transition_cases)
  then have "t \<in> allowed_payment_transitions s \<longleftrightarrow> (\<exists>a. validate_payment_transition s t (Some a) = Inr ())" for t
    unfolding allowed_payment_transitions_iff validate_payment_transition_def by (metis Inl_Inr_False not_Some_eq)
  moreover have "s \<in> TERMINAL_PAYMENT_STATUSES \<longleftrightarrow> allowed_payment_transitions s = {}"
    unfolding payment_terminal_iff using allowed_payment_transitions_iff [of _ s] by blast
  ultimately show ?thesis
    by (cases r) (auto simp: allowed_refund_transitions_def TERMINAL_REFUND_STATUSES_def
        validate_refund_transition_def is_valid_refund_transition_def)
qed

lemma step_path: "is_valid_payment_transition s t a \<Longrightarrow> pay.path s [(t, a)] t"
  by (intro pay.path.intros)

text \<open>No payment is trapped: from every status the machine has a sequence of allowed moves that
  ends in a terminal one.\<close>

theorem terminal_always_reachable:
  "\<exists>ps u. pay.path s ps u \<and> u \<in> TERMINAL_PAYMENT_STATUSES"
proof -
  have ends: "\<exists>u. pay.path FAILED [] u \<and> u \<in> TERMINAL_PAYMENT_STATUSES" "\<exists>u. pay.path REFUNDED [] u \<and> u \<in> TERMINAL_PAYMENT_STATUSES"
    by (auto simp: TERMINAL_PAYMENT_STATUSES_def intro: pay.path.intros)
  have go: "\<exists>ps u. pay.path s ps u \<and> u \<in> TERMINAL_PAYMENT_STATUSES"
    if "is_valid_payment_transition s t a" "\<exists>ps u. pay.path t ps u \<and> u \<in> TERMINAL_PAYMENT_STATUSES" for s t a
    using that pay.path_append [OF step_path] by blast
  have failed: "\<exists>ps u. pay.path s ps u \<and> u \<in> TERMINAL_PAYMENT_STATUSES"
    if "is_valid_payment_transition s FAILED a" for s a
    using go [OF that] ends by blast
  have pending: "\<exists>ps u. pay.path REFUND_PENDING ps u \<and> u \<in> TERMINAL_PAYMENT_STATUSES"
    using go [of REFUND_PENDING REFUNDED None] ends by (auto simp: valid_payment_transition_cases)
  show ?thesis
  proof (cases s)
    case CREATED
    have "\<exists>ps u. pay.path PROCESSING ps u \<and> u \<in> TERMINAL_PAYMENT_STATUSES"
      by (rule failed [of _ None]) (simp add: valid_payment_transition_cases)
    then show ?thesis using go [of CREATED PROCESSING None] by (simp add: CREATED valid_payment_transition_cases)
  qed (use pending ends go [of SUCCEEDED REFUND_PENDING None] go [of REFUND_FAILED REFUND_PENDING None]
        failed [of PROCESSING None] failed [of REQUIRES_ACTION None] failed [of UNKNOWN "Some RECONCILIATION"]
      in \<open>auto simp: valid_payment_transition_cases\<close>)
qed

end
