(* ===== verification/Providers.thy ===== *)
theory Providers
  imports Domain Complex_Main
begin

text \<open>
  The provider abstraction (\<open>packages/providers\<close>): the closed outcome vocabulary and the
  \<open>PaymentProvider\<close> protocol (\<open>base.py\<close>), the deterministic \<open>MockProvider\<close> (\<open>mock.py\<close>) and the
  \<open>ChaosProvider\<close> wrapper (\<open>chaos.py\<close>). A provider is a record of operations over a state
  \<open>'p\<close>; an adapter may also raise. The locale \<open>truthful_provider\<close> states what reconciliation
  relies on (the provider remembers, per idempotency key, what really happened, and its
  status lookup reports exactly that); both providers are shown to satisfy it.
\<close>

section \<open>base.py\<close>

datatype provider_outcome = PO_SUCCEEDED | PO_DECLINED | PO_TEMPORARY_FAILURE | PO_UNKNOWN

fun provider_outcome_value :: "provider_outcome \<Rightarrow> string" where
  "provider_outcome_value PO_SUCCEEDED = ''SUCCEEDED''"
| "provider_outcome_value PO_DECLINED = ''DECLINED''"
| "provider_outcome_value PO_TEMPORARY_FAILURE = ''TEMPORARY_FAILURE''"
| "provider_outcome_value PO_UNKNOWN = ''UNKNOWN''"

record authorize_request =
  ar_amount_minor :: int
  ar_currency :: string
  ar_token :: string
  ar_idempotency_key :: string

record provider_result =
  pr_outcome :: provider_outcome
  pr_provider_transaction_id :: "string option"
  pr_raw_status :: string
  pr_raw_response :: "(string \<times> json) list"

type_synonym 'p provider_call = "'p \<Rightarrow> (exn + provider_result) \<times> 'p"

record 'p provider =
  prov_name :: string
  prov_authorize :: "authorize_request \<Rightarrow> 'p provider_call"
  prov_capture :: "string \<Rightarrow> int \<Rightarrow> 'p provider_call"
  prov_refund :: "string \<Rightarrow> int \<Rightarrow> string \<Rightarrow> 'p provider_call"
  prov_get_payment_status :: "string \<Rightarrow> 'p provider_call"
  prov_get_payment_status_by_idempotency_key :: "string \<Rightarrow> 'p provider_call"

section \<open>mock.py\<close>

text \<open>\<open>marker in token\<close> on Python strings.\<close>

fun contains :: "string \<Rightarrow> string \<Rightarrow> bool" where
  "contains p [] = (p = [])"
| "contains p (c # cs) = (take (length p) (c # cs) = p \<or> contains p cs)"

datatype scenario = DECLINED | TIMEOUT | TEMPORARY_FAILURE | UNKNOWN_RESULT | STILL_UNKNOWN | SLOW

fun marker :: "scenario \<Rightarrow> string" where
  "marker DECLINED = ''declined''"
| "marker TIMEOUT = ''timeout''"
| "marker TEMPORARY_FAILURE = ''temp_fail''"
| "marker UNKNOWN_RESULT = ''unknown_result''"
| "marker STILL_UNKNOWN = ''still_unknown''"
| "marker SLOW = ''slow''"

definition SCENARIO_MARKERS :: "scenario list" where
  "SCENARIO_MARKERS =
     [DECLINED, TIMEOUT, TEMPORARY_FAILURE, UNKNOWN_RESULT, STILL_UNKNOWN, SLOW]"

definition scenario_for :: "string \<Rightarrow> scenario option" where
  "scenario_for token = find (\<lambda>m. contains (marker m) token) SCENARIO_MARKERS"

text \<open>
  The two dictionaries, as association lists in insertion order (\<open>get_payment_status\<close>
  iterates over one of them), and the number of \<open>uuid.uuid4()\<close> draws made so far; the draws
  themselves are the stream \<open>uuid4\<close>.
\<close>

record mock_state =
  m_authorizations :: "(string \<times> provider_result) list"
  m_true_outcomes :: "(string \<times> provider_result) list"
  m_draws :: nat

definition mock_init :: mock_state where
  "mock_init = \<lparr>m_authorizations = [], m_true_outcomes = [], m_draws = 0\<rparr>"

fun dict_set :: "(string \<times> 'v) list \<Rightarrow> string \<Rightarrow> 'v \<Rightarrow> (string \<times> 'v) list" where
  "dict_set [] k v = [(k, v)]"
| "dict_set ((k', v') # d) k v = (if k' = k then (k, v) # d else (k', v') # dict_set d k v)"

definition provider_txn_id :: "uuid \<Rightarrow> string" where
  "provider_txn_id u = ''ptx_'' @ take 16 (hex_str 32 u)"

definition amount_response :: "authorize_request \<Rightarrow> (string \<times> json) list" where
  "amount_response req =
     [(''amount_minor'', JInt (ar_amount_minor req)), (''currency'', JStr (ar_currency req))]"

definition declined_result :: provider_result where
  "declined_result = \<lparr>pr_outcome = PO_DECLINED, pr_provider_transaction_id = None,
     pr_raw_status = ''card_declined'', pr_raw_response = [(''reason'', JStr ''insufficient_funds'')]\<rparr>"

definition authorized_result :: "authorize_request \<Rightarrow> string \<Rightarrow> provider_result" where
  "authorized_result req ptx = \<lparr>pr_outcome = PO_SUCCEEDED, pr_provider_transaction_id = Some ptx,
     pr_raw_status = ''authorized'', pr_raw_response = amount_response req\<rparr>"

definition unknown_result :: "string option \<Rightarrow> string \<Rightarrow> provider_result" where
  "unknown_result ptx st = \<lparr>pr_outcome = PO_UNKNOWN, pr_provider_transaction_id = ptx,
     pr_raw_status = st, pr_raw_response = []\<rparr>"

definition unavailable_result :: "string option \<Rightarrow> provider_result" where
  "unavailable_result ptx = \<lparr>pr_outcome = PO_TEMPORARY_FAILURE, pr_provider_transaction_id = ptx,
     pr_raw_status = ''provider_unavailable'', pr_raw_response = []\<rparr>"

text \<open>The branches of \<open>MockProvider.authorize\<close>: the caller-visible result, the true one, and
  whether a transaction id was drawn. A slow scenario sleeps and then behaves as none.\<close>

definition mock_scenario_results ::
    "authorize_request \<Rightarrow> string \<Rightarrow> scenario option \<Rightarrow> provider_result \<times> provider_result \<times> bool" where
  "mock_scenario_results req ptx sc =
     (let sc' = (if sc = Some SLOW then None else sc) in
      if sc' = Some DECLINED then (declined_result, declined_result, False)
      else if sc' = Some TEMPORARY_FAILURE then (unavailable_result None, unavailable_result None, False)
      else if sc' = Some TIMEOUT then
        (unknown_result None ''no_response_received'', authorized_result req ptx, True)
      else if sc' = Some UNKNOWN_RESULT then
        (unknown_result None ''ambiguous_response'', declined_result, False)
      else if sc' = Some STILL_UNKNOWN then
        (unknown_result None ''processing'', unknown_result None ''processing'', False)
      else (authorized_result req ptx, authorized_result req ptx, True))"

definition mock_authorize :: "(nat \<Rightarrow> uuid) \<Rightarrow> authorize_request \<Rightarrow> mock_state provider_call" where
  "mock_authorize uuid4 req m =
     (case map_of (m_authorizations m) (ar_idempotency_key req) of
        Some cached \<Rightarrow> (Inr cached, m)
      | None \<Rightarrow>
          (let ptx = provider_txn_id (uuid4 (m_draws m));
               (result, true_result, drawn) = mock_scenario_results req ptx (scenario_for (ar_token req))
           in (Inr result,
               \<lparr>m_authorizations = dict_set (m_authorizations m) (ar_idempotency_key req) result,
                m_true_outcomes = dict_set (m_true_outcomes m) (ar_idempotency_key req) true_result,
                m_draws = (if drawn then Suc (m_draws m) else m_draws m)\<rparr>)))"

definition mock_capture :: "string \<Rightarrow> int \<Rightarrow> mock_state provider_call" where
  "mock_capture ptx amount_minor m =
     (Inr \<lparr>pr_outcome = PO_SUCCEEDED, pr_provider_transaction_id = Some ptx,
           pr_raw_status = ''captured'', pr_raw_response = [(''amount_minor'', JInt amount_minor)]\<rparr>, m)"

definition mock_refund :: "string \<Rightarrow> int \<Rightarrow> string \<Rightarrow> mock_state provider_call" where
  "mock_refund ptx amount_minor idempotency_key m =
     (let sc = scenario_for idempotency_key in
      (Inr (if sc = Some DECLINED then
              \<lparr>pr_outcome = PO_DECLINED, pr_provider_transaction_id = Some ptx,
               pr_raw_status = ''refund_declined'', pr_raw_response = []\<rparr>
            else if sc = Some TEMPORARY_FAILURE then unavailable_result (Some ptx)
            else if sc \<in> {Some TIMEOUT, Some UNKNOWN_RESULT, Some STILL_UNKNOWN} then
              unknown_result (Some ptx) ''no_response_received''
            else \<lparr>pr_outcome = PO_SUCCEEDED, pr_provider_transaction_id = Some ptx,
                  pr_raw_status = ''refunded'', pr_raw_response = [(''amount_minor'', JInt amount_minor)]\<rparr>), m))"

definition mock_get_payment_status :: "string \<Rightarrow> mock_state provider_call" where
  "mock_get_payment_status ptx m =
     (case find (\<lambda>r. pr_provider_transaction_id r = Some ptx) (map snd (m_true_outcomes m)) of
        Some r \<Rightarrow> (Inr r, m)
      | None \<Rightarrow> (Inr (unknown_result (Some ptx) ''not_found''), m))"

definition mock_get_payment_status_by_idempotency_key :: "string \<Rightarrow> mock_state provider_call" where
  "mock_get_payment_status_by_idempotency_key k m =
     (case map_of (m_true_outcomes m) k of
        None \<Rightarrow> (Inr (unknown_result None ''not_found''), m)
      | Some true_result \<Rightarrow> (Inr true_result, m))"

definition MockProvider :: "(nat \<Rightarrow> uuid) \<Rightarrow> mock_state provider" where
  "MockProvider uuid4 =
     \<lparr>prov_name = ''mock'', prov_authorize = mock_authorize uuid4, prov_capture = mock_capture,
      prov_refund = mock_refund, prov_get_payment_status = mock_get_payment_status,
      prov_get_payment_status_by_idempotency_key = mock_get_payment_status_by_idempotency_key\<rparr>"

section \<open>chaos.py\<close>

text \<open>The rates are the binary fractions the floats denote; \<open>slow_delay_seconds\<close> and \<open>seed\<close>
  have no counterpart: the delay is not observable here, and the seeded generator is the
  stream \<open>rnd\<close> of the values \<open>random()\<close> returns.\<close>

record chaos_config =
  unknown_rate :: rat
  slow_rate :: rat

record 'p chaos_state =
  ch_inner :: 'p
  ch_draws :: nat

text \<open>\<open>rate and rng.random() < rate\<close>: a zero rate draws nothing.\<close>

definition coin :: "(nat \<Rightarrow> rat) \<Rightarrow> rat \<Rightarrow> nat \<Rightarrow> bool \<times> nat" where
  "coin rnd rate n = (if rate = 0 then (False, n) else (rnd n < rate, Suc n))"

definition maybe_delay :: "(nat \<Rightarrow> rat) \<Rightarrow> chaos_config \<Rightarrow> nat \<Rightarrow> nat" where
  "maybe_delay rnd cfg n = snd (coin rnd (slow_rate cfg) n)"

text \<open>An exception of the wrapped provider passes through before any draw is made.\<close>

definition chaos_delegate ::
    "(nat \<Rightarrow> rat) \<Rightarrow> chaos_config \<Rightarrow> 'p provider_call \<Rightarrow> 'p chaos_state provider_call" where
  "chaos_delegate rnd cfg call c =
     (case call (ch_inner c) of
        (Inl e, p) \<Rightarrow> (Inl e, c\<lparr>ch_inner := p\<rparr>)
      | (Inr r, p) \<Rightarrow> (Inr r, \<lparr>ch_inner = p, ch_draws = maybe_delay rnd cfg (ch_draws c)\<rparr>))"

definition chaos_authorize ::
    "(nat \<Rightarrow> rat) \<Rightarrow> chaos_config \<Rightarrow> 'p provider \<Rightarrow> authorize_request \<Rightarrow> 'p chaos_state provider_call" where
  "chaos_authorize rnd cfg inner req c =
     (case chaos_delegate rnd cfg (prov_authorize inner req) c of
        (Inl e, c1) \<Rightarrow> (Inl e, c1)
      | (Inr r, c1) \<Rightarrow>
          (let (hit, n) = coin rnd (unknown_rate cfg) (ch_draws c1)
           in (Inr (if hit then unknown_result None ''chaos_injected_unknown'' else r),
               c1\<lparr>ch_draws := n\<rparr>)))"

definition chaos_passthrough :: "'p provider_call \<Rightarrow> 'p chaos_state provider_call" where
  "chaos_passthrough call c = (case call (ch_inner c) of (r, p) \<Rightarrow> (r, c\<lparr>ch_inner := p\<rparr>))"

definition ChaosProvider ::
    "(nat \<Rightarrow> rat) \<Rightarrow> chaos_config \<Rightarrow> 'p provider \<Rightarrow> 'p chaos_state provider" where
  "ChaosProvider rnd cfg inner =
     \<lparr>prov_name = ''chaos'',
      prov_authorize = chaos_authorize rnd cfg inner,
      prov_capture = (\<lambda>ptx a. chaos_delegate rnd cfg (prov_capture inner ptx a)),
      prov_refund = (\<lambda>ptx a k. chaos_delegate rnd cfg (prov_refund inner ptx a k)),
      prov_get_payment_status = (\<lambda>ptx. chaos_passthrough (prov_get_payment_status inner ptx)),
      prov_get_payment_status_by_idempotency_key =
        (\<lambda>k. chaos_passthrough (prov_get_payment_status_by_idempotency_key inner k))\<rparr>"

section \<open>What reconciliation relies on\<close>

text \<open>One call of a provider operation, for statements about any sequence of calls.\<close>

datatype call =
    Authorize authorize_request
  | Capture string int
  | Refund string int string
  | Status string
  | StatusByKey string

fun do_call :: "'p provider \<Rightarrow> call \<Rightarrow> 'p provider_call" where
  "do_call P (Authorize req) = prov_authorize P req"
| "do_call P (Capture ptx a) = prov_capture P ptx a"
| "do_call P (Refund ptx a k) = prov_refund P ptx a k"
| "do_call P (Status ptx) = prov_get_payment_status P ptx"
| "do_call P (StatusByKey k) = prov_get_payment_status_by_idempotency_key P k"

fun do_calls :: "'p provider \<Rightarrow> call list \<Rightarrow> 'p \<Rightarrow> 'p" where
  "do_calls P [] p = p"
| "do_calls P (c # cs) p = do_calls P cs (snd (do_call P c p))"

locale truthful_provider =
  fixes P :: "'p provider"
    and invar :: "'p \<Rightarrow> bool"
    and truth :: "'p \<Rightarrow> string \<Rightarrow> provider_result option"
  assumes invar_call: "invar p \<Longrightarrow> invar (snd (do_call P c p))"
    and truth_stable:
      "invar p \<Longrightarrow> truth p k = Some t \<Longrightarrow> truth (snd (do_call P c p)) k = Some t"
    and authorize_records:
      "invar p \<Longrightarrow> prov_authorize P req p = (Inr r, p') \<Longrightarrow>
         \<exists>t. truth p' (ar_idempotency_key req) = Some t"
    and lookup_truth:
      "invar p \<Longrightarrow> truth p k = Some t \<Longrightarrow>
         fst (prov_get_payment_status_by_idempotency_key P k p) = Inr t"
begin

lemma invar_calls: "invar p \<Longrightarrow> invar (do_calls P cs p)"
  by (induction cs arbitrary: p) (simp_all add: invar_call)

lemma truth_stable_calls:
  "invar p \<Longrightarrow> truth p k = Some t \<Longrightarrow> truth (do_calls P cs p) k = Some t"
  by (induction cs arbitrary: p) (simp_all add: truth_stable invar_call)

lemma lookup_stable:
  "invar p \<Longrightarrow> truth p k = Some t \<Longrightarrow> fst (prov_get_payment_status_by_idempotency_key P k (do_calls P cs p)) = Inr t"
  by (intro lookup_truth truth_stable_calls invar_calls)

text \<open>Whatever the caller saw, and whatever happens in between, a later lookup by the
  request's key reports one and the same outcome.\<close>

lemma lookup_after_authorize:
  assumes inv: "invar p" and auth: "prov_authorize P req p = (Inr r, p')"
  shows "\<exists>t. \<forall>cs. fst (prov_get_payment_status_by_idempotency_key P (ar_idempotency_key req)
                        (do_calls P cs p')) = Inr t"
  using authorize_records [OF inv auth] invar_call [OF inv, of "Authorize req"] auth lookup_stable by fastforce

end

section \<open>Both providers are truthful\<close>

lemma map_of_dict_set: "map_of (dict_set d k v) = (map_of d)(k \<mapsto> v)"
  by (induction d k v rule: dict_set.induct) (auto simp: fun_eq_iff)

text \<open>The mock fills its two dictionaries together.\<close>

definition mock_wf :: "mock_state \<Rightarrow> bool" where
  "mock_wf m \<longleftrightarrow> dom (map_of (m_authorizations m)) = dom (map_of (m_true_outcomes m))"

lemma mock_authorize_state:
  "snd (mock_authorize u req m) =
     (case map_of (m_authorizations m) (ar_idempotency_key req) of
        Some _ \<Rightarrow> m
      | None \<Rightarrow>
         (case mock_scenario_results req (provider_txn_id (u (m_draws m))) (scenario_for (ar_token req)) of
            (r, t, drawn) \<Rightarrow>
               \<lparr>m_authorizations = dict_set (m_authorizations m) (ar_idempotency_key req) r,
                m_true_outcomes = dict_set (m_true_outcomes m) (ar_idempotency_key req) t,
                m_draws = (if drawn then Suc (m_draws m) else m_draws m)\<rparr>))"
  by (simp add: mock_authorize_def Let_def split: option.splits prod.splits)

lemma mock_call_other_state:
  "snd (mock_capture ptx a m) = m" "snd (mock_refund ptx a k m) = m"
  "snd (mock_get_payment_status ptx m) = m"
  "snd (mock_get_payment_status_by_idempotency_key k m) = m"
  by (simp_all add: mock_capture_def mock_refund_def mock_get_payment_status_def
      mock_get_payment_status_by_idempotency_key_def Let_def split: option.splits)

lemma mock_wf_init: "mock_wf mock_init"
  by (simp add: mock_wf_def mock_init_def)

lemma mock_wf_call: "mock_wf m \<Longrightarrow> mock_wf (snd (do_call (MockProvider u) c m))"
  by (cases c)
    (auto simp: MockProvider_def mock_call_other_state mock_authorize_state mock_wf_def
      map_of_dict_set split: option.splits prod.splits)

text \<open>The recorded truth of a key is what the mock's second dictionary holds.\<close>

definition mock_truth :: "mock_state \<Rightarrow> string \<Rightarrow> provider_result option" where
  "mock_truth m k = map_of (m_true_outcomes m) k"

lemma mock_wf_cached:
  "mock_wf m \<Longrightarrow> map_of (m_authorizations m) k = None \<longleftrightarrow> map_of (m_true_outcomes m) k = None"
  by (metis domIff mock_wf_def)

interpretation mock: truthful_provider "MockProvider u" mock_wf mock_truth for u
proof
  fix p k t c
  assume "mock_wf p" and "mock_truth p k = Some t"
  then show "mock_truth (snd (do_call (MockProvider u) c p)) k = Some t"
    using mock_wf_cached [of p k]
    by (cases c)
      (auto simp: MockProvider_def mock_call_other_state mock_authorize_state mock_truth_def
        map_of_dict_set split: option.splits prod.splits)
next
  fix req p r p'
  assume wf: "mock_wf p" and "prov_authorize (MockProvider u) req p = (Inr r, p')"
  then have "p' = snd (mock_authorize u req p)"
    by (simp add: MockProvider_def)
  then show "\<exists>t. mock_truth p' (ar_idempotency_key req) = Some t"
    using mock_wf_cached [OF wf, of "ar_idempotency_key req"]
    by (auto simp: mock_truth_def mock_authorize_state map_of_dict_set
        split: option.splits prod.splits)
next
  fix p k t
  assume "mock_truth p k = Some t"
  then show "fst (prov_get_payment_status_by_idempotency_key (MockProvider u) k p) = Inr t"
    by (simp add: mock_truth_def MockProvider_def mock_get_payment_status_by_idempotency_key_def)
qed (rule mock_wf_call)

text \<open>Chaos corrupts what the caller of \<open>authorize\<close> sees, never what the wrapped provider
  recorded: every operation leaves the wrapped provider as the plain call would.\<close>

lemma chaos_inner_state:
  "ch_inner (snd (do_call (ChaosProvider rnd cfg Q) c s)) = snd (do_call Q c (ch_inner s))"
  by (cases c)
    (simp_all add: ChaosProvider_def chaos_authorize_def chaos_delegate_def chaos_passthrough_def
      Let_def split: prod.splits sum.splits)

lemma chaos_authorize_inner:
  "chaos_authorize rnd cfg Q req s = (Inr r, s') \<Longrightarrow>
     \<exists>r0. prov_authorize Q req (ch_inner s) = (Inr r0, ch_inner s')"
  by (auto simp: chaos_authorize_def chaos_delegate_def Let_def split: prod.splits sum.splits)

text \<open>So a chaos provider over any truthful provider is truthful again.\<close>

context truthful_provider
begin

lemma chaos_truthful:
  "truthful_provider (ChaosProvider rnd cfg P) (\<lambda>s. invar (ch_inner s)) (\<lambda>s. truth (ch_inner s))"
proof
  fix req and s s' :: "'p chaos_state" and r
  assume "invar (ch_inner s)" and "prov_authorize (ChaosProvider rnd cfg P) req s = (Inr r, s')"
  then show "\<exists>t. truth (ch_inner s') (ar_idempotency_key req) = Some t"
    using authorize_records chaos_authorize_inner by (fastforce simp: ChaosProvider_def)
next
  fix s :: "'p chaos_state" and k t
  assume "invar (ch_inner s)" and "truth (ch_inner s) k = Some t"
  then show "fst (prov_get_payment_status_by_idempotency_key (ChaosProvider rnd cfg P) k s) = Inr t"
    using lookup_truth [of "ch_inner s" k t]
    by (simp add: ChaosProvider_def chaos_passthrough_def case_prod_beta)
qed (simp_all add: chaos_inner_state invar_call truth_stable)

end

interpretation chaos: truthful_provider "ChaosProvider rnd cfg (MockProvider u)"
  "\<lambda>s. mock_wf (ch_inner s)" "\<lambda>s. mock_truth (ch_inner s)" for rnd cfg u
  by (rule mock.chaos_truthful)

lemma mock_calls [simp]:
  "prov_authorize (MockProvider u) = mock_authorize u"
  "prov_get_payment_status_by_idempotency_key (MockProvider u) = mock_get_payment_status_by_idempotency_key"
  by (simp_all add: MockProvider_def)

section \<open>Properties\<close>

text \<open>Whatever chaos makes the callers see, the wrapped provider goes through exactly the states
  it would go through alone, and the status lookups reconciliation relies on answer what the
  wrapped provider answers.\<close>

theorem chaos_only_corrupts_authorize:
  "ch_inner (do_calls (ChaosProvider rnd cfg Q) cs s) = do_calls Q cs (ch_inner s) \<and>
   fst (prov_get_payment_status_by_idempotency_key (ChaosProvider rnd cfg Q) k s) =
     fst (prov_get_payment_status_by_idempotency_key Q k (ch_inner s)) \<and>
   fst (prov_get_payment_status (ChaosProvider rnd cfg Q) ptx s) = fst (prov_get_payment_status Q ptx (ch_inner s))"
proof -
  have "ch_inner (do_calls (ChaosProvider rnd cfg Q) cs s) = do_calls Q cs (ch_inner s)"
    by (induction cs arbitrary: s) (simp_all add: chaos_inner_state)
  then show ?thesis by (simp add: ChaosProvider_def chaos_passthrough_def case_prod_beta)
qed

lemma do_calls_append: "do_calls P (cs @ cs') p = do_calls P cs' (do_calls P cs p)"
  by (induction cs arbitrary: p) simp_all

lemma mock_uncalled:
  assumes "\<And>req. Authorize req \<in> set cs \<Longrightarrow> ar_idempotency_key req \<noteq> k"
  shows "map_of (m_authorizations (do_calls (MockProvider u) cs m)) k = map_of (m_authorizations m) k"
  using assms
proof (induction cs arbitrary: m)
  case (Cons c cs)
  have "map_of (m_authorizations (snd (do_call (MockProvider u) c m))) k = map_of (m_authorizations m) k"
    using Cons.prems by (cases c)
      (auto simp: mock_call_other_state mock_authorize_state map_of_dict_set split: option.splits prod.splits,
       simp_all add: MockProvider_def mock_call_other_state)
  with Cons show ?case by simp
qed simp

lemma mock_authorize_new:
  assumes "map_of (m_authorizations m) (ar_idempotency_key req) = None"
    and "mock_scenario_results req (provider_txn_id (u (m_draws m))) (scenario_for (ar_token req)) = (r, t, drawn)"
  shows "fst (mock_authorize u req m) = Inr r" and "mock_truth (snd (mock_authorize u req m)) (ar_idempotency_key req) = Some t"
  using assms by (simp_all add: mock_authorize_def Let_def mock_truth_def map_of_dict_set)

text \<open>Chaos either hands on what the wrapped provider answered or says UNKNOWN.\<close>

lemma chaos_authorize_answer:
  "chaos_authorize rnd cfg Q req s = (Inr r, s') \<Longrightarrow> pr_outcome r = PO_UNKNOWN \<or> fst (prov_authorize Q req (ch_inner s)) = Inr r"
  by (auto simp: chaos_authorize_def chaos_delegate_def Let_def unknown_result_def split: prod.splits sum.splits if_splits)

text \<open>What became of an authorisation, by the scenario its token names.\<close>

definition scenario_truth :: "scenario option \<Rightarrow> provider_outcome" where
  "scenario_truth sc =
     (case sc of
        None \<Rightarrow> PO_SUCCEEDED
      | Some SLOW \<Rightarrow> PO_SUCCEEDED
      | Some TIMEOUT \<Rightarrow> PO_SUCCEEDED
      | Some DECLINED \<Rightarrow> PO_DECLINED
      | Some UNKNOWN_RESULT \<Rightarrow> PO_DECLINED
      | Some TEMPORARY_FAILURE \<Rightarrow> PO_TEMPORARY_FAILURE
      | Some STILL_UNKNOWN \<Rightarrow> PO_UNKNOWN)"

lemma scenario_results:
  assumes "mock_scenario_results req ptx sc = (r, t, drawn)"
  shows "pr_outcome t = scenario_truth sc"
    and "pr_outcome t = PO_SUCCEEDED \<Longrightarrow> pr_provider_transaction_id t = Some ptx \<and> pr_raw_response t = amount_response req"
    and "pr_outcome r \<noteq> PO_UNKNOWN \<Longrightarrow> r = t"
  using assms
  by (cases sc; cases "the sc"; force simp: mock_scenario_results_def scenario_truth_def authorized_result_def declined_result_def
      unavailable_result_def unknown_result_def Let_def)+

text \<open>C34. An authorisation under a key the provider has not seen, after any calls and with any
  chaos: from then on, whatever calls follow, a lookup by that key reports what really became of
  it. That is a success with a transaction of the request's amount and currency for a plain or
  slow token and for one whose answer times out, a decline for a declined token and for an
  ambiguous answer, and so on; the caller was told the same, or UNKNOWN. Authorising again under
  the key, even with another token, changes nothing.\<close>

theorem lookup_finds_one_truth:
  assumes "P = ChaosProvider rnd cfg (MockProvider u)"
    and "s = do_calls P calls \<lparr>ch_inner = mock_init, ch_draws = n\<rparr>"
    and "\<And>req'. Authorize req' \<in> set calls \<Longrightarrow> ar_idempotency_key req' \<noteq> ar_idempotency_key req"
    and "prov_authorize P req s = (Inr r, s')"
  shows "\<exists>t. (\<forall>cs. fst (prov_get_payment_status_by_idempotency_key P (ar_idempotency_key req) (do_calls P cs s')) = Inr t) \<and>
    pr_outcome t = scenario_truth (scenario_for (ar_token req)) \<and>
    (pr_outcome t = PO_SUCCEEDED \<longrightarrow>
      pr_provider_transaction_id t = Some (provider_txn_id (u (m_draws (ch_inner s)))) \<and>
      pr_raw_response t = [(''amount_minor'', JInt (ar_amount_minor req)), (''currency'', JStr (ar_currency req))]) \<and>
    (pr_outcome r \<noteq> PO_UNKNOWN \<longrightarrow> r = t) \<and>
    (\<forall>req'. ar_idempotency_key req' = ar_idempotency_key req \<longrightarrow> ch_inner (snd (prov_authorize P req' s')) = ch_inner s')"
proof -
  let ?k = "ar_idempotency_key req" and ?m = "ch_inner s"
  have m: "?m = do_calls (MockProvider u) calls mock_init"
    unfolding assms(1,2) by (simp add: chaos_only_corrupts_authorize)
  have wf: "mock_wf ?m" unfolding m by (rule mock.invar_calls [OF mock_wf_init])
  have new: "map_of (m_authorizations ?m) ?k = None"
    unfolding m using assms(3) by (subst mock_uncalled) (auto simp: mock_init_def)
  obtain r0 t drawn where res: "mock_scenario_results req (provider_txn_id (u (m_draws ?m))) (scenario_for (ar_token req)) = (r0, t, drawn)"
    by (metis prod_cases3)
  have s': "ch_inner s' = snd (mock_authorize u req ?m)"
    using assms(1,4) chaos_inner_state [of rnd cfg "MockProvider u" "Authorize req" s] by simp
  have wf': "mock_wf (ch_inner s')" using mock_wf_call [OF wf, of u "Authorize req"] by (simp add: s')
  have "mock_truth (ch_inner s') ?k = Some t" unfolding s' by (rule mock_authorize_new(2) [where u = u, OF new res])
  then have "fst (prov_get_payment_status_by_idempotency_key P ?k (do_calls P cs s')) = Inr t" for cs
    unfolding assms(1) by (intro chaos.lookup_stable wf')
  moreover have "pr_outcome r \<noteq> PO_UNKNOWN \<longrightarrow> r = t"
    using chaos_authorize_answer [of rnd cfg "MockProvider u" req s r s'] assms(1,4) mock_authorize_new(1) [where u = u, OF new res]
      scenario_results(3) [OF res] by (auto simp: ChaosProvider_def)
  moreover have "ch_inner (snd (prov_authorize P req' s')) = ch_inner s'" if "ar_idempotency_key req' = ?k" for req'
  proof -
    have "map_of (m_authorizations (ch_inner s')) ?k \<noteq> None"
      unfolding s' by (simp add: mock_authorize_state new map_of_dict_set split: prod.splits)
    then show ?thesis
      using chaos_inner_state [of rnd cfg "MockProvider u" "Authorize req'" s'] that assms(1) by (auto simp: mock_authorize_state)
  qed
  ultimately show ?thesis using scenario_results [OF res] by (auto simp: amount_response_def)
qed

text \<open>An authorisation whose answer times out, after another one was declined.\<close>

definition demo_authorization :: "string \<Rightarrow> string \<Rightarrow> authorize_request" where
  "demo_authorization k token = \<lparr>ar_amount_minor = 5, ar_currency = ''USD'', ar_token = token, ar_idempotency_key = k\<rparr>"

theorem lookup_finds_one_truth_witness:
  "\<exists>r s'. prov_authorize (ChaosProvider (\<lambda>_. 1) \<lparr>unknown_rate = 0, slow_rate = 0\<rparr> (MockProvider id)) (demo_authorization ''k'' ''tok_timeout'')
      (do_calls (ChaosProvider (\<lambda>_. 1) \<lparr>unknown_rate = 0, slow_rate = 0\<rparr> (MockProvider id))
        [Authorize (demo_authorization ''j'' ''tok_declined'')] \<lparr>ch_inner = mock_init, ch_draws = 0\<rparr>) = (Inr r, s') \<and>
     pr_outcome r = PO_UNKNOWN \<and>
     (\<exists>t. fst (mock_get_payment_status_by_idempotency_key ''k'' (ch_inner s')) = Inr t \<and> pr_outcome t = PO_SUCCEEDED \<and>
        dict_get (pr_raw_response t) ''amount_minor'' = Some (JInt 5))"
proof -
  let ?P = "ChaosProvider (\<lambda>_. 1) \<lparr>unknown_rate = 0, slow_rate = 0\<rparr> (MockProvider id)"
  let ?r = "demo_authorization ''k'' ''tok_timeout''" and ?j = "demo_authorization ''j'' ''tok_declined''"
  let ?s = "do_calls ?P [Authorize ?j] \<lparr>ch_inner = mock_init, ch_draws = 0\<rparr>"
  have sc: "scenario_for ''tok_timeout'' = Some TIMEOUT" "scenario_for ''tok_declined'' = Some DECLINED"
    by (simp_all add: scenario_for_def SCENARIO_MARKERS_def)
  have "fst (prov_authorize ?P ?r ?s) = Inr (unknown_result None ''no_response_received'')"
    by (simp add: ChaosProvider_def chaos_authorize_def chaos_delegate_def mock_authorize_def coin_def
        maybe_delay_def mock_init_def Let_def demo_authorization_def sc mock_scenario_results_def split: prod.splits)
  then obtain s' where run: "prov_authorize ?P ?r ?s = (Inr (unknown_result None ''no_response_received''), s')"
    by (metis prod.collapse)
  have key: "ar_idempotency_key req' \<noteq> ar_idempotency_key ?r" if "Authorize req' \<in> set [Authorize ?j]" for req'
    using that by (simp add: demo_authorization_def)
  from lookup_finds_one_truth [OF refl refl key run] obtain t where
    "fst (prov_get_payment_status_by_idempotency_key ?P (ar_idempotency_key ?r) (do_calls ?P [] s')) = Inr t"
    "pr_outcome t = scenario_truth (scenario_for (ar_token ?r))"
    "pr_outcome t = PO_SUCCEEDED \<longrightarrow>
      pr_raw_response t = [(''amount_minor'', JInt (ar_amount_minor ?r)), (''currency'', JStr (ar_currency ?r))]" by blast
  then have "fst (mock_get_payment_status_by_idempotency_key ''k'' (ch_inner s')) = Inr t \<and> pr_outcome t = PO_SUCCEEDED \<and>
      dict_get (pr_raw_response t) ''amount_minor'' = Some (JInt 5)"
    by (simp add: ChaosProvider_def chaos_passthrough_def case_prod_beta demo_authorization_def sc scenario_truth_def dict_get_def)
  then show ?thesis using run by (auto simp: unknown_result_def)
qed

end
