(* ===== verification/Database.thy ===== *)
theory Database
  imports Providers
begin

text \<open>
  The schema (\<open>packages/database/models.py\<close>) and the session the services run in
  (\<open>packages/database/session.py\<close>). Every table is a list of rows in insertion order; the CHECK
  and UNIQUE constraints a service can run into are conditions of the insert that raise the
  driver's IntegrityError with the constraint's name. A session holds the rows its transaction
  sees, the last committed state, the identity map of the payment objects it has loaded
  (sessions are made with \<open>expire_on_commit=False\<close>, so they survive a commit), the metric
  increments of the process and the provider's state. A service function is a program over a
  session: it returns a value or raises, and either way leaves a session behind.
\<close>

section \<open>Rows\<close>

datatype merchant_status = M_active | M_suspended

record merchant =
  m_id :: uuid
  m_name :: string
  m_api_key_hash :: string
  m_previous_api_key_hash :: "string option"
  m_previous_api_key_expires_at :: "instant option"
  m_status :: merchant_status
  m_created_at :: instant

record payment_intent =
  pi_id :: uuid
  pi_merchant_id :: uuid
  pi_customer_id :: "uuid option"
  pi_amount_minor :: int
  pi_currency :: string
  pi_status :: payment_status
  pi_merchant_reference :: "string option"
  pi_version :: int
  pi_created_at :: instant
  pi_updated_at :: instant

datatype failure_classification = PERMANENT | TRANSIENT | FC_UNKNOWN

record payment_attempt =
  pa_id :: uuid
  pa_payment_intent_id :: uuid
  pa_provider_name :: string
  pa_status :: provider_outcome
  pa_failure_classification :: "failure_classification option"
  pa_attempt_number :: int
  pa_created_at :: instant

record provider_transaction =
  pt_id :: uuid
  pt_payment_attempt_id :: uuid
  pt_provider_name :: string
  pt_provider_transaction_id :: string
  pt_raw_status :: string
  pt_raw_response :: "(string \<times> json) list"
  pt_created_at :: instant

datatype idempotency_status = IK_PENDING | IK_COMPLETED | IK_FAILED

record idempotency_key =
  ik_id :: uuid
  ik_merchant_id :: uuid
  ik_idempotency_key :: string
  ik_request_fingerprint :: string
  ik_status :: idempotency_status
  ik_payment_intent_id :: "uuid option"
  ik_refund_id :: "uuid option"
  ik_response_status :: "int option"
  ik_response_body :: "json option"
  ik_created_at :: instant
  ik_updated_at :: instant
  ik_locked_at :: "instant option"

record payment_event =
  pe_id :: uuid
  pe_payment_intent_id :: uuid
  pe_from_status :: "payment_status option"
  pe_to_status :: payment_status
  pe_actor :: actor
  pe_created_at :: instant

record refund =
  rf_id :: uuid
  rf_payment_intent_id :: uuid
  rf_amount_minor :: int
  rf_status :: refund_status
  rf_created_at :: instant

datatype outbox_status = OB_PENDING | OB_PROCESSING | OB_PROCESSED | OB_DEAD_LETTER

record outbox_event =
  ob_id :: uuid
  ob_aggregate_type :: string
  ob_aggregate_id :: uuid
  ob_event_type :: string
  ob_payload :: "(string \<times> json) list"
  ob_status :: outbox_status
  ob_attempt_count :: nat
  ob_available_at :: instant
  ob_failure_reason :: "string option"
  ob_created_at :: instant

datatype webhook_status = WH_RECEIVED | WH_PROCESSED | WH_IGNORED

record webhook_event =
  wh_id :: uuid
  wh_provider_name :: string
  wh_provider_event_id :: string
  wh_event_type :: string
  wh_raw_payload :: "(string \<times> json) list"
  wh_signature :: string
  wh_processing_status :: webhook_status
  wh_received_at :: instant

datatype direction = DEBIT | CREDIT

record ledger_entry =
  le_id :: uuid
  le_payment_intent_id :: uuid
  le_ledger_transaction_id :: uuid
  le_account :: string
  le_direction :: direction
  le_amount_minor :: int
  le_created_at :: instant

record audit_log =
  al_id :: uuid
  al_merchant_id :: "uuid option"
  al_actor :: string
  al_action :: string
  al_audit_metadata :: "(string \<times> json) list"
  al_created_at :: instant

datatype reconciliation_result =
    MATCHED | RESOLVED_SUCCEEDED | RESOLVED_FAILED | RR_STILL_UNKNOWN
  | MISSING_PROVIDER_TRANSACTION | MISSING_INTERNAL_TRANSACTION
  | AMOUNT_MISMATCH | CURRENCY_MISMATCH

record reconciliation_report =
  rr_id :: uuid
  rr_payment_intent_id :: uuid
  rr_result :: reconciliation_result
  rr_internal_status :: payment_status
  rr_provider_status :: "string option"
  rr_details :: "(string \<times> json) list"
  rr_created_at :: instant

section \<open>The database\<close>

text \<open>
  \<open>now\<close> is the instant of the running transaction, what \<open>now()\<close> and \<open>datetime.now(UTC)\<close>
  read; \<open>next_uuid\<close> is the next identifier \<open>uuid.uuid4()\<close> gives out: identifiers never
  repeat.
\<close>

record db =
  now :: instant
  next_uuid :: uuid
  merchants :: "merchant list"
  payment_intents :: "payment_intent list"
  payment_attempts :: "payment_attempt list"
  provider_transactions :: "provider_transaction list"
  idempotency_keys :: "idempotency_key list"
  payment_events :: "payment_event list"
  refunds :: "refund list"
  outbox_events :: "outbox_event list"
  webhook_events :: "webhook_event list"
  ledger_entries :: "ledger_entry list"
  audit_logs :: "audit_log list"
  reconciliation_reports :: "reconciliation_report list"

definition empty_db :: "instant \<Rightarrow> db" where
  "empty_db t = \<lparr>now = t, next_uuid = 0, merchants = [], payment_intents = [], payment_attempts = [],
     provider_transactions = [], idempotency_keys = [], payment_events = [], refunds = [],
     outbox_events = [], webhook_events = [], ledger_entries = [], audit_logs = [],
     reconciliation_reports = []\<rparr>"

text \<open>The range of a BigInteger column and the CHECK \<open>currency ~ '^[A-Z]{3}$'\<close>.\<close>

definition bigint :: "int \<Rightarrow> bool" where
  "bigint n \<longleftrightarrow> - (2 ^ 63) \<le> n \<and> n < 2 ^ 63"

definition iso4217_shaped :: "string \<Rightarrow> bool" where
  "iso4217_shaped c \<longleftrightarrow> length c = 3 \<and> list_all (\<lambda>x. 65 \<le> (of_char x :: nat) \<and> of_char x \<le> (90 :: nat)) c"

section \<open>Inserts and their constraints\<close>

definition insert_payment_intent ::
    "uuid \<Rightarrow> int \<Rightarrow> string \<Rightarrow> string option \<Rightarrow> db \<Rightarrow> exn + (payment_intent \<times> db)" where
  "insert_payment_intent merchant_id amount_minor currency merchant_reference d =
     (if \<not> bigint amount_minor then Inl DataError
      else if \<not> amount_minor > 0 then Inl (IntegrityError ''ck_payment_intents_amount_positive'')
      else if \<not> iso4217_shaped currency then Inl (IntegrityError ''ck_payment_intents_currency_iso4217'')
      else
        (let row = \<lparr>pi_id = next_uuid d, pi_merchant_id = merchant_id, pi_customer_id = None,
                    pi_amount_minor = amount_minor, pi_currency = currency, pi_status = CREATED,
                    pi_merchant_reference = merchant_reference, pi_version = 1,
                    pi_created_at = now d, pi_updated_at = now d\<rparr>
         in Inr (row, d\<lparr>next_uuid := Suc (next_uuid d),
                        payment_intents := payment_intents d @ [row]\<rparr>)))"

definition insert_payment_event ::
    "uuid \<Rightarrow> payment_status option \<Rightarrow> payment_status \<Rightarrow> actor \<Rightarrow> db \<Rightarrow> db" where
  "insert_payment_event payment_id from_status tgt act d =
     d\<lparr>next_uuid := Suc (next_uuid d),
       payment_events := payment_events d @
         [\<lparr>pe_id = next_uuid d, pe_payment_intent_id = payment_id, pe_from_status = from_status,
           pe_to_status = tgt, pe_actor = act, pe_created_at = now d\<rparr>]\<rparr>"

definition insert_outbox_event ::
    "string \<Rightarrow> uuid \<Rightarrow> string \<Rightarrow> (string \<times> json) list \<Rightarrow> db \<Rightarrow> db" where
  "insert_outbox_event aggregate_type aggregate_id event_type payload d =
     d\<lparr>next_uuid := Suc (next_uuid d),
       outbox_events := outbox_events d @
         [\<lparr>ob_id = next_uuid d, ob_aggregate_type = aggregate_type, ob_aggregate_id = aggregate_id,
           ob_event_type = event_type, ob_payload = payload, ob_status = OB_PENDING,
           ob_attempt_count = 0, ob_available_at = now d, ob_failure_reason = None,
           ob_created_at = now d\<rparr>]\<rparr>"

definition insert_payment_attempt ::
    "uuid \<Rightarrow> string \<Rightarrow> provider_outcome \<Rightarrow> failure_classification option \<Rightarrow> int \<Rightarrow> db
     \<Rightarrow> exn + (payment_attempt \<times> db)" where
  "insert_payment_attempt payment_id provider_name status classification attempt_number d =
     (if \<exists>a \<in> set (payment_attempts d).
           pa_payment_intent_id a = payment_id \<and> pa_attempt_number a = attempt_number
      then Inl (IntegrityError ''uq_payment_attempts_intent_attempt_no'')
      else
        (let row = \<lparr>pa_id = next_uuid d, pa_payment_intent_id = payment_id,
                    pa_provider_name = provider_name, pa_status = status,
                    pa_failure_classification = classification, pa_attempt_number = attempt_number,
                    pa_created_at = now d\<rparr>
         in Inr (row, d\<lparr>next_uuid := Suc (next_uuid d),
                        payment_attempts := payment_attempts d @ [row]\<rparr>)))"

definition insert_provider_transaction ::
    "uuid \<Rightarrow> string \<Rightarrow> string \<Rightarrow> string \<Rightarrow> (string \<times> json) list \<Rightarrow> db \<Rightarrow> exn + (unit \<times> db)" where
  "insert_provider_transaction attempt_id provider_name ptx raw_status raw_response d =
     (if \<exists>t \<in> set (provider_transactions d). pt_payment_attempt_id t = attempt_id
      then Inl (IntegrityError ''provider_transactions_payment_attempt_id_key'')
      else if \<exists>t \<in> set (provider_transactions d).
                pt_provider_name t = provider_name \<and> pt_provider_transaction_id t = ptx
      then Inl (IntegrityError ''uq_provider_transactions_provider_txn'')
      else Inr ((), d\<lparr>next_uuid := Suc (next_uuid d),
             provider_transactions := provider_transactions d @
               [\<lparr>pt_id = next_uuid d, pt_payment_attempt_id = attempt_id,
                 pt_provider_name = provider_name, pt_provider_transaction_id = ptx,
                 pt_raw_status = raw_status, pt_raw_response = raw_response,
                 pt_created_at = now d\<rparr>]\<rparr>))"

definition insert_refund :: "uuid \<Rightarrow> int \<Rightarrow> db \<Rightarrow> exn + (refund \<times> db)" where
  "insert_refund payment_id amount_minor d =
     (if \<not> bigint amount_minor then Inl DataError
      else if \<not> amount_minor > 0 then Inl (IntegrityError ''ck_refunds_amount_positive'')
      else
        (let row = \<lparr>rf_id = next_uuid d, rf_payment_intent_id = payment_id,
                    rf_amount_minor = amount_minor, rf_status = RF_PENDING, rf_created_at = now d\<rparr>
         in Inr (row, d\<lparr>next_uuid := Suc (next_uuid d), refunds := refunds d @ [row]\<rparr>)))"

definition insert_audit_log :: "uuid option \<Rightarrow> string \<Rightarrow> string \<Rightarrow> (string \<times> json) list \<Rightarrow> db \<Rightarrow> db" where
  "insert_audit_log merchant_id act action metadata d =
     d\<lparr>next_uuid := Suc (next_uuid d),
       audit_logs := audit_logs d @
         [\<lparr>al_id = next_uuid d, al_merchant_id = merchant_id, al_actor = act, al_action = action,
           al_audit_metadata = metadata, al_created_at = now d\<rparr>]\<rparr>"

text \<open>The UPDATE the unit of work issues for a changed refund object.\<close>

definition set_refund_status :: "uuid \<Rightarrow> refund_status \<Rightarrow> db \<Rightarrow> db" where
  "set_refund_status refund_id st d =
     d\<lparr>refunds := update_where (\<lambda>r. rf_id r = refund_id) (\<lambda>r. r\<lparr>rf_status := st\<rparr>) (refunds d)\<rparr>"

section \<open>Sessions and programs\<close>

record 'p session =
  working :: db
  committed :: db
  identity_map :: "uuid \<rightharpoonup> payment_intent"
  metrics :: "string list"
  prov_state :: 'p

type_synonym ('p, 'a) prog = "'p session \<Rightarrow> (exn + 'a) \<times> 'p session"

text \<open>A new session on the committed state of the database.\<close>

definition open_session :: "db \<Rightarrow> 'p \<Rightarrow> 'p session" where
  "open_session d p = \<lparr>working = d, committed = d, identity_map = Map.empty, metrics = [], prov_state = p\<rparr>"

definition ret :: "'a \<Rightarrow> ('p, 'a) prog" where
  "ret x s = (Inr x, s)"

definition raise :: "exn \<Rightarrow> ('p, 'a) prog" where
  "raise e s = (Inl e, s)"

definition bnd :: "('p, 'a) prog \<Rightarrow> ('a \<Rightarrow> ('p, 'b) prog) \<Rightarrow> ('p, 'b) prog" where
  "bnd m f s = (case m s of (Inl e, s') \<Rightarrow> (Inl e, s') | (Inr x, s') \<Rightarrow> f x s')"

definition andthen :: "('p, 'a) prog \<Rightarrow> ('p, 'b) prog \<Rightarrow> ('p, 'b) prog" where
  "andthen m k = bnd m (\<lambda>_. k)"

text \<open>\<open>try: m except Exception as exc: h(exc)\<close>.\<close>

definition try_except :: "('p, 'a) prog \<Rightarrow> (exn \<Rightarrow> ('p, 'a) prog) \<Rightarrow> ('p, 'a) prog" where
  "try_except m h s = (case m s of (Inl e, s') \<Rightarrow> h e s' | (Inr x, s') \<Rightarrow> (Inr x, s'))"

definition lift_result :: "exn + 'a \<Rightarrow> ('p, 'a) prog" where
  "lift_result r s = (r, s)"

definition query :: "(db \<Rightarrow> 'a) \<Rightarrow> ('p, 'a) prog" where
  "query f s = (Inr (f (working s)), s)"

definition execute :: "(db \<Rightarrow> db) \<Rightarrow> ('p, unit) prog" where
  "execute f s = (Inr (), s\<lparr>working := f (working s)\<rparr>)"

definition execute_returning :: "(db \<Rightarrow> 'a \<times> db) \<Rightarrow> ('p, 'a) prog" where
  "execute_returning f s = (case f (working s) of (x, d) \<Rightarrow> (Inr x, s\<lparr>working := d\<rparr>))"

text \<open>A statement that can violate a constraint.\<close>

definition execute_checked :: "(db \<Rightarrow> exn + ('a \<times> db)) \<Rightarrow> ('p, 'a) prog" where
  "execute_checked f s =
     (case f (working s) of Inl e \<Rightarrow> (Inl e, s) | Inr (x, d) \<Rightarrow> (Inr x, s\<lparr>working := d\<rparr>))"

definition commit :: "('p, unit) prog" where
  "commit s = (Inr (), s\<lparr>committed := working s\<rparr>)"

text \<open>A rollback drops the transaction's writes and expires every loaded object.\<close>

definition rollback :: "('p, unit) prog" where
  "rollback s = (Inr (), s\<lparr>working := committed s, identity_map := Map.empty\<rparr>)"

definition inc :: "string \<Rightarrow> ('p, unit) prog" where
  "inc name s = (Inr (), s\<lparr>metrics := metrics s @ [name]\<rparr>)"

definition assert_that :: "bool \<Rightarrow> ('p, unit) prog" where
  "assert_that b = (if b then ret () else raise AssertionError)"

definition call_provider :: "'p provider_call \<Rightarrow> ('p, provider_result) prog" where
  "call_provider c s = (case c (prov_state s) of (r, p) \<Rightarrow> (r, s\<lparr>prov_state := p\<rparr>))"

section \<open>Symbolic execution\<close>

lemmas prog_defs = ret_def raise_def bnd_def andthen_def try_except_def lift_result_def query_def
  execute_def execute_returning_def execute_checked_def commit_def rollback_def inc_def assert_that_def call_provider_def

lemma bnd_ret [simp]: "bnd (ret x) f = f x"
  by (simp add: fun_eq_iff bnd_def ret_def)

lemma bnd_raise [simp]: "bnd (raise e) f = raise e"
  by (simp add: fun_eq_iff bnd_def raise_def)

lemma bnd_assoc: "bnd (bnd m f) g = bnd m (\<lambda>x. bnd (f x) g)"
  by (auto simp: fun_eq_iff bnd_def split: prod.splits sum.splits)

lemma try_except_ret [simp]: "try_except (ret x) h = ret x"
  by (simp add: fun_eq_iff try_except_def ret_def)

lemma try_except_raise [simp]: "try_except (raise e) h = h e"
  by (simp add: fun_eq_iff try_except_def raise_def)

section \<open>Invariants of programs\<close>

text \<open>\<open>keeps I m\<close>: from a session with \<open>I\<close>, \<open>m\<close> leaves a session with \<open>I\<close>, whether it returns
  or raises. The property composes, so an invariant of the statements is one of the services.\<close>

definition keeps :: "('p session \<Rightarrow> bool) \<Rightarrow> ('p, 'a) prog \<Rightarrow> bool" where
  "keeps I m \<longleftrightarrow> (\<forall>s. I s \<longrightarrow> I (snd (m s)))"

lemma keepsI [intro?]: "(\<And>s. I s \<Longrightarrow> I (snd (m s))) \<Longrightarrow> keeps I m"
  by (simp add: keeps_def)

lemma keepsD: "keeps I m \<Longrightarrow> I s \<Longrightarrow> m s = (r, s') \<Longrightarrow> I s'"
  by (metis keeps_def snd_conv)

lemma keeps_ret [keeps_rules]: "keeps I (ret x)"
  by (simp add: keeps_def ret_def)

lemma keeps_raise [keeps_rules]: "keeps I (raise e)"
  by (simp add: keeps_def raise_def)

lemma keeps_lift_result [keeps_rules]: "keeps I (lift_result r)"
  by (simp add: keeps_def lift_result_def)

lemma keeps_query [keeps_rules]: "keeps I (query f)"
  by (simp add: keeps_def query_def)

lemma keeps_assert [keeps_rules]: "keeps I (assert_that b)"
  by (simp add: keeps_def assert_that_def ret_def raise_def)

lemma keeps_bnd [keeps_rules]: "keeps I m \<Longrightarrow> (\<And>x. keeps I (f x)) \<Longrightarrow> keeps I (bnd m f)"
  by (fastforce simp: keeps_def bnd_def split: prod.splits sum.splits)

lemma keeps_andthen [keeps_rules]: "keeps I m \<Longrightarrow> keeps I k \<Longrightarrow> keeps I (andthen m k)"
  by (simp add: andthen_def keeps_bnd)

lemma keeps_try_except [keeps_rules]:
  "keeps I m \<Longrightarrow> (\<And>e. keeps I (h e)) \<Longrightarrow> keeps I (try_except m h)"
  by (fastforce simp: keeps_def try_except_def split: prod.splits sum.splits)

lemma keeps_if [keeps_rules]: "(b \<Longrightarrow> keeps I m) \<Longrightarrow> (\<not> b \<Longrightarrow> keeps I k) \<Longrightarrow> keeps I (if b then m else k)"
  by simp

lemma keeps_case_option [keeps_rules]:
  "(x = None \<Longrightarrow> keeps I m) \<Longrightarrow> (\<And>y. x = Some y \<Longrightarrow> keeps I (f y)) \<Longrightarrow>
   keeps I (case x of None \<Rightarrow> m | Some y \<Rightarrow> f y)"
  by (cases x) auto

lemma keeps_case_prod [keeps_rules]:
  "(\<And>a b. x = (a, b) \<Longrightarrow> keeps I (f a b)) \<Longrightarrow> keeps I (case x of (a, b) \<Rightarrow> f a b)"
  by (cases x) auto

lemma keeps_let [keeps_rules]: "keeps I (f x) \<Longrightarrow> keeps I (Let x f)"
  by simp

text \<open>\<open>triple P m Q E\<close>: from \<open>P\<close>, a returned value satisfies \<open>Q\<close> with the session left behind,
  and after an exception the session satisfies \<open>E\<close>.\<close>

definition triple ::
    "('p session \<Rightarrow> bool) \<Rightarrow> ('p, 'a) prog \<Rightarrow> ('a \<Rightarrow> 'p session \<Rightarrow> bool) \<Rightarrow> ('p session \<Rightarrow> bool) \<Rightarrow> bool" where
  "triple P m Q E \<longleftrightarrow>
     (\<forall>s. P s \<longrightarrow> (case m s of (Inl e, s') \<Rightarrow> E s' | (Inr x, s') \<Rightarrow> Q x s'))"

lemma tripleD: "triple P m Q E \<Longrightarrow> P s \<Longrightarrow> m s = (Inr x, s') \<Longrightarrow> Q x s'"
  "triple P m Q E \<Longrightarrow> P s \<Longrightarrow> m s = (Inl e, s') \<Longrightarrow> E s'"
  by (fastforce simp: triple_def)+

lemma keeps_triple: "keeps I m \<longleftrightarrow> triple I m (\<lambda>_. I) I"
proof -
  have "(case m s of (Inl e, s') \<Rightarrow> I s' | (Inr x, s') \<Rightarrow> I s') \<longleftrightarrow> I (snd (m s))" for s
    by (auto split: prod.splits sum.splits)
  then show ?thesis by (simp add: keeps_def triple_def)
qed

lemma triple_bnd:
  "triple P m Q E \<Longrightarrow> (\<And>x. triple (Q x) (f x) R E) \<Longrightarrow> triple P (bnd m f) R E"
  by (fastforce simp: triple_def bnd_def split: prod.splits sum.splits)

lemma triple_andthen:
  "triple P m (\<lambda>_. Q) E \<Longrightarrow> triple Q k R E \<Longrightarrow> triple P (andthen m k) R E"
  unfolding andthen_def by (rule triple_bnd)

lemma triple_weaken:
  "triple P' m Q' E' \<Longrightarrow> (\<And>s. P s \<Longrightarrow> P' s) \<Longrightarrow> (\<And>x s. Q' x s \<Longrightarrow> Q x s) \<Longrightarrow>
     (\<And>s. E' s \<Longrightarrow> E s) \<Longrightarrow> triple P m Q E"
  by (fastforce simp: triple_def split: prod.splits sum.splits)

lemma triple_keeps: "keeps I m \<Longrightarrow> (\<And>s. P s \<Longrightarrow> I s) \<Longrightarrow> triple P m (\<lambda>_. I) I"
  unfolding keeps_triple by (erule triple_weaken) auto

text \<open>An invariant of the stored rows, required of what the transaction sees and of what is
  committed.\<close>

definition stored :: "(db \<Rightarrow> bool) \<Rightarrow> 'p session \<Rightarrow> bool" where
  "stored J s \<longleftrightarrow> J (working s) \<and> J (committed s)"

lemma stored_open [simp]: "stored J (open_session d p) \<longleftrightarrow> J d"
  by (simp add: stored_def open_session_def)

lemma keeps_stored_commit [keeps_rules]: "keeps (stored J) commit"
  by (simp add: keeps_def stored_def commit_def)

lemma keeps_stored_rollback [keeps_rules]: "keeps (stored J) rollback"
  by (simp add: keeps_def stored_def rollback_def)

lemma keeps_stored_inc [keeps_rules]: "keeps (stored J) (inc n)"
  by (simp add: keeps_def stored_def inc_def)

lemma keeps_stored_call_provider [keeps_rules]: "keeps (stored J) (call_provider c)"
  by (simp add: keeps_def stored_def call_provider_def split: prod.splits)

lemma keeps_stored_execute:
  "(\<And>d. J d \<Longrightarrow> J (f d)) \<Longrightarrow> keeps (stored J) (execute f)"
  by (simp add: keeps_def stored_def execute_def)

lemma keeps_stored_execute_returning:
  "(\<And>d. J d \<Longrightarrow> J (snd (f d))) \<Longrightarrow> keeps (stored J) (execute_returning f)"
  by (auto simp: keeps_def stored_def execute_returning_def case_prod_beta)

lemma keeps_stored_execute_checked:
  "(\<And>d x d'. J d \<Longrightarrow> f d = Inr (x, d') \<Longrightarrow> J d') \<Longrightarrow> keeps (stored J) (execute_checked f)"
  by (fastforce simp: keeps_def stored_def execute_checked_def split: sum.splits)

end
