(* ===== verification/Idempotency.thy ===== *)
theory Idempotency
  imports Database
begin

text \<open>
  The claim and replay protocol on the idempotency_keys table
  (\<open>packages/idempotency/service.py\<close>). \<open>claim_rows\<close> is the protocol on the rows: the INSERT
  \<open>ON CONFLICT DO NOTHING\<close>, the read-back, the decision, the conditional UPDATE of \<open>_reclaim\<close>
  and the retry when that UPDATE hits no row. Between the read-back and the UPDATE other
  transactions may commit; their effect, one database transformer per round, is the argument
  \<open>ws\<close>. The session keeps the object of the row it has read: the ORM writes the UPDATE's values
  into it whether or not the UPDATE hit a row, and the SELECT of a retry returns it as it is, so
  a retry never sees what the others did. The locale \<open>claim_store\<close> states the exclusion the
  services rely on, claims arriving at any times, and is interpreted on \<open>claim_rows\<close>.
\<close>

section \<open>Fingerprints and outcomes\<close>

definition DEFAULT_STALE_AFTER :: int where
  "DEFAULT_STALE_AFTER = seconds 30"

definition ascii_upper :: "string \<Rightarrow> string" where
  "ascii_upper s = map (\<lambda>c. let n = of_char c :: nat in
     if 97 \<le> n \<and> n \<le> 122 then char_of (n - 32) else c) s"

definition fingerprint_input :: "string \<Rightarrow> string \<Rightarrow> string \<Rightarrow> string" where
  "fingerprint_input method path body = ascii_upper method @ [CHR 0x0A] @ path @ [CHR 0x0A] @ body"

definition compute_fingerprint :: "(string \<Rightarrow> string) \<Rightarrow> string \<Rightarrow> string \<Rightarrow> string \<Rightarrow> string" where
  "compute_fingerprint sha256hex method path body = sha256hex (fingerprint_input method path body)"

datatype claim_outcome = CLAIMED | REPLAY | CONFLICT | IN_PROGRESS

record claim_result =
  outcome :: claim_outcome
  key_row :: idempotency_key

section \<open>The protocol on the rows\<close>

text \<open>The INSERT with \<open>ON CONFLICT DO NOTHING RETURNING\<close>: None when the pair
  (merchant_id, idempotency_key) is taken.\<close>

definition insert_claim ::
    "uuid \<Rightarrow> string \<Rightarrow> string \<Rightarrow> db \<Rightarrow> idempotency_key option \<times> db" where
  "insert_claim merchant_id key fingerprint d =
     (if \<exists>r \<in> set (idempotency_keys d). ik_merchant_id r = merchant_id \<and> ik_idempotency_key r = key
      then (None, d)
      else
        (let row = \<lparr>ik_id = next_uuid d, ik_merchant_id = merchant_id, ik_idempotency_key = key,
                    ik_request_fingerprint = fingerprint, ik_status = IK_PENDING,
                    ik_payment_intent_id = None, ik_refund_id = None, ik_response_status = None,
                    ik_response_body = None, ik_created_at = now d, ik_updated_at = now d,
                    ik_locked_at = Some (now d)\<rparr>
         in (Some row, d\<lparr>next_uuid := Suc (next_uuid d),
                         idempotency_keys := idempotency_keys d @ [row]\<rparr>)))"

text \<open>The WHERE clause of \<open>_reclaim\<close>.\<close>

definition reclaimable ::
    "idempotency_key \<Rightarrow> idempotency_status \<Rightarrow> instant option \<Rightarrow> idempotency_key \<Rightarrow> bool" where
  "reclaimable row expected_status expected_locked_at r \<longleftrightarrow>
     ik_id r = ik_id row \<and> ik_status r = expected_status \<and>
     (case expected_locked_at of
        None \<Rightarrow> True
      | Some t \<Rightarrow> (if ik_locked_at row \<noteq> None then ik_locked_at r = Some t else ik_locked_at r = None))"

definition reclaimed_row :: "instant \<Rightarrow> instant \<Rightarrow> idempotency_key \<Rightarrow> idempotency_key" where
  "reclaimed_row t_now db_now r =
     r\<lparr>ik_status := IK_PENDING, ik_locked_at := Some t_now, ik_payment_intent_id := None,
       ik_response_status := None, ik_response_body := None, ik_updated_at := db_now\<rparr>"

text \<open>The UPDATE and its RETURNING. The object handed out is the one the session holds, \<open>row\<close>,
  with the values of the SET clause written into it.\<close>

definition reclaim ::
    "idempotency_key \<Rightarrow> idempotency_status \<Rightarrow> instant \<Rightarrow> instant option \<Rightarrow> db
     \<Rightarrow> idempotency_key option \<times> db" where
  "reclaim row expected_status t_now expected_locked_at d =
     (let p = reclaimable row expected_status expected_locked_at in
      (map_option (\<lambda>_. reclaimed_row t_now (now d) row) (select_one p (idempotency_keys d)),
       d\<lparr>idempotency_keys := update_where p (reclaimed_row t_now (now d)) (idempotency_keys d)\<rparr>))"

definition interleave :: "(db \<Rightarrow> db) list \<Rightarrow> db \<Rightarrow> db" where
  "interleave ws d = (case ws of [] \<Rightarrow> d | w # _ \<Rightarrow> w d)"

definition same_key :: "uuid \<Rightarrow> string \<Rightarrow> idempotency_key \<Rightarrow> bool" where
  "same_key merchant_id key r \<longleftrightarrow> ik_merchant_id r = merchant_id \<and> ik_idempotency_key r = key"

definition effective_locked_at :: "idempotency_key \<Rightarrow> instant" where
  "effective_locked_at r = (case ik_locked_at r of Some t \<Rightarrow> t | None \<Rightarrow> ik_created_at r)"

text \<open>The object a SELECT returns for a row: the one the session holds for its primary key, if it
  holds one, and only otherwise a new one with the row's values.\<close>

definition held_object :: "idempotency_key option \<Rightarrow> idempotency_key \<Rightarrow> idempotency_key" where
  "held_object held row =
     (case held of
        None \<Rightarrow> row
      | Some obj \<Rightarrow> if ik_id obj = ik_id row then obj else row)"

text \<open>One call of \<open>claim_idempotency_key\<close> and, when its UPDATE misses, the call it returns to,
  which begins with the object of the previous one. Not returning at all is None.\<close>

partial_function (option) claim_loop ::
    "idempotency_key option \<Rightarrow> (db \<Rightarrow> db) list \<Rightarrow> uuid \<Rightarrow> string \<Rightarrow> string \<Rightarrow> int \<Rightarrow> db
     \<Rightarrow> (claim_result option \<times> db) option" where
  "claim_loop held ws merchant_id key fingerprint stale_after d =
     (case insert_claim merchant_id key fingerprint d of
        (Some won, d1) \<Rightarrow> Some (Some \<lparr>outcome = CLAIMED, key_row = won\<rparr>, d1)
      | (None, _) \<Rightarrow>
         (case map_option (held_object held) (select_one (same_key merchant_id key) (idempotency_keys d)) of
            None \<Rightarrow> Some (None, d)
          | Some existing \<Rightarrow>
             if ik_request_fingerprint existing \<noteq> fingerprint
             then Some (Some \<lparr>outcome = CONFLICT, key_row = existing\<rparr>, d)
             else if ik_status existing = IK_COMPLETED
             then Some (Some \<lparr>outcome = REPLAY, key_row = existing\<rparr>, d)
             else if ik_status existing = IK_FAILED
             then (case reclaim existing IK_FAILED (now d) None (interleave ws d) of
                     (Some r, d1) \<Rightarrow> Some (Some \<lparr>outcome = CLAIMED, key_row = r\<rparr>, d1)
                   | (None, d1) \<Rightarrow>
                       claim_loop (Some (reclaimed_row (now d) (ik_updated_at existing) existing)) (tl ws)
                         merchant_id key fingerprint stale_after d1)
             else if now d - effective_locked_at existing < stale_after
             then Some (Some \<lparr>outcome = IN_PROGRESS, key_row = existing\<rparr>, d)
             else (case reclaim existing IK_PENDING (now d) (Some (effective_locked_at existing))
                          (interleave ws d) of
                     (Some r, d1) \<Rightarrow> Some (Some \<lparr>outcome = CLAIMED, key_row = r\<rparr>, d1)
                   | (None, d1) \<Rightarrow>
                       claim_loop (Some (reclaimed_row (now d) (ik_updated_at existing) existing)) (tl ws)
                         merchant_id key fingerprint stale_after d1)))"

text \<open>A request's session holds no such object when it claims its key. No result stands for an
  exception: \<open>scalar_one\<close> on no row, or recursion without end, which is ruled out below for
  every positive \<open>stale_after\<close>.\<close>

definition claim_rows ::
    "(db \<Rightarrow> db) list \<Rightarrow> uuid \<Rightarrow> string \<Rightarrow> string \<Rightarrow> int \<Rightarrow> db \<Rightarrow> claim_result option \<times> db" where
  "claim_rows ws merchant_id key fingerprint stale_after d =
     (case claim_loop None ws merchant_id key fingerprint stale_after d of
        Some res \<Rightarrow> res
      | None \<Rightarrow> (None, d))"

text \<open>Undisturbed, \<open>_reclaim\<close> finds the row the caller has just read.\<close>

lemma reclaimable_self:
  "reclaimable r IK_FAILED None r \<longleftrightarrow> ik_status r = IK_FAILED"
  "reclaimable r IK_PENDING (Some (effective_locked_at r)) r \<longleftrightarrow> ik_status r = IK_PENDING"
  by (auto simp: reclaimable_def effective_locked_at_def split: option.splits)

lemma reclaim_hits:
  "r \<in> set (idempotency_keys d) \<Longrightarrow> reclaimable row st t r \<Longrightarrow> fst (reclaim row st n t d) \<noteq> None"
  by (auto simp: reclaim_def Let_def select_one_None)

section \<open>The service functions\<close>

definition claim_idempotency_key ::
    "(db \<Rightarrow> db) list \<Rightarrow> uuid \<Rightarrow> string \<Rightarrow> string \<Rightarrow> int \<Rightarrow> ('p, claim_result) prog" where
  "claim_idempotency_key ws merchant_id key fingerprint stale_after =
     bnd (execute_returning (claim_rows ws merchant_id key fingerprint stale_after)) (\<lambda>c.
     case c of
       None \<Rightarrow> raise NoResultFound
     | Some claim \<Rightarrow>
         if outcome claim = CONFLICT
         then andthen (inc ''idempotency_conflicts_total'') (ret claim)
         else ret claim)"

definition complete_row ::
    "uuid option \<Rightarrow> int \<Rightarrow> json \<Rightarrow> uuid option \<Rightarrow> instant \<Rightarrow> idempotency_key \<Rightarrow> idempotency_key" where
  "complete_row payment_id response_status response_body refund_id t r =
     r\<lparr>ik_status := IK_COMPLETED, ik_payment_intent_id := payment_id, ik_refund_id := refund_id,
       ik_response_status := Some response_status, ik_response_body := Some response_body,
       ik_updated_at := t\<rparr>"

definition complete_idempotency_key ::
    "uuid \<Rightarrow> uuid option \<Rightarrow> int \<Rightarrow> json \<Rightarrow> uuid option \<Rightarrow> ('p, unit) prog" where
  "complete_idempotency_key key_row_id payment_id response_status response_body refund_id =
     execute (\<lambda>d. d\<lparr>idempotency_keys := update_where (\<lambda>r. ik_id r = key_row_id)
       (complete_row payment_id response_status response_body refund_id (now d)) (idempotency_keys d)\<rparr>)"

definition fail_idempotency_key :: "uuid \<Rightarrow> ('p, unit) prog" where
  "fail_idempotency_key key_row_id =
     execute (\<lambda>d. d\<lparr>idempotency_keys := update_where (\<lambda>r. ik_id r = key_row_id)
       (\<lambda>r. r\<lparr>ik_status := IK_FAILED, ik_updated_at := now d\<rparr>) (idempotency_keys d)\<rparr>)"

section \<open>The exclusion a claim store promises\<close>

primrec run_claims :: "('r \<Rightarrow> 's \<Rightarrow> claim_outcome \<times> 's) \<Rightarrow> 'r list \<Rightarrow> 's \<Rightarrow> ('r \<times> claim_outcome) list" where
  "run_claims claim [] s = []"
| "run_claims claim (r # rs) s = (r, fst (claim r s)) # run_claims claim rs (snd (claim r s))"

definition winners :: "('r \<Rightarrow> 'k) \<Rightarrow> 'k \<Rightarrow> ('r \<times> claim_outcome) list \<Rightarrow> 'r list" where
  "winners key_of k ps = map fst (filter (\<lambda>(r, out). key_of r = k \<and> out = CLAIMED) ps)"

text \<open>A winner shuts the others out for a window of time; a loser, and a claim for another key,
  change nothing for anyone. Claims come at any times: the clocks of the application servers
  need not agree.\<close>

locale claim_store =
  fixes claim :: "'r \<Rightarrow> 's \<Rightarrow> claim_outcome \<times> 's"
    and key_of :: "'r \<Rightarrow> 'k"
    and time_of :: "'r \<Rightarrow> int"
    and window :: int
    and invar :: "'s \<Rightarrow> bool"
  assumes invar_claim: "invar s \<Longrightarrow> invar (snd (claim r s))"
    and claim_blocks:
      "invar s \<Longrightarrow> fst (claim r s) = CLAIMED \<Longrightarrow> key_of r' = key_of r \<Longrightarrow>
         fst (claim r' (snd (claim r s))) = CLAIMED \<Longrightarrow> time_of r + window \<le> time_of r'"
    and loser_frame:
      "invar s \<Longrightarrow> fst (claim r s) \<noteq> CLAIMED \<Longrightarrow> fst (claim r' (snd (claim r s))) = fst (claim r' s)"
    and other_key:
      "invar s \<Longrightarrow> key_of r' \<noteq> key_of r \<Longrightarrow> fst (claim r' (snd (claim r s))) = fst (claim r' s)"
    and window_nonneg: "0 \<le> window"
begin

definition blocked :: "'k \<Rightarrow> int \<Rightarrow> 's \<Rightarrow> bool" where
  "blocked k u s \<longleftrightarrow> (\<forall>r. key_of r = k \<longrightarrow> fst (claim r s) = CLAIMED \<longrightarrow> u \<le> time_of r)"

lemma blocked_claim:
  assumes "invar s" and "blocked k u s"
  shows "blocked k u (snd (claim r s))"
proof (cases "key_of r = k \<and> fst (claim r s) = CLAIMED")
  case True
  with assms have "u \<le> time_of r" by (simp add: blocked_def)
  with True assms(1) window_nonneg show ?thesis
    unfolding blocked_def by (metis (no_types, opaque_lifting) add_increasing2 claim_blocks order_trans)
next
  case False
  with assms show ?thesis unfolding blocked_def by (metis loser_frame other_key)
qed

lemma blocked_winners:
  "invar s \<Longrightarrow> blocked k u s \<Longrightarrow> r \<in> set (winners key_of k (run_claims claim rs s)) \<Longrightarrow> u \<le> time_of r"
proof (induction rs arbitrary: s)
  case (Cons r' rs)
  note IH = Cons.IH [OF invar_claim [OF Cons.prems(1)] blocked_claim [OF Cons.prems(1,2)], of r']
  show ?case
  proof (cases "r = r' \<and> key_of r' = k \<and> fst (claim r' s) = CLAIMED")
    case True
    with Cons.prems(2) show ?thesis by (simp add: blocked_def)
  next
    case False
    with Cons.prems(3) show ?thesis by (intro IH) (auto simp: winners_def split: if_splits)
  qed
qed (simp add: winners_def)

lemma winner_blocks: "invar s \<Longrightarrow> fst (claim r s) = CLAIMED \<Longrightarrow> blocked (key_of r) (time_of r + window) (snd (claim r s))"
  by (auto simp: blocked_def claim_blocks)

lemma winners_apart:
  "invar s \<Longrightarrow> sorted_wrt (\<lambda>r r'. time_of r + window \<le> time_of r') (winners key_of k (run_claims claim rs s))"
proof (induction rs arbitrary: s)
  case (Cons r rs)
  have "time_of r + window \<le> time_of r'"
    if "key_of r = k" "fst (claim r s) = CLAIMED" "r' \<in> set (winners key_of k (run_claims claim rs (snd (claim r s))))" for r'
    using blocked_winners [OF invar_claim [OF Cons.prems] winner_blocks [OF Cons.prems that(2), unfolded that(1)] that(3)] .
  with Cons show ?case by (auto simp: winners_def invar_claim)
qed (simp add: winners_def)

lemma first_claimant_wins:
  assumes "invar s" and "fst (claim r s) = CLAIMED" and "\<forall>r' \<in> set rs. key_of r' = key_of r \<longrightarrow> time_of r' < time_of r + window"
  shows "winners key_of (key_of r) (run_claims claim (r # rs) s) = [r]"
proof -
  have from_rs: "r' \<in> set rs \<and> key_of r' = k" if "r' \<in> set (winners key_of k (run_claims claim rs s))" for r' k s
    using that by (induction rs arbitrary: s) (auto simp: winners_def split: if_splits)
  have "winners key_of (key_of r) (run_claims claim rs (snd (claim r s))) = []"
  proof (rule ccontr)
    assume "\<not> ?thesis"
    then obtain r' where r': "r' \<in> set (winners key_of (key_of r) (run_claims claim rs (snd (claim r s))))"
      using last_in_set by blast
    from blocked_winners [OF invar_claim [OF assms(1)] winner_blocks [OF assms(1,2)] r'] from_rs [OF r'] assms(3)
    show False by fastforce
  qed
  with assms(2) show ?thesis by (simp add: winners_def)
qed

end

section \<open>The protocol keeps it\<close>

definition keys_wf :: "db \<Rightarrow> bool" where
  "keys_wf d \<longleftrightarrow> fresh_ids ik_id (idempotency_keys d) (next_uuid d) \<and>
     distinct (map (\<lambda>r. (ik_merchant_id r, ik_idempotency_key r)) (idempotency_keys d))"

lemma insert_claim_None: "fst (insert_claim m k f d) = None \<longleftrightarrow> select_one (same_key m k) (idempotency_keys d) \<noteq> None"
  by (auto simp: insert_claim_def select_one_None same_key_def Let_def)

lemma insert_claim_conflict: "fst (insert_claim m k f d) = None \<Longrightarrow> snd (insert_claim m k f d) = d"
  by (auto simp: insert_claim_def Let_def split: if_splits)

text \<open>Undisturbed, the protocol is a decision on the row of the key, if there is one.\<close>

lemma claim_rows_undisturbed:
  "claim_rows [] m k f stale d =
     (case select_one (same_key m k) (idempotency_keys d) of
        None \<Rightarrow> (case insert_claim m k f d of (w, d1) \<Rightarrow> (Some \<lparr>outcome = CLAIMED, key_row = the w\<rparr>, d1))
      | Some e \<Rightarrow>
          if ik_request_fingerprint e \<noteq> f then (Some \<lparr>outcome = CONFLICT, key_row = e\<rparr>, d)
          else if ik_status e = IK_COMPLETED then (Some \<lparr>outcome = REPLAY, key_row = e\<rparr>, d)
          else if ik_status e = IK_PENDING \<and> now d - effective_locked_at e < stale
          then (Some \<lparr>outcome = IN_PROGRESS, key_row = e\<rparr>, d)
          else (case reclaim e (ik_status e) (now d)
                       (if ik_status e = IK_FAILED then None else Some (effective_locked_at e)) d of
                  (r, d1) \<Rightarrow> (Some \<lparr>outcome = CLAIMED, key_row = the r\<rparr>, d1)))"
proof (cases "select_one (same_key m k) (idempotency_keys d)")
  case None
  then show ?thesis
    using insert_claim_None [of m k f d]
    by (cases "insert_claim m k f d") (auto simp: claim_rows_def claim_loop.simps [of None "[]" m k f stale d] held_object_def split: option.splits)
next
  case (Some e)
  then have e: "e \<in> set (idempotency_keys d)" by (auto dest: select_one_Some)
  have ins: "insert_claim m k f d = (None, d)"
    using Some insert_claim_None [of m k f d] insert_claim_conflict [of m k f d]
    by (metis option.distinct(1) prod.collapse)
  show ?thesis
  proof (cases "ik_status e")
    case IK_PENDING
    then show ?thesis
      using Some ins reclaim_hits [OF e, of e IK_PENDING "Some (effective_locked_at e)" "now d"]
      by (auto simp: claim_rows_def claim_loop.simps [of None "[]" m k f stale d] held_object_def interleave_def reclaimable_self split: prod.splits option.splits)
  next
    case IK_FAILED
    then show ?thesis
      using Some ins reclaim_hits [OF e, of e IK_FAILED None "now d"]
      by (auto simp: claim_rows_def claim_loop.simps [of None "[]" m k f stale d] held_object_def interleave_def reclaimable_self split: prod.splits option.splits)
  qed (simp add: claim_rows_def claim_loop.simps [of None "[]" m k f stale d] held_object_def Some ins)
qed

text \<open>One undisturbed claim of a request (merchant, key, fingerprint) with the service's
  default staleness window.\<close>

definition claim_once :: "uuid \<times> string \<times> string \<Rightarrow> db \<Rightarrow> claim_outcome \<times> db" where
  "claim_once r d =
     (case r of (m, k, f) \<Rightarrow>
        (case claim_rows [] m k f DEFAULT_STALE_AFTER d of
           (Some c, d') \<Rightarrow> (outcome c, d')
         | (None, d') \<Rightarrow> (CONFLICT, d')))"

definition claim_key :: "uuid \<times> string \<times> string \<Rightarrow> uuid \<times> string" where
  "claim_key r = (case r of (m, k, f) \<Rightarrow> (m, k))"

definition decide :: "idempotency_key option \<Rightarrow> string \<Rightarrow> int \<Rightarrow> instant \<Rightarrow> claim_outcome" where
  "decide row f stale t =
     (case row of
        None \<Rightarrow> CLAIMED
      | Some e \<Rightarrow>
          if ik_request_fingerprint e \<noteq> f then CONFLICT
          else if ik_status e = IK_COMPLETED then REPLAY
          else if ik_status e = IK_PENDING \<and> t - effective_locked_at e < stale then IN_PROGRESS
          else CLAIMED)"

lemma insert_claim_new:
  "select_one (same_key m k) (idempotency_keys d) = None \<Longrightarrow>
     \<exists>row. insert_claim m k f d = (Some row, d\<lparr>next_uuid := Suc (next_uuid d),
              idempotency_keys := idempotency_keys d @ [row]\<rparr>) \<and>
       ik_id row = next_uuid d \<and> same_key m k row \<and> ik_request_fingerprint row = f \<and>
       ik_status row = IK_PENDING \<and> ik_locked_at row = Some (now d) \<and>
       ik_payment_intent_id row = None \<and> ik_response_status row = None \<and> ik_response_body row = None"
  by (auto simp: insert_claim_def Let_def same_key_def select_one_None)

lemma fst_claim_once:
  "fst (claim_once (m, k, f) d) =
     decide (select_one (same_key m k) (idempotency_keys d)) f DEFAULT_STALE_AFTER (now d)"
  by (auto simp: claim_once_def claim_rows_undisturbed decide_def split: option.splits prod.splits)

lemma snd_claim_once:
  "snd (claim_once (m, k, f) d) =
     (if decide (select_one (same_key m k) (idempotency_keys d)) f DEFAULT_STALE_AFTER (now d) \<noteq> CLAIMED
      then d
      else (case select_one (same_key m k) (idempotency_keys d) of
              None \<Rightarrow> snd (insert_claim m k f d)
            | Some e \<Rightarrow> snd (reclaim e (ik_status e) (now d)
                (if ik_status e = IK_FAILED then None else Some (effective_locked_at e)) d)))"
  by (auto simp: claim_once_def claim_rows_undisturbed decide_def split: option.splits prod.splits)

lemma reclaim_keys_wf: "keys_wf d \<Longrightarrow> keys_wf (snd (reclaim e st n t d))"
  by (simp add: keys_wf_def reclaim_def Let_def fresh_ids_update reclaimed_row_def map_update_where)

lemma insert_claim_keys_wf: "keys_wf d \<Longrightarrow> keys_wf (snd (insert_claim m k f d))"
  by (auto simp: keys_wf_def insert_claim_def Let_def fresh_ids_insert)

lemma same_key_reclaimed [simp]: "same_key m k (reclaimed_row t n r) = same_key m k r"
  by (simp add: same_key_def reclaimed_row_def)

lemma select_reclaim:
  "select_one (same_key m k) (idempotency_keys (snd (reclaim e st n t d))) =
     map_option (\<lambda>r. if reclaimable e st t r then reclaimed_row n (now d) r else r)
       (select_one (same_key m k) (idempotency_keys d))"
  by (simp add: reclaim_def Let_def select_one_update_where)

lemma now_claim [simp]:
  "now (snd (insert_claim m k f d)) = now d" "now (snd (reclaim e st n t d)) = now d"
  by (simp_all add: insert_claim_def reclaim_def Let_def)

text \<open>A claim at the time its application server reads off its clock.\<close>

definition claim_at :: "instant \<times> uuid \<times> string \<times> string \<Rightarrow> db \<Rightarrow> claim_outcome \<times> db" where
  "claim_at r d = claim_once (snd r) (d\<lparr>now := fst r\<rparr>)"

definition claim_at_key :: "instant \<times> uuid \<times> string \<times> string \<Rightarrow> uuid \<times> string" where
  "claim_at_key r = claim_key (snd r)"

lemma fst_claim_at:
  "fst (claim_at (t, m, k, f) d) = decide (select_one (same_key m k) (idempotency_keys d)) f DEFAULT_STALE_AFTER t"
  by (simp add: claim_at_def fst_claim_once)

lemma decided_after_win:
  assumes "fst (claim_once (m, k, f) d) = CLAIMED"
  shows "decide (select_one (same_key m k) (idempotency_keys (snd (claim_once (m, k, f) d)))) f' DEFAULT_STALE_AFTER t' =
    (if f' \<noteq> f then CONFLICT else if t' - now d < DEFAULT_STALE_AFTER then IN_PROGRESS else CLAIMED)"
proof (cases "select_one (same_key m k) (idempotency_keys d)")
  case None
  with insert_claim_new [OF None, of f] show ?thesis
    by (auto simp: snd_claim_once decide_def select_one_append effective_locked_at_def split: if_splits)
next
  case (Some e)
  let ?t = "if ik_status e = IK_FAILED then None else Some (effective_locked_at e)"
  from assms Some have st: "ik_status e \<noteq> IK_COMPLETED" "ik_request_fingerprint e = f"
    by (auto simp: fst_claim_once decide_def split: if_splits)
  then have "reclaimable e (ik_status e) ?t e"
    using reclaimable_self [of e] by (cases "ik_status e") auto
  with assms Some st show ?thesis
    by (auto simp: fst_claim_once snd_claim_once select_reclaim decide_def reclaimed_row_def effective_locked_at_def)
qed

text \<open>After a win, whoever comes next for the key is told by its fingerprint and the time passed.\<close>

lemma claim_after_win:
  assumes "fst (claim_at (t, m, k, f) d) = CLAIMED"
  shows "fst (claim_at (t', m, k, f') (snd (claim_at (t, m, k, f) d))) =
    (if f' \<noteq> f then CONFLICT else if t' - t < DEFAULT_STALE_AFTER then IN_PROGRESS else CLAIMED)"
  using decided_after_win [of m k f "d\<lparr>now := t\<rparr>" f' t'] assms
  by (simp only: fst_claim_at) (simp add: claim_at_def fst_claim_once)

lemma claim_once_other_key:
  assumes wf: "keys_wf d" and ne: "(m', k') \<noteq> (m, k)"
  shows "select_one (same_key m' k') (idempotency_keys (snd (claim_once (m, k, f) d))) =
    select_one (same_key m' k') (idempotency_keys d)"
proof (cases "select_one (same_key m k) (idempotency_keys d)")
  case None
  from insert_claim_new [OF None, of f] obtain row where
    ins: "snd (insert_claim m k f d) = d\<lparr>next_uuid := Suc (next_uuid d),
      idempotency_keys := idempotency_keys d @ [row]\<rparr>" and row: "same_key m k row"
    by auto
  from row ne have "\<not> same_key m' k' row" by (auto simp: same_key_def)
  then have "select_one (same_key m' k') (idempotency_keys d @ [row]) =
      select_one (same_key m' k') (idempotency_keys d)"
    by (simp add: select_one_append split: option.splits)
  with None ins show ?thesis by (simp add: snd_claim_once)
next
  case (Some e)
  then have e: "e \<in> set (idempotency_keys d)" "same_key m k e" by (auto dest: select_one_Some)
  have "\<not> reclaimable e st t r" if "select_one (same_key m' k') (idempotency_keys d) = Some r" for r st t
  proof
    assume "reclaimable e st t r"
    then have "ik_id r = ik_id e" by (simp add: reclaimable_def)
    with that e wf have "r = e"
      by (auto simp: keys_wf_def fresh_ids_def dest: select_one_Some intro: distinct_map_inj_row)
    with that e ne show False by (auto simp: same_key_def dest: select_one_Some)
  qed
  then have "select_one (same_key m' k') (idempotency_keys (snd (reclaim e st n t d))) =
      select_one (same_key m' k') (idempotency_keys d)" for st n t
    by (auto simp: select_reclaim map_option_case split: option.splits)
  with Some show ?thesis by (simp add: snd_claim_once)
qed

interpretation ids: claim_store claim_at claim_at_key fst DEFAULT_STALE_AFTER keys_wf
proof
  fix d and r r' :: "instant \<times> uuid \<times> string \<times> string"
  obtain t m k f where r: "r = (t, m, k, f)" by (cases r) auto
  obtain t' m' k' f' where r': "r' = (t', m', k', f')" by (cases r') auto
  have clock: "keys_wf (d\<lparr>now := t\<rparr>) = keys_wf d" by (simp add: keys_wf_def)
  show "keys_wf (snd (claim_at r d))" if "keys_wf d"
    using that clock by (auto simp: r claim_at_def snd_claim_once reclaim_keys_wf insert_claim_keys_wf split: option.splits)
  show "fst r + DEFAULT_STALE_AFTER \<le> fst r'"
    if "fst (claim_at r d) = CLAIMED" and "claim_at_key r' = claim_at_key r" and "fst (claim_at r' (snd (claim_at r d))) = CLAIMED"
    using that by (auto simp: r r' claim_at_key_def claim_key_def claim_after_win split: if_splits)
  show "fst (claim_at r' (snd (claim_at r d))) = fst (claim_at r' d)" if "fst (claim_at r d) \<noteq> CLAIMED"
    using that by (simp add: r r' fst_claim_at) (simp add: claim_at_def snd_claim_once)
  show "fst (claim_at r' (snd (claim_at r d))) = fst (claim_at r' d)" if "keys_wf d" and "claim_at_key r' \<noteq> claim_at_key r"
    using that claim_once_other_key [of "d\<lparr>now := t\<rparr>" m' k' m k f] clock
    by (simp add: r r' claim_at_key_def claim_key_def fst_claim_at) (simp add: claim_at_def)
qed (simp add: DEFAULT_STALE_AFTER_def seconds_def)

section \<open>Properties\<close>



text \<open>What the table holds for a claim that won.\<close>

definition holds_key :: "claim_result \<Rightarrow> db \<Rightarrow> bool" where
  "holds_key c d \<longleftrightarrow> (\<exists>r \<in> set (idempotency_keys d). ik_id r = ik_id (key_row c) \<and> ik_status r = IK_PENDING \<and>
     ik_locked_at r = ik_locked_at (key_row c) \<and> ik_locked_at r \<noteq> None)"

lemma reclaim_holds:
  assumes "reclaim row st n t d = (Some r, d1)"
  shows "holds_key \<lparr>outcome = CLAIMED, key_row = r\<rparr> d1"
proof -
  from assms obtain x where x: "select_one (reclaimable row st t) (idempotency_keys d) = Some x"
    and r: "r = reclaimed_row n (now d) row"
    and d1: "d1 = d\<lparr>idempotency_keys := update_where (reclaimable row st t) (reclaimed_row n (now d)) (idempotency_keys d)\<rparr>"
    by (auto simp: reclaim_def Let_def)
  from select_one_Some [OF x] have "reclaimed_row n (now d) x \<in> set (idempotency_keys d1)" and "ik_id x = ik_id row"
    by (auto simp: d1 set_update_where reclaimable_def)
  then show ?thesis unfolding holds_key_def by (intro bexI [of _ "reclaimed_row n (now d) x"]) (simp_all add: r reclaimed_row_def)
qed

lemma reclaim_misses: "reclaim row st n t d = (None, d1) \<Longrightarrow> d1 = d"
  by (auto simp: reclaim_def Let_def select_one_None update_where_none)

lemma insert_claim_taken: "select_one (same_key m k) (idempotency_keys d) = Some e \<Longrightarrow> insert_claim m k f d = (None, d)"
  using insert_claim_None [of m k f d] insert_claim_conflict [of m k f d] by (metis option.distinct(1) prod.collapse)

text \<open>One round either decides or, its UPDATE having missed, goes on with the object it wrote into.\<close>

lemma claim_round:
  "(\<exists>c d'. claim_loop held ws m k f stale d = Some (Some c, d') \<and> (outcome c = CLAIMED \<longrightarrow> holds_key c d')) \<or>
   (\<exists>e row. select_one (same_key m k) (idempotency_keys d) = Some row \<and> ik_id row = ik_id e \<and> ik_request_fingerprint e = f \<and>
      claim_loop held ws m k f stale d =
        claim_loop (Some (reclaimed_row (now d) (ik_updated_at e) e)) (tl ws) m k f stale (interleave ws d))"
proof (cases "select_one (same_key m k) (idempotency_keys d)")
  case None
  from insert_claim_new [OF this, of f] show ?thesis
    by (auto simp: claim_loop.simps [of held ws m k f stale d] holds_key_def)
next
  case (Some row)
  let ?e = "held_object held row"
  have id: "ik_id row = ik_id ?e" by (simp add: held_object_def split: option.split)
  obtain r1 d1 where f1: "reclaim ?e IK_FAILED (now d) None (interleave ws d) = (r1, d1)" by force
  obtain r2 d2 where f2: "reclaim ?e IK_PENDING (now d) (Some (effective_locked_at ?e)) (interleave ws d) = (r2, d2)" by force
  show ?thesis
    unfolding claim_loop.simps [of held ws m k f stale d] insert_claim_taken [OF Some]
    using id f1 f2 by (cases r1; cases r2) (auto simp: Some dest: reclaim_misses reclaim_holds)
qed

text \<open>The object an UPDATE was written into counts as locked at that time, so the next round
  decides, unless the UPDATE itself took as long as the window.\<close>

lemma claim_after_miss:
  assumes "select_one (same_key m k) (idempotency_keys d) = Some row" and "ik_id row = ik_id e" and "ik_request_fingerprint e = f"
    and "now d - t < stale"
  shows "claim_loop (Some (reclaimed_row t u e)) ws m k f stale d =
    Some (Some \<lparr>outcome = IN_PROGRESS, key_row = reclaimed_row t u e\<rparr>, d)"
  using assms
  by (simp add: claim_loop.simps [of _ ws m k f stale d] insert_claim_taken held_object_def)
    (simp add: reclaimed_row_def effective_locked_at_def)

lemma claim_loop_decides:
  assumes "0 < stale"
  shows "\<exists>c d'. claim_loop held ws m k f stale d = Some (Some c, d') \<and> (outcome c = CLAIMED \<longrightarrow> holds_key c d')"
proof (induction ws arbitrary: held d)
  case Nil
  show ?case
    using claim_round [of held "[]" m k f stale d] claim_after_miss [of m k d _ _ f "now d" stale] assms
    by (fastforce simp: interleave_def)
next
  case (Cons w ws)
  then show ?case using claim_round [of held "w # ws" m k f stale d] by (auto simp: interleave_def)
qed

text \<open>A claimant whose update comes too late, because the key was taken over, completed or failed
  after it read the row.\<close>

definition overtaken :: "uuid \<Rightarrow> string \<Rightarrow> string \<Rightarrow> int \<Rightarrow> idempotency_key \<Rightarrow> db \<Rightarrow> db \<Rightarrow> bool" where
  "overtaken m k f stale e d d' \<longleftrightarrow>
     select_one (same_key m k) (idempotency_keys d) = Some e \<and> decide (Some e) f stale (now d) = CLAIMED \<and>
     (\<forall>r \<in> set (idempotency_keys d').
        \<not> reclaimable e (ik_status e) (if ik_status e = IK_FAILED then None else Some (effective_locked_at e)) r) \<and>
     (\<exists>r. select_one (same_key m k) (idempotency_keys d') = Some r \<and> ik_id r = ik_id e) \<and>
     now d' - now d < stale"

lemma overtaken_claim:
  assumes "overtaken m k f stale e d (w d)"
  shows "claim_rows (w # ws) m k f stale d =
    (Some \<lparr>outcome = IN_PROGRESS, key_row = reclaimed_row (now d) (ik_updated_at e) e\<rparr>, w d)"
proof -
  let ?t = "if ik_status e = IK_FAILED then None else Some (effective_locked_at e)"
  from assms have sel: "select_one (same_key m k) (idempotency_keys d) = Some e" and in_time: "now (w d) - now d < stale"
    and dec: "decide (Some e) f stale (now d) = CLAIMED"
    and missed: "\<forall>r \<in> set (idempotency_keys (w d)). \<not> reclaimable e (ik_status e) ?t r"
    by (simp_all add: overtaken_def)
  from assms obtain row where row: "select_one (same_key m k) (idempotency_keys (w d)) = Some row" "ik_id row = ik_id e"
    by (auto simp: overtaken_def)
  have fp: "ik_request_fingerprint e = f" and st: "ik_status e \<noteq> IK_COMPLETED"
    and old: "ik_status e = IK_PENDING \<Longrightarrow> \<not> now d - effective_locked_at e < stale"
    using dec by (auto simp: decide_def split: if_splits)
  have miss: "reclaim e (ik_status e) (now d) ?t (w d) = (None, w d)"
    using missed by (auto simp: reclaim_def Let_def select_one_None update_where_none)
  have "claim_loop None (w # ws) m k f stale d =
      claim_loop (Some (reclaimed_row (now d) (ik_updated_at e) e)) ws m k f stale (w d)"
    using miss st old
    by (cases "ik_status e")
      (simp_all add: claim_loop.simps [of None "w # ws" m k f stale d] sel insert_claim_taken held_object_def fp interleave_def)
  then show ?thesis using claim_after_miss [OF row fp in_time] by (simp add: claim_rows_def)
qed


text \<open>A key left PENDING by a server that died, and another server that takes it over and completes
  it while the update of the first is on its way.\<close>

definition abandoned_key :: idempotency_key where
  "abandoned_key = \<lparr>ik_id = 0, ik_merchant_id = 7, ik_idempotency_key = ''k'', ik_request_fingerprint = ''f'',
     ik_status = IK_PENDING, ik_payment_intent_id = None, ik_refund_id = None, ik_response_status = None,
     ik_response_body = None, ik_created_at = 0, ik_updated_at = 0, ik_locked_at = Some 0\<rparr>"

definition abandoned_db :: db where
  "abandoned_db = (empty_db (seconds 31))\<lparr>idempotency_keys := [abandoned_key], next_uuid := 1\<rparr>"

definition overtake :: "db \<Rightarrow> db" where
  "overtake d = d\<lparr>now := now d + seconds 1,
     idempotency_keys := map (complete_row None 201 (JObj []) None (now d)) (idempotency_keys d)\<rparr>"


lemma upper_no_newline: "CHR 0x0A \<notin> set s \<Longrightarrow> CHR 0x0A \<notin> set (ascii_upper s)"
proof
  assume "CHR 0x0A \<notin> set s" and "CHR 0x0A \<in> set (ascii_upper s)"
  then obtain c where c: "c \<noteq> CHR 0x0A" and eq: "CHR 0x0A = (let n = of_char c :: nat in if 97 \<le> n \<and> n \<le> 122 then char_of (n - 32) else c)"
    by (force simp: ascii_upper_def)
  then have n: "97 \<le> (of_char c :: nat)" "of_char c \<le> (122 :: nat)" and nl: "char_of (of_char c - 32 :: nat) = CHR 0x0A"
    by (auto simp: Let_def split: if_splits)
  have "of_char (char_of (of_char c - 32 :: nat)) = (of_char c - 32 :: nat)" using n by (simp add: of_char_of)
  with nl n show False by simp
qed

text \<open>What is digested for a fingerprint determines the request: two requests give the same
  text exactly when they agree in method (up to case), path and body, so that a collision of
  fingerprints is a collision of the digest. Methods and paths have no line break.\<close>

theorem fingerprint_input_injective:
  assumes "CHR 0x0A \<notin> set (m @ m')" and "CHR 0x0A \<notin> set (p @ p')"
  shows "fingerprint_input m p b = fingerprint_input m' p' b' \<longleftrightarrow> ascii_upper m = ascii_upper m' \<and> p = p' \<and> b = b'"
  using assms upper_no_newline [of m] upper_no_newline [of m'] by (simp add: fingerprint_input_def append_sep_eq)

theorem fingerprint_input_injective_witness:
  "fingerprint_input ''POST'' ''/v1/payments'' ''a'' \<noteq> fingerprint_input ''POST'' ''/v1/payments'' ''b''"
  using fingerprint_input_injective [of "''POST''" "''POST''" "''/v1/payments''" "''/v1/payments''" "''a''" "''b''"] by simp

end
