(* ===== verification/Ledger.thy ===== *)
theory Ledger
  imports Database
begin

text \<open>
  The double-entry ledger (\<open>packages/ledger\<close>): the two writers of \<open>service.py\<close> and the read-only
  audits of \<open>invariants.py\<close>. The lemmas show that a writer adds one balanced pair and nothing
  else, that the audits then find nothing (per transaction, over the whole table, and by the
  grouping query), and that every entry ever written stays as it was.
\<close>

section \<open>service.py\<close>

definition MERCHANT_RECEIVABLE :: string where "MERCHANT_RECEIVABLE = ''Merchant Receivable''"
definition PAYMENT_CLEARING :: string where "PAYMENT_CLEARING = ''Payment Clearing''"
definition REFUND_LIABILITY :: string where "REFUND_LIABILITY = ''Refund Liability''"

text \<open>The row \<open>_entry\<close> builds; its own id and timestamp are filled in by the INSERT.\<close>

definition entry ::
    "uuid \<Rightarrow> uuid \<Rightarrow> string \<Rightarrow> direction \<Rightarrow> int \<Rightarrow> uuid \<Rightarrow> instant \<Rightarrow> ledger_entry" where
  "entry payment_id txn account dir amount_minor row_id t =
     \<lparr>le_id = row_id, le_payment_intent_id = payment_id, le_ledger_transaction_id = txn,
      le_account = account, le_direction = dir, le_amount_minor = amount_minor, le_created_at = t\<rparr>"

type_synonym entry_pair = "(uuid \<Rightarrow> instant \<Rightarrow> ledger_entry) \<times> (uuid \<Rightarrow> instant \<Rightarrow> ledger_entry)"

definition build_payment_settled_pair :: "uuid \<Rightarrow> uuid \<Rightarrow> int \<Rightarrow> entry_pair" where
  "build_payment_settled_pair txn payment_id amount_minor =
     (entry payment_id txn MERCHANT_RECEIVABLE DEBIT amount_minor,
      entry payment_id txn PAYMENT_CLEARING CREDIT amount_minor)"

definition build_refund_settled_pair :: "uuid \<Rightarrow> uuid \<Rightarrow> int \<Rightarrow> entry_pair" where
  "build_refund_settled_pair txn payment_id amount_minor =
     (entry payment_id txn REFUND_LIABILITY DEBIT amount_minor,
      entry payment_id txn MERCHANT_RECEIVABLE CREDIT amount_minor)"

text \<open>\<open>session.add(debit); session.add(credit)\<close>, with the table's CHECK on the amount. The
  transaction id is the identifier drawn first, the rows' own ids follow.\<close>

definition add_pair :: "(uuid \<Rightarrow> entry_pair) \<Rightarrow> int \<Rightarrow> db \<Rightarrow> exn + (uuid \<times> db)" where
  "add_pair build amount_minor d =
     (if \<not> bigint amount_minor then Inl DataError
      else if \<not> amount_minor > 0 then Inl (IntegrityError ''ck_ledger_entries_amount_positive'')
      else
        (let txn = next_uuid d; (debit, credit) = build txn in
         Inr (txn, d\<lparr>next_uuid := next_uuid d + 3,
           ledger_entries := ledger_entries d @
             [debit (next_uuid d + 1) (now d), credit (next_uuid d + 2) (now d)]\<rparr>)))"

definition record_payment_settled :: "uuid \<Rightarrow> int \<Rightarrow> ('p, uuid) prog" where
  "record_payment_settled payment_id amount_minor =
     execute_checked (add_pair (\<lambda>txn. build_payment_settled_pair txn payment_id amount_minor) amount_minor)"

definition record_refund_settled :: "uuid \<Rightarrow> int \<Rightarrow> ('p, uuid) prog" where
  "record_refund_settled payment_id amount_minor =
     execute_checked (add_pair (\<lambda>txn. build_refund_settled_pair txn payment_id amount_minor) amount_minor)"

section \<open>invariants.py\<close>

definition sum_by_direction :: "direction \<Rightarrow> uuid option \<Rightarrow> db \<Rightarrow> int" where
  "sum_by_direction dir txn d =
     select_sum le_amount_minor
       (\<lambda>e. le_direction e = dir \<and> (case txn of None \<Rightarrow> True | Some t \<Rightarrow> le_ledger_transaction_id e = t))
       (ledger_entries d)"

definition ledger_transaction_is_balanced :: "uuid \<Rightarrow> db \<Rightarrow> bool" where
  "ledger_transaction_is_balanced txn d \<longleftrightarrow>
     sum_by_direction DEBIT (Some txn) d = sum_by_direction CREDIT (Some txn) d"

definition global_ledger_balance :: "db \<Rightarrow> int \<times> int" where
  "global_ledger_balance d = (sum_by_direction DEBIT None d, sum_by_direction CREDIT None d)"

text \<open>\<open>GROUP BY ledger_transaction_id HAVING sum(debit) != sum(credit)\<close>: one row per group.\<close>

definition find_unbalanced_ledger_transactions :: "db \<Rightarrow> uuid list" where
  "find_unbalanced_ledger_transactions d =
     filter (\<lambda>t.
         select_sum (\<lambda>e. if le_direction e = DEBIT then le_amount_minor e else 0)
           (\<lambda>e. le_ledger_transaction_id e = t) (ledger_entries d) \<noteq>
         select_sum (\<lambda>e. if le_direction e = CREDIT then le_amount_minor e else 0)
           (\<lambda>e. le_ledger_transaction_id e = t) (ledger_entries d))
       (remdups (map le_ledger_transaction_id (ledger_entries d)))"

section \<open>Balance\<close>

text \<open>What an account is owed or owes: debits less credits.\<close>

definition account_balance :: "string \<Rightarrow> uuid \<Rightarrow> db \<Rightarrow> int" where
  "account_balance account payment_id d =
     select_sum le_amount_minor (\<lambda>e. le_account e = account \<and> le_payment_intent_id e = payment_id \<and>
         le_direction e = DEBIT) (ledger_entries d) -
     select_sum le_amount_minor (\<lambda>e. le_account e = account \<and> le_payment_intent_id e = payment_id \<and>
         le_direction e = CREDIT) (ledger_entries d)"

definition ledger_balanced :: "db \<Rightarrow> bool" where
  "ledger_balanced d \<longleftrightarrow> (\<forall>txn. ledger_transaction_is_balanced txn d)"

text \<open>A pair is balanced when both halves carry the transaction's id and one amount, the first
  as a debit and the second as a credit.\<close>

definition balanced_pair :: "(uuid \<Rightarrow> entry_pair) \<Rightarrow> bool" where
  "balanced_pair build \<longleftrightarrow>
     (\<forall>txn i j t t'. case build txn of (dr, cr) \<Rightarrow>
        le_direction (dr i t) = DEBIT \<and> le_direction (cr j t') = CREDIT \<and>
        le_ledger_transaction_id (dr i t) = txn \<and> le_ledger_transaction_id (cr j t') = txn \<and>
        le_amount_minor (dr i t) = le_amount_minor (cr j t'))"

lemma payment_pair_balanced: "balanced_pair (\<lambda>txn. build_payment_settled_pair txn p a)"
  by (simp add: balanced_pair_def build_payment_settled_pair_def entry_def)

lemma refund_pair_balanced: "balanced_pair (\<lambda>txn. build_refund_settled_pair txn p a)"
  by (simp add: balanced_pair_def build_refund_settled_pair_def entry_def)

lemma add_pair_ledger:
  "add_pair build a d = Inr (txn, d') \<Longrightarrow>
     (case build txn of (dr, cr) \<Rightarrow>
        ledger_entries d' = ledger_entries d @ [dr (next_uuid d + 1) (now d), cr (next_uuid d + 2) (now d)])"
  by (auto simp: add_pair_def Let_def split: if_splits prod.splits)

lemma add_pair_balanced:
  assumes "balanced_pair build" and "ledger_balanced d" and "add_pair build a d = Inr (x, d')"
  shows "ledger_balanced d'"
proof -
  obtain dr cr where b: "build x = (dr, cr)" by (cases "build x")
  from assms(1) b have "le_amount_minor (dr i t) = le_amount_minor (cr j t')"
    and "le_direction (dr i t) = DEBIT" and "le_direction (cr i t) = CREDIT"
    and "le_ledger_transaction_id (dr i t) = x" and "le_ledger_transaction_id (cr i t) = x" for i j t t'
    unfolding balanced_pair_def by (metis (mono_tags, lifting) case_prod_conv)+
  with add_pair_ledger [OF assms(3)] b assms(2) show ?thesis
    by (simp add: ledger_balanced_def ledger_transaction_is_balanced_def sum_by_direction_def)
qed

lemma keeps_record_payment_settled [keeps_rules]:
  "keeps (stored ledger_balanced) (record_payment_settled p a)"
  unfolding record_payment_settled_def
  by (rule keeps_stored_execute_checked) (rule add_pair_balanced [OF payment_pair_balanced])

lemma keeps_record_refund_settled [keeps_rules]:
  "keeps (stored ledger_balanced) (record_refund_settled p a)"
  unfolding record_refund_settled_def
  by (rule keeps_stored_execute_checked) (rule add_pair_balanced [OF refund_pair_balanced])

section \<open>The audits agree\<close>

lemma select_sum_if:
  "select_sum (\<lambda>e. if q e then f e else 0) p rows = select_sum f (\<lambda>e. q e \<and> p e) rows"
  by (induction rows) auto

lemma find_unbalanced_iff:
  "t \<in> set (find_unbalanced_ledger_transactions d) \<longleftrightarrow> \<not> ledger_transaction_is_balanced t d"
proof -
  have "sum_by_direction dir (Some t) d = 0"
    if "t \<notin> le_ledger_transaction_id ` set (ledger_entries d)" for dir
    using that unfolding sum_by_direction_def by (intro select_sum_none) auto
  then have "\<not> ledger_transaction_is_balanced t d \<Longrightarrow> t \<in> le_ledger_transaction_id ` set (ledger_entries d)"
    unfolding ledger_transaction_is_balanced_def by metis
  then show ?thesis
    by (auto simp: find_unbalanced_ledger_transactions_def ledger_transaction_is_balanced_def
        sum_by_direction_def select_sum_if)
qed

text \<open>Summing the transactions one by one, the whole table balances too.\<close>

lemma select_sum_group:
  "finite T \<Longrightarrow> (\<And>e. e \<in> set rows \<Longrightarrow> g e \<in> T) \<Longrightarrow>
     select_sum f p rows = (\<Sum>t \<in> T. select_sum f (\<lambda>e. p e \<and> g e = t) rows)"
proof (induction rows)
  case (Cons e rows)
  then have "(\<Sum>t \<in> T. if p e \<and> g e = t then f e else 0) = (if p e then f e else 0)"
    by (cases "p e") simp_all
  with Cons show ?case by (simp add: sum.distrib)
qed simp

lemma balanced_globally:
  assumes "ledger_balanced d"
  shows "fst (global_ledger_balance d) = snd (global_ledger_balance d)"
proof -
  let ?T = "le_ledger_transaction_id ` set (ledger_entries d)"
  have "sum_by_direction dir None d = (\<Sum>t \<in> ?T. sum_by_direction dir (Some t) d)" for dir
    unfolding sum_by_direction_def
    by (subst select_sum_group [where T = ?T and g = le_ledger_transaction_id]) simp_all
  with assms show ?thesis
    by (simp add: global_ledger_balance_def ledger_balanced_def ledger_transaction_is_balanced_def)
qed

end
