(* ===== verification/Risk.thy ===== *)
theory Risk
  imports Database
begin

text \<open>
  The rule-based risk engine (\<open>packages/risk/service.py\<close>): five signals, each a threshold check
  on the request or on the merchant's recent rows, a score that adds the weights of those that
  fired, and the banding of scores into levels. The lemmas relate the level to the score, bound
  the score, and say which combinations of signals block a payment.
\<close>

section \<open>Thresholds\<close>

definition VELOCITY_WINDOW :: int where "VELOCITY_WINDOW = seconds (5 * 60)"
definition VELOCITY_THRESHOLD :: nat where "VELOCITY_THRESHOLD = 5"
definition REPEATED_FAILURE_THRESHOLD :: nat where "REPEATED_FAILURE_THRESHOLD = 3"
definition LARGE_AMOUNT_THRESHOLD_MINOR :: int where "LARGE_AMOUNT_THRESHOLD_MINOR = 500000"
definition VERY_LARGE_AMOUNT_THRESHOLD_MINOR :: int where "VERY_LARGE_AMOUNT_THRESHOLD_MINOR = 2000000"
definition HIGH_RISK_IP_PREFIXES :: "string list" where
  "HIGH_RISK_IP_PREFIXES = [''198.51.100.'', ''203.0.113.'']"
definition BLOCK_THRESHOLD :: int where "BLOCK_THRESHOLD = 100"
definition HIGH_THRESHOLD :: int where "HIGH_THRESHOLD = 60"
definition MEDIUM_THRESHOLD :: int where "MEDIUM_THRESHOLD = 30"

lemmas risk_constants = VELOCITY_THRESHOLD_def REPEATED_FAILURE_THRESHOLD_def
  LARGE_AMOUNT_THRESHOLD_MINOR_def VERY_LARGE_AMOUNT_THRESHOLD_MINOR_def BLOCK_THRESHOLD_def
  HIGH_THRESHOLD_def MEDIUM_THRESHOLD_def

datatype risk_level = LOW | MEDIUM | HIGH | BLOCK

fun risk_level_value :: "risk_level \<Rightarrow> string" where
  "risk_level_value LOW = ''LOW''"
| "risk_level_value MEDIUM = ''MEDIUM''"
| "risk_level_value HIGH = ''HIGH''"
| "risk_level_value BLOCK = ''BLOCK''"

record risk_signal =
  sig_name :: string
  sig_weight :: int
  sig_description :: string

record risk_assessment =
  ra_level :: risk_level
  ra_score :: int
  ra_signals :: "risk_signal list"

definition as_dict :: "risk_assessment \<Rightarrow> (string \<times> json) list" where
  "as_dict a =
     [(''level'', JStr (risk_level_value (ra_level a))), (''score'', JInt (ra_score a)),
      (''signals'', JArr (map (\<lambda>s. JObj [(''name'', JStr (sig_name s)), (''weight'', JInt (sig_weight s)),
          (''description'', JStr (sig_description s))]) (ra_signals a)))]"

definition level_for_score :: "int \<Rightarrow> risk_level" where
  "level_for_score score =
     (if score \<ge> BLOCK_THRESHOLD then BLOCK
      else if score \<ge> HIGH_THRESHOLD then HIGH
      else if score \<ge> MEDIUM_THRESHOLD then MEDIUM
      else LOW)"

section \<open>Signals\<close>

definition amount_signal :: "int \<Rightarrow> risk_signal option" where
  "amount_signal amount_minor =
     (if amount_minor \<ge> VERY_LARGE_AMOUNT_THRESHOLD_MINOR then
        Some \<lparr>sig_name = ''VERY_LARGE_AMOUNT'', sig_weight = 50,
              sig_description = ''amount_minor '' @ int_str amount_minor @ '' >= '' @
                int_str VERY_LARGE_AMOUNT_THRESHOLD_MINOR\<rparr>
      else if amount_minor \<ge> LARGE_AMOUNT_THRESHOLD_MINOR then
        Some \<lparr>sig_name = ''LARGE_AMOUNT'', sig_weight = 20,
              sig_description = ''amount_minor '' @ int_str amount_minor @ '' >= '' @
                int_str LARGE_AMOUNT_THRESHOLD_MINOR\<rparr>
      else None)"

text \<open>An optional text counts as present when it is neither None nor empty.\<close>

definition truthy :: "string option \<Rightarrow> bool" where
  "truthy x \<longleftrightarrow> (case x of None \<Rightarrow> False | Some s \<Rightarrow> s \<noteq> [])"

definition country_mismatch_signal :: "string option \<Rightarrow> string option \<Rightarrow> risk_signal option" where
  "country_mismatch_signal billing shipping =
     (if truthy billing \<and> truthy shipping \<and> billing \<noteq> shipping then
        Some \<lparr>sig_name = ''BILLING_SHIPPING_COUNTRY_MISMATCH'', sig_weight = 25,
              sig_description = ''billing_country='' @ the billing @ '' != shipping_country='' @ the shipping\<rparr>
      else None)"

definition starts_with :: "string \<Rightarrow> string \<Rightarrow> bool" where
  "starts_with s p \<longleftrightarrow> take (length p) s = p"

definition high_risk_ip_signal :: "string option \<Rightarrow> risk_signal option" where
  "high_risk_ip_signal ip =
     (if truthy ip \<and> list_ex (starts_with (the ip)) HIGH_RISK_IP_PREFIXES then
        Some \<lparr>sig_name = ''HIGH_RISK_IP'', sig_weight = 35,
              sig_description = ''customer_ip '' @ the ip @ '' matches a known high-risk range''\<rparr>
      else None)"

definition velocity_count :: "uuid \<Rightarrow> db \<Rightarrow> nat" where
  "velocity_count merchant_id d =
     select_count (\<lambda>p. pi_merchant_id p = merchant_id \<and> pi_created_at p \<ge> now d - VELOCITY_WINDOW)
       (payment_intents d)"

text \<open>\<open>0:05:00\<close> is how Python prints the five-minute window.\<close>

definition velocity_signal :: "uuid \<Rightarrow> db \<Rightarrow> risk_signal option" where
  "velocity_signal merchant_id d =
     (let count = velocity_count merchant_id d in
      if count \<ge> VELOCITY_THRESHOLD then
        Some \<lparr>sig_name = ''HIGH_VELOCITY'', sig_weight = 30,
              sig_description = nat_str count @ '' payments created by this merchant in the last 0:05:00''\<rparr>
      else None)"

text \<open>The join of payment_attempts with payment_intents: a pair of rows per matching attempt.\<close>

definition declined_count :: "uuid \<Rightarrow> db \<Rightarrow> nat" where
  "declined_count merchant_id d =
     length (filter (\<lambda>(a, p). pi_merchant_id p = merchant_id \<and> pa_status a = PO_DECLINED \<and>
                pa_created_at a \<ge> now d - VELOCITY_WINDOW)
       (concat (map (\<lambda>a. map (Pair a) (filter (\<lambda>p. pa_payment_intent_id a = pi_id p) (payment_intents d)))
          (payment_attempts d))))"

definition repeated_failures_signal :: "uuid \<Rightarrow> db \<Rightarrow> risk_signal option" where
  "repeated_failures_signal merchant_id d =
     (let count = declined_count merchant_id d in
      if count \<ge> REPEATED_FAILURE_THRESHOLD then
        Some \<lparr>sig_name = ''REPEATED_FAILURES'', sig_weight = 40,
              sig_description = nat_str count @
                '' declined attempts by this merchant in the last 0:05:00 (possible card testing)''\<rparr>
      else None)"

definition assess_payment_risk ::
    "uuid \<Rightarrow> int \<Rightarrow> string option \<Rightarrow> string option \<Rightarrow> string option \<Rightarrow> db \<Rightarrow> risk_assessment" where
  "assess_payment_risk merchant_id amount_minor billing shipping ip d =
     (let signals = List.map_filter id
            [amount_signal amount_minor, country_mismatch_signal billing shipping,
             high_risk_ip_signal ip, velocity_signal merchant_id d, repeated_failures_signal merchant_id d];
          score = sum_list (map sig_weight signals)
      in \<lparr>ra_level = level_for_score score, ra_score = score, ra_signals = signals\<rparr>)"

section \<open>Scores and levels\<close>

definition signal_weight :: "risk_signal option \<Rightarrow> int" where
  "signal_weight s = (case s of None \<Rightarrow> 0 | Some x \<Rightarrow> sig_weight x)"

lemma sum_weights_map_filter:
  "sum_list (map sig_weight (List.map_filter id xs)) = sum_list (map signal_weight xs)"
  by (induction xs) (auto simp: List.map_filter_simps signal_weight_def split: option.splits)

lemma score_eq:
  "ra_score (assess_payment_risk m a b sh ip d) =
     signal_weight (amount_signal a) + signal_weight (country_mismatch_signal b sh) +
     signal_weight (high_risk_ip_signal ip) + signal_weight (velocity_signal m d) +
     signal_weight (repeated_failures_signal m d)"
  by (simp add: assess_payment_risk_def Let_def sum_weights_map_filter del: List.map_filter_simps)

lemma level_eq: "ra_level (assess_payment_risk m a b sh ip d) =
    level_for_score (ra_score (assess_payment_risk m a b sh ip d))"
  by (simp add: assess_payment_risk_def Let_def)

lemma weight_cases:
  "signal_weight (amount_signal a) = (if a \<ge> 2000000 then 50 else if a \<ge> 500000 then 20 else 0)"
  "signal_weight (country_mismatch_signal b sh) = (if truthy b \<and> truthy sh \<and> b \<noteq> sh then 25 else 0)"
  "signal_weight (high_risk_ip_signal ip) =
     (if truthy ip \<and> list_ex (starts_with (the ip)) HIGH_RISK_IP_PREFIXES then 35 else 0)"
  "signal_weight (velocity_signal m d) = (if velocity_count m d \<ge> 5 then 30 else 0)"
  "signal_weight (repeated_failures_signal m d) = (if declined_count m d \<ge> 3 then 40 else 0)"
  by (simp_all add: signal_weight_def amount_signal_def country_mismatch_signal_def
      high_risk_ip_signal_def velocity_signal_def repeated_failures_signal_def Let_def risk_constants)

lemma score_bounds:
  "0 \<le> ra_score (assess_payment_risk m a b sh ip d) \<and> ra_score (assess_payment_risk m a b sh ip d) \<le> 180"
  by (simp add: score_eq weight_cases)

lemma level_for_score_block: "level_for_score s = BLOCK \<longleftrightarrow> s \<ge> 100"
  by (simp add: level_for_score_def risk_constants)

section \<open>Properties\<close>

text \<open>The score is the sum of five independent weights, lies between 0 and 180, and the level is
  the step function of the score the thresholds describe.\<close>

theorem risk_score_and_level:
  "ra_score (assess_payment_risk m a b sh ip d) =
     (if a \<ge> 2000000 then 50 else if a \<ge> 500000 then 20 else 0) +
     (if truthy b \<and> truthy sh \<and> b \<noteq> sh then 25 else 0) +
     (if truthy ip \<and> list_ex (starts_with (the ip)) HIGH_RISK_IP_PREFIXES then 35 else 0) +
     (if velocity_count m d \<ge> 5 then 30 else 0) + (if declined_count m d \<ge> 3 then 40 else 0) \<and>
   0 \<le> ra_score (assess_payment_risk m a b sh ip d) \<and> ra_score (assess_payment_risk m a b sh ip d) \<le> 180 \<and>
   ra_level (assess_payment_risk m a b sh ip d) =
     (if ra_score (assess_payment_risk m a b sh ip d) \<ge> 100 then BLOCK
      else if ra_score (assess_payment_risk m a b sh ip d) \<ge> 60 then HIGH
      else if ra_score (assess_payment_risk m a b sh ip d) \<ge> 30 then MEDIUM else LOW)"
  using score_bounds [of m a b sh ip d]
  by (simp add: level_eq level_for_score_def risk_constants) (simp add: score_eq weight_cases)

text \<open>A merchant's history alone never blocks a payment: unless a signal of the request itself
  fires (amount, countries, address), velocity and earlier declines stay below the threshold.\<close>

theorem history_never_blocks_alone:
  assumes "a < 500000" and "\<not> (truthy b \<and> truthy sh \<and> b \<noteq> sh)"
    and "\<not> (truthy ip \<and> list_ex (starts_with (the ip)) HIGH_RISK_IP_PREFIXES)"
  shows "ra_level (assess_payment_risk m a b sh ip d) \<noteq> BLOCK"
  using assms by (auto simp: level_eq level_for_score_block score_eq weight_cases)

theorem history_never_blocks_alone_witness:
  "ra_level (assess_payment_risk 7 100 (Some ''US'') (Some ''US'') None (empty_db 0)) \<noteq> BLOCK"
  by (rule history_never_blocks_alone) (simp_all add: truthy_def)

end
