(* ===== verification/Payments.thy ===== *)
theory Payments
  imports Idempotency Ledger Risk
begin

text \<open>
  The mutating half of \<open>packages/payments/service.py\<close>: row locking, the audited state transition,
  and the three money-moving services \<open>create_payment\<close>, \<open>capture_payment\<close> and
  \<open>refund_payment\<close>, cut at the commits the source makes, so that each piece is one transaction
  or one provider call.
\<close>

section \<open>Serialisation\<close>

type_synonym response = "int option \<times> json option"

definition serialize_payment :: "payment_intent \<Rightarrow> (string \<times> json) list" where
  "serialize_payment intent =
     [(''id'', JStr (uuid_str (pi_id intent))),
      (''status'', JStr (payment_status_value (pi_status intent))),
      (''amount'', JInt (pi_amount_minor intent)),
      (''currency'', JStr (pi_currency intent)),
      (''merchant_reference'', opt_str (pi_merchant_reference intent)),
      (''created_at'', JTime (pi_created_at intent)),
      (''updated_at'', JTime (pi_updated_at intent))]"

definition serialize_refund :: "refund \<Rightarrow> (string \<times> json) list" where
  "serialize_refund r =
     [(''id'', JStr (uuid_str (rf_id r))),
      (''payment_id'', JStr (uuid_str (rf_payment_intent_id r))),
      (''amount'', JInt (rf_amount_minor r)),
      (''status'', JStr (refund_status_value (rf_status r))),
      (''created_at'', JTime (rf_created_at r))]"

section \<open>Locking and transitions\<close>

text \<open>
  What the session makes of a selected payment row: an object it already holds is returned as
  it is in memory, and only its expired attributes are refreshed, which after an UPDATE is the
  server-computed \<open>updated_at\<close>.
\<close>

definition materialise :: "payment_intent \<Rightarrow> ('p, payment_intent) prog" where
  "materialise row s =
     (let obj = (case identity_map s (pi_id row) of
                   None \<Rightarrow> row
                 | Some held \<Rightarrow> held\<lparr>pi_updated_at := pi_updated_at row\<rparr>)
      in (Inr obj, s\<lparr>identity_map := (identity_map s)(pi_id row \<mapsto> obj)\<rparr>))"

definition find_payment :: "uuid \<Rightarrow> uuid \<Rightarrow> db \<Rightarrow> payment_intent option" where
  "find_payment payment_id merchant_id d =
     select_one (\<lambda>p. pi_id p = payment_id \<and> pi_merchant_id p = merchant_id) (payment_intents d)"

text \<open>\<open>SELECT \<dots> FOR UPDATE\<close>: the row is found and locked in the database.\<close>

definition lock_payment :: "uuid \<Rightarrow> uuid \<Rightarrow> ('p, payment_intent option) prog" where
  "lock_payment payment_id merchant_id =
     bnd (query (find_payment payment_id merchant_id)) (\<lambda>row.
     case row of
       None \<Rightarrow> ret None
     | Some r \<Rightarrow> bnd (materialise r) (\<lambda>obj. ret (Some obj)))"

text \<open>The UPDATE for a changed payment object sets the attributes whose value changed.\<close>

definition write_transition ::
    "uuid \<Rightarrow> payment_status \<Rightarrow> payment_status \<Rightarrow> int \<Rightarrow> db \<Rightarrow> db" where
  "write_transition payment_id from_status tgt version d =
     d\<lparr>payment_intents := update_where (\<lambda>p. pi_id p = payment_id)
         (\<lambda>p. p\<lparr>pi_status := (if tgt \<noteq> from_status then tgt else pi_status p),
                pi_version := version, pi_updated_at := now d\<rparr>)
         (payment_intents d)\<rparr>"

definition remember :: "payment_intent \<Rightarrow> ('p, unit) prog" where
  "remember intent s = (Inr (), s\<lparr>identity_map := (identity_map s)(pi_id intent \<mapsto> intent)\<rparr>)"

text \<open>The rows one transition writes: the payment, its event, its outbox event.\<close>

definition transition_rows ::
    "uuid \<Rightarrow> payment_status \<Rightarrow> payment_status \<Rightarrow> int \<Rightarrow> actor \<Rightarrow> string \<Rightarrow> db \<Rightarrow> db" where
  "transition_rows payment_id from_status tgt version act outbox_event_type d =
     insert_outbox_event ''payment_intent'' payment_id outbox_event_type
       [(''payment_id'', JStr (uuid_str payment_id)), (''status'', JStr (payment_status_value tgt))]
       (insert_payment_event payment_id (Some from_status) tgt act
         (write_transition payment_id from_status tgt version d))"

text \<open>The object is changed in place; the changed object is the result.\<close>

definition apply_transition ::
    "payment_intent \<Rightarrow> payment_status \<Rightarrow> actor \<Rightarrow> string \<Rightarrow> ('p, payment_intent) prog" where
  "apply_transition intent tgt act outbox_event_type =
     (let from_status = pi_status intent;
          intent' = intent\<lparr>pi_status := tgt, pi_version := pi_version intent + 1\<rparr>
      in bnd (lift_result (validate_payment_transition from_status tgt (Some act))) (\<lambda>_.
         andthen (remember intent')
         (andthen (execute (transition_rows (pi_id intent) from_status tgt (pi_version intent') act
                     outbox_event_type))
         (ret intent'))))"

text \<open>The newest attempt of the payment that succeeded and has a provider transaction.\<close>

definition latest_successful_provider_transaction :: "uuid \<Rightarrow> db \<Rightarrow> provider_transaction option" where
  "latest_successful_provider_transaction payment_id d =
     (case sort_key (\<lambda>(t, a). - pa_attempt_number a)
             (filter (\<lambda>(t, a). pa_payment_intent_id a = payment_id \<and> pa_status a = PO_SUCCEEDED)
               (concat (map (\<lambda>t. map (Pair t) (filter (\<lambda>a. pt_payment_attempt_id t = pa_id a) (payment_attempts d)))
                  (provider_transactions d)))) of
        [] \<Rightarrow> None
      | (t, _) # _ \<Rightarrow> Some t)"

section \<open>The idempotency frame around a service\<close>

definition find_key_row :: "uuid \<Rightarrow> db \<Rightarrow> idempotency_key option" where
  "find_key_row key_row_id d = select_one (\<lambda>r. ik_id r = key_row_id) (idempotency_keys d)"

definition fail_claim_and_raise :: "uuid \<Rightarrow> exn \<Rightarrow> ('p, 'a) prog" where
  "fail_claim_and_raise key_row_id exc =
     andthen rollback
     (bnd (query (find_key_row key_row_id)) (\<lambda>kr.
      case kr of
        None \<Rightarrow> raise exc
      | Some r \<Rightarrow>
          if ik_status r = IK_PENDING
          then andthen (fail_idempotency_key key_row_id) (andthen commit (raise exc))
          else raise exc))"

text \<open>The three early returns each service makes on the outcome of its claim.\<close>

definition on_claim :: "claim_result \<Rightarrow> (uuid \<Rightarrow> ('p, response) prog) \<Rightarrow> ('p, response) prog" where
  "on_claim claim body =
     (if outcome claim = CONFLICT then
        andthen commit (raise (PayGuardError ''IDEMPOTENCY_KEY_REUSED''
          ''This idempotency key was previously used with a different request.''))
      else if outcome claim = IN_PROGRESS then
        andthen commit (raise (PayGuardError ''REQUEST_IN_PROGRESS''
          ''A request with this idempotency key is already being processed.''))
      else if outcome claim = REPLAY then
        andthen commit (ret (ik_response_status (key_row claim), ik_response_body (key_row claim)))
      else
        (let key_row_id = ik_id (key_row claim)
         in try_except (body key_row_id) (fail_claim_and_raise key_row_id)))"

text \<open>The end of each service: complete the claim with the response, commit, answer.\<close>

definition respond ::
    "uuid \<Rightarrow> uuid \<Rightarrow> uuid option \<Rightarrow> int \<Rightarrow> json \<Rightarrow> ('p, response) prog" where
  "respond key_row_id payment_id refund_id response_status response_body =
     bnd (query (find_key_row key_row_id)) (\<lambda>kr.
     andthen (assert_that (kr \<noteq> None))
     (andthen (complete_idempotency_key key_row_id (Some payment_id) response_status response_body refund_id)
     (andthen commit
     (ret (Some response_status, Some response_body)))))"

text \<open>\<open>intent = await lock_payment(\<dots>); assert intent is not None\<close>.\<close>

definition relock :: "uuid \<Rightarrow> uuid \<Rightarrow> ('p, payment_intent) prog" where
  "relock payment_id merchant_id =
     bnd (lock_payment payment_id merchant_id) (\<lambda>i.
     case i of None \<Rightarrow> raise AssertionError | Some intent \<Rightarrow> ret intent)"

section \<open>Creating a payment\<close>

record payment_request =
  rq_merchant_id :: uuid
  rq_idempotency_key :: string
  rq_raw_body :: string
  rq_amount_minor :: int
  rq_currency :: string
  rq_merchant_reference :: "string option"
  rq_payment_token :: string
  rq_billing_country :: "string option"
  rq_shipping_country :: "string option"
  rq_customer_ip :: "string option"

fun failure_classification_of :: "provider_outcome \<Rightarrow> failure_classification option" where
  "failure_classification_of PO_DECLINED = Some PERMANENT"
| "failure_classification_of PO_TEMPORARY_FAILURE = Some TRANSIENT"
| "failure_classification_of PO_UNKNOWN = Some FC_UNKNOWN"
| "failure_classification_of PO_SUCCEEDED = None"

text \<open>First transaction: the intent, its CREATED event and outbox event, with the claim.\<close>

definition created_rows :: "payment_request \<Rightarrow> db \<Rightarrow> exn + (payment_intent \<times> db)" where
  "created_rows rq d =
     (case insert_payment_intent (rq_merchant_id rq) (rq_amount_minor rq) (rq_currency rq)
             (rq_merchant_reference rq) d of
        Inl e \<Rightarrow> Inl e
      | Inr (intent, d1) \<Rightarrow>
          Inr (intent,
            insert_outbox_event ''payment_intent'' (pi_id intent) ''payment.created''
              [(''payment_id'', JStr (uuid_str (pi_id intent)))]
              (insert_payment_event (pi_id intent) None CREATED API d1)))"

definition create_intent :: "payment_request \<Rightarrow> ('p, payment_intent) prog" where
  "create_intent rq =
     bnd (execute_checked (created_rows rq)) (\<lambda>intent.
     andthen (remember intent)
     (andthen commit
     (ret intent)))"

text \<open>Second transaction: the payment goes to PROCESSING.\<close>

definition start_processing :: "uuid \<Rightarrow> uuid \<Rightarrow> ('p, payment_intent) prog" where
  "start_processing payment_id merchant_id =
     bnd (relock payment_id merchant_id) (\<lambda>intent.
     bnd (apply_transition intent PROCESSING API ''payment.processing'') (\<lambda>intent.
     andthen commit
     (ret intent)))"

text \<open>Third transaction: the assessment and its audit record.\<close>

definition assess_and_audit :: "payment_request \<Rightarrow> uuid \<Rightarrow> ('p, risk_assessment) prog" where
  "assess_and_audit rq payment_id =
     bnd (query (assess_payment_risk (rq_merchant_id rq) (rq_amount_minor rq) (rq_billing_country rq)
            (rq_shipping_country rq) (rq_customer_ip rq))) (\<lambda>assessment.
     andthen (execute (insert_audit_log (Some (rq_merchant_id rq)) ''RISK_ENGINE'' ''payment.risk_assessed''
                ((''payment_id'', JStr (uuid_str payment_id)) # as_dict assessment)))
     (andthen commit
     (ret assessment)))"

text \<open>Last transaction of a blocked payment.\<close>

definition block_payment :: "uuid \<Rightarrow> uuid \<Rightarrow> uuid \<Rightarrow> ('p, response) prog" where
  "block_payment payment_id merchant_id key_row_id =
     bnd (relock payment_id merchant_id) (\<lambda>intent.
     bnd (apply_transition intent FAILED API ''payment.blocked'') (\<lambda>intent.
     andthen (inc ''payment_failure_total:blocked'')
     (respond key_row_id (pi_id intent) None 201 (JObj (serialize_payment intent)))))"

definition attempt_count_of :: "uuid \<Rightarrow> db \<Rightarrow> nat" where
  "attempt_count_of payment_id d =
     select_count (\<lambda>a. pa_payment_intent_id a = payment_id) (payment_attempts d)"

text \<open>The attempt and, when the provider named a transaction, its provider_transactions row.\<close>

definition record_attempt ::
    "uuid \<Rightarrow> string \<Rightarrow> provider_result \<Rightarrow> failure_classification option \<Rightarrow> ('p, unit) prog" where
  "record_attempt payment_id provider_name result classification =
     bnd (query (attempt_count_of payment_id)) (\<lambda>n.
     bnd (execute_checked (insert_payment_attempt payment_id provider_name (pr_outcome result)
            classification (int n + 1))) (\<lambda>attempt.
     case pr_provider_transaction_id result of
       None \<Rightarrow> ret ()
     | Some ptx \<Rightarrow> execute_checked (insert_provider_transaction (pa_id attempt) provider_name ptx
                     (pr_raw_status result) (pr_raw_response result))))"

text \<open>Last transaction of an authorised, declined or unanswered payment.\<close>

definition record_authorization ::
    "string \<Rightarrow> provider_result \<Rightarrow> uuid \<Rightarrow> uuid \<Rightarrow> uuid \<Rightarrow> ('p, response) prog" where
  "record_authorization provider_name result payment_id merchant_id key_row_id =
     bnd (relock payment_id merchant_id) (\<lambda>intent.
     andthen (record_attempt (pi_id intent) provider_name result (failure_classification_of (pr_outcome result)))
     (bnd (if pr_outcome result = PO_DECLINED then
             bnd (apply_transition intent FAILED API ''payment.failed'') (\<lambda>intent.
             andthen (inc ''payment_failure_total:declined'') (ret intent))
           else if pr_outcome result = PO_UNKNOWN then
             bnd (apply_transition intent UNKNOWN API ''payment.unknown'') (\<lambda>intent.
             andthen (inc ''provider_timeout_total'') (ret intent))
           else andthen (inc ''payment_success_total'') (ret intent)) (\<lambda>intent.
     respond key_row_id (pi_id intent) None 201 (JObj (serialize_payment intent)))))"

definition create_payment_claimed ::
    "'p provider \<Rightarrow> payment_request \<Rightarrow> uuid \<Rightarrow> ('p, response) prog" where
  "create_payment_claimed provider rq key_row_id =
     bnd (create_intent rq) (\<lambda>intent.
     bnd (start_processing (pi_id intent) (rq_merchant_id rq)) (\<lambda>intent.
     bnd (assess_and_audit rq (pi_id intent)) (\<lambda>assessment.
     if ra_level assessment = BLOCK
     then block_payment (pi_id intent) (rq_merchant_id rq) key_row_id
     else
       bnd (call_provider (prov_authorize provider
              \<lparr>ar_amount_minor = rq_amount_minor rq, ar_currency = rq_currency rq,
               ar_token = rq_payment_token rq, ar_idempotency_key = rq_idempotency_key rq\<rparr>)) (\<lambda>result.
       record_authorization (prov_name provider) result (pi_id intent) (rq_merchant_id rq) key_row_id))))"

definition create_payment ::
    "(string \<Rightarrow> string) \<Rightarrow> 'p provider \<Rightarrow> payment_request \<Rightarrow> ('p, response) prog" where
  "create_payment sha256hex provider rq =
     andthen (inc ''payment_requests_total'')
     (bnd (claim_idempotency_key [] (rq_merchant_id rq) (rq_idempotency_key rq)
            (compute_fingerprint sha256hex ''POST'' ''/v1/payments'' (rq_raw_body rq))
            DEFAULT_STALE_AFTER) (\<lambda>claim.
     on_claim claim (create_payment_claimed provider rq)))"

section \<open>Capturing a payment\<close>

definition payment_not_found :: "uuid \<Rightarrow> exn" where
  "payment_not_found payment_id =
     PayGuardError ''PAYMENT_NOT_FOUND'' (''No payment found with id '' @ uuid_str payment_id @ ''.'')"

definition capture_locked :: "'p provider \<Rightarrow> payment_intent \<Rightarrow> ('p, payment_intent) prog" where
  "capture_locked provider intent =
     (if pi_status intent = SUCCEEDED then ret intent
      else if pi_status intent \<noteq> PROCESSING then
        raise (PayGuardError ''INVALID_STATE_TRANSITION''
          (''Cannot capture a payment in status '' @ payment_status_value (pi_status intent) @ ''.''))
      else
        bnd (query (latest_successful_provider_transaction (pi_id intent))) (\<lambda>txn.
        case txn of
          None \<Rightarrow> raise (PayGuardError ''INVALID_STATE_TRANSITION''
                    ''This payment has no successful authorization to capture.'')
        | Some t \<Rightarrow>
            bnd (call_provider (prov_capture provider (pt_provider_transaction_id t)
                   (pi_amount_minor intent))) (\<lambda>result.
            if pr_outcome result = PO_SUCCEEDED then
              bnd (apply_transition intent SUCCEEDED API ''payment.succeeded'') (\<lambda>intent.
              andthen (record_payment_settled (pi_id intent) (pi_amount_minor intent))
              (ret intent))
            else if pr_outcome result = PO_UNKNOWN then
              apply_transition intent UNKNOWN API ''payment.unknown''
            else apply_transition intent FAILED API ''payment.failed'')))"

definition capture_claimed ::
    "'p provider \<Rightarrow> uuid \<Rightarrow> uuid \<Rightarrow> uuid \<Rightarrow> ('p, response) prog" where
  "capture_claimed provider merchant_id payment_id key_row_id =
     bnd (lock_payment payment_id merchant_id) (\<lambda>i.
     case i of
       None \<Rightarrow> raise (payment_not_found payment_id)
     | Some intent \<Rightarrow>
         bnd (capture_locked provider intent) (\<lambda>intent.
         respond key_row_id (pi_id intent) None 200 (JObj (serialize_payment intent))))"

definition capture_payment ::
    "(string \<Rightarrow> string) \<Rightarrow> 'p provider \<Rightarrow> uuid \<Rightarrow> uuid \<Rightarrow> string \<Rightarrow> string \<Rightarrow> ('p, response) prog" where
  "capture_payment sha256hex provider merchant_id payment_id idempotency_key raw_body =
     bnd (claim_idempotency_key [] merchant_id idempotency_key
            (compute_fingerprint sha256hex ''POST''
               (''/v1/payments/'' @ uuid_str payment_id @ ''/capture'') raw_body)
            DEFAULT_STALE_AFTER) (\<lambda>claim.
     on_claim claim (capture_claimed provider merchant_id payment_id))"

section \<open>Refunding a payment\<close>

definition REFUNDABLE_SOURCE_STATUSES :: "payment_status set" where
  "REFUNDABLE_SOURCE_STATUSES = {SUCCEEDED, REFUND_FAILED, REFUND_PENDING}"

definition reserved_amount :: "uuid \<Rightarrow> db \<Rightarrow> int" where
  "reserved_amount payment_id d =
     select_sum rf_amount_minor
       (\<lambda>r. rf_payment_intent_id r = payment_id \<and> rf_status r \<in> {RF_PENDING, RF_SUCCEEDED}) (refunds d)"

definition refunded_amount :: "uuid \<Rightarrow> db \<Rightarrow> int" where
  "refunded_amount payment_id d =
     select_sum rf_amount_minor
       (\<lambda>r. rf_payment_intent_id r = payment_id \<and> rf_status r = RF_SUCCEEDED) (refunds d)"

definition pending_refunds :: "uuid \<Rightarrow> db \<Rightarrow> nat" where
  "pending_refunds payment_id d =
     select_count (\<lambda>r. rf_payment_intent_id r = payment_id \<and> rf_status r = RF_PENDING) (refunds d)"

text \<open>First transaction: check the balance under the payment's lock and write the reservation.\<close>

definition reserve_locked ::
    "payment_intent \<Rightarrow> int \<Rightarrow> ('p, refund \<times> provider_transaction) prog" where
  "reserve_locked intent amount_minor =
     (if pi_status intent \<notin> REFUNDABLE_SOURCE_STATUSES then
        raise (PayGuardError ''INVALID_STATE_TRANSITION''
          (''Cannot refund a payment in status '' @ payment_status_value (pi_status intent) @ ''.''))
      else
        bnd (query (reserved_amount (pi_id intent))) (\<lambda>reserved.
        let remaining = pi_amount_minor intent - reserved in
        if amount_minor > remaining then
          raise (PayGuardError ''REFUND_EXCEEDS_PAYMENT''
            (''Refund amount '' @ int_str amount_minor @
             '' exceeds the remaining refundable balance '' @ int_str remaining @ ''.''))
        else
          bnd (query (latest_successful_provider_transaction (pi_id intent))) (\<lambda>txn.
          case txn of
            None \<Rightarrow> raise (PayGuardError ''INVALID_STATE_TRANSITION''
                      ''This payment has no successful authorization to refund.'')
          | Some t \<Rightarrow>
              bnd (execute_checked (insert_refund (pi_id intent) amount_minor)) (\<lambda>refund.
              bnd (if pi_status intent \<noteq> REFUND_PENDING
                   then apply_transition intent REFUND_PENDING API ''refund.pending''
                   else ret intent) (\<lambda>_.
              andthen commit
              (ret (refund, t)))))))"

definition reserve_refund ::
    "uuid \<Rightarrow> uuid \<Rightarrow> int \<Rightarrow> ('p, refund \<times> provider_transaction) prog" where
  "reserve_refund merchant_id payment_id amount_minor =
     bnd (lock_payment payment_id merchant_id) (\<lambda>i.
     case i of
       None \<Rightarrow> raise (payment_not_found payment_id)
     | Some intent \<Rightarrow> reserve_locked intent amount_minor)"

text \<open>The payment-level outcome once no refund of the payment is in flight.\<close>

definition settle_payment_status :: "payment_intent \<Rightarrow> ('p, payment_intent) prog" where
  "settle_payment_status intent =
     bnd (query (pending_refunds (pi_id intent))) (\<lambda>still_pending.
     if still_pending = 0 \<and> pi_status intent = REFUND_PENDING then
       bnd (query (refunded_amount (pi_id intent))) (\<lambda>total_refunded.
       if total_refunded \<ge> pi_amount_minor intent then
         apply_transition intent REFUNDED API ''payment.refunded''
       else if total_refunded > 0 then
         apply_transition intent SUCCEEDED API ''payment.partially_refunded''
       else apply_transition intent REFUND_FAILED API ''refund.failed'')
     else ret intent)"

text \<open>The refund row's own settlement, with its ledger pair.\<close>

definition settle_refund_row :: "uuid \<Rightarrow> refund \<Rightarrow> provider_outcome \<Rightarrow> ('p, refund) prog" where
  "settle_refund_row payment_id refund result =
     (let st = (if result = PO_SUCCEEDED then RF_SUCCEEDED else RF_FAILED);
          refund' = refund\<lparr>rf_status := st\<rparr>
      in andthen (execute (set_refund_status (rf_id refund) st))
         (andthen
           (if st = RF_SUCCEEDED then
              andthen (inc ''refund_total'')
              (andthen (record_refund_settled payment_id (rf_amount_minor refund)) (ret ()))
            else inc ''refund_failures_total'')
         (ret refund')))"

text \<open>Second transaction: the provider has answered.\<close>

definition settle_refund ::
    "uuid \<Rightarrow> uuid \<Rightarrow> refund \<Rightarrow> provider_result \<Rightarrow> uuid \<Rightarrow> ('p, response) prog" where
  "settle_refund merchant_id payment_id refund result key_row_id =
     bnd (relock payment_id merchant_id) (\<lambda>intent.
     bnd (query (\<lambda>d. select_one (\<lambda>r. rf_id r = rf_id refund) (refunds d))) (\<lambda>row.
     andthen (assert_that (row \<noteq> None))
     (bnd (settle_refund_row (pi_id intent) refund (pr_outcome result)) (\<lambda>refund.
     bnd (settle_payment_status intent) (\<lambda>intent.
     respond key_row_id (pi_id intent) (Some (rf_id refund)) 201 (JObj (serialize_refund refund)))))))"

definition refund_claimed ::
    "'p provider \<Rightarrow> uuid \<Rightarrow> uuid \<Rightarrow> string \<Rightarrow> int \<Rightarrow> uuid \<Rightarrow> ('p, response) prog" where
  "refund_claimed provider merchant_id payment_id idempotency_key amount_minor key_row_id =
     bnd (reserve_refund merchant_id payment_id amount_minor) (\<lambda>(refund, txn).
     bnd (call_provider (prov_refund provider (pt_provider_transaction_id txn) amount_minor
            idempotency_key)) (\<lambda>result.
     settle_refund merchant_id payment_id refund result key_row_id))"

definition refund_payment ::
    "(string \<Rightarrow> string) \<Rightarrow> 'p provider \<Rightarrow> uuid \<Rightarrow> uuid \<Rightarrow> string \<Rightarrow> string \<Rightarrow> int \<Rightarrow> ('p, response) prog" where
  "refund_payment sha256hex provider merchant_id payment_id idempotency_key raw_body amount_minor =
     bnd (claim_idempotency_key [] merchant_id idempotency_key
            (compute_fingerprint sha256hex ''POST''
               (''/v1/payments/'' @ uuid_str payment_id @ ''/refunds'') raw_body)
            DEFAULT_STALE_AFTER) (\<lambda>claim.
     on_claim claim (refund_claimed provider merchant_id payment_id idempotency_key amount_minor))"

end
