(* ===== verification/Schema.thy ===== *)
theory Schema
  imports Payments
begin

text \<open>
  What the schema of \<open>packages/database/models.py\<close> promises of the stored rows (primary keys,
  UNIQUE and CHECK constraints, the foreign key of a refund) and that every statement the
  services issue keeps it. \<open>other_tables_only\<close> describes a statement by the tables it leaves alone.
\<close>

section \<open>Well-formed rows\<close>

definition payments_wf :: "payment_intent list \<Rightarrow> uuid \<Rightarrow> bool" where
  "payments_wf ps n \<longleftrightarrow> fresh_ids pi_id ps n \<and>
     (\<forall>p \<in> set ps. 0 < pi_amount_minor p \<and> bigint (pi_amount_minor p) \<and> iso4217_shaped (pi_currency p))"

definition refunds_wf :: "refund list \<Rightarrow> payment_intent list \<Rightarrow> uuid \<Rightarrow> bool" where
  "refunds_wf rs ps n \<longleftrightarrow> fresh_ids rf_id rs n \<and>
     (\<forall>r \<in> set rs. 0 < rf_amount_minor r \<and> bigint (rf_amount_minor r) \<and>
        rf_payment_intent_id r \<in> pi_id ` set ps)"

definition attempts_wf :: "payment_attempt list \<Rightarrow> uuid \<Rightarrow> bool" where
  "attempts_wf as n \<longleftrightarrow> fresh_ids pa_id as n \<and>
     distinct (map (\<lambda>a. (pa_payment_intent_id a, pa_attempt_number a)) as)"

definition transactions_wf :: "provider_transaction list \<Rightarrow> bool" where
  "transactions_wf ts \<longleftrightarrow> distinct (map pt_payment_attempt_id ts) \<and>
     distinct (map (\<lambda>t. (pt_provider_name t, pt_provider_transaction_id t)) ts)"

definition webhooks_wf :: "webhook_event list \<Rightarrow> uuid \<Rightarrow> bool" where
  "webhooks_wf ws n \<longleftrightarrow> fresh_ids wh_id ws n \<and>
     distinct (map (\<lambda>w. (wh_provider_name w, wh_provider_event_id w)) ws)"

definition schema_wf :: "db \<Rightarrow> bool" where
  "schema_wf d \<longleftrightarrow>
     payments_wf (payment_intents d) (next_uuid d) \<and>
     refunds_wf (refunds d) (payment_intents d) (next_uuid d) \<and>
     keys_wf d \<and>
     attempts_wf (payment_attempts d) (next_uuid d) \<and>
     transactions_wf (provider_transactions d) \<and>
     webhooks_wf (webhook_events d) (next_uuid d) \<and>
     fresh_ids ob_id (outbox_events d) (next_uuid d)"

lemma schema_wf_empty: "schema_wf (empty_db t)"
  by (simp add: schema_wf_def payments_wf_def refunds_wf_def keys_wf_def attempts_wf_def
      transactions_wf_def webhooks_wf_def empty_db_def)

section \<open>Statements keep the constraints\<close>

text \<open>Drawing identifiers is harmless.\<close>

lemma schema_wf_mono:
  "payments_wf ps n \<Longrightarrow> n \<le> m \<Longrightarrow> payments_wf ps m"
  "refunds_wf rs ps n \<Longrightarrow> n \<le> m \<Longrightarrow> refunds_wf rs ps m"
  "attempts_wf as n \<Longrightarrow> n \<le> m \<Longrightarrow> attempts_wf as m"
  "webhooks_wf ws n \<Longrightarrow> n \<le> m \<Longrightarrow> webhooks_wf ws m"
  by (auto simp: payments_wf_def refunds_wf_def attempts_wf_def webhooks_wf_def intro: fresh_ids_mono)

text \<open>A statement that writes none of the constrained tables.\<close>

definition other_tables_only :: "db \<Rightarrow> db \<Rightarrow> bool" where
  "other_tables_only d d' \<longleftrightarrow>
     payment_intents d' = payment_intents d \<and> refunds d' = refunds d \<and>
     idempotency_keys d' = idempotency_keys d \<and> payment_attempts d' = payment_attempts d \<and>
     provider_transactions d' = provider_transactions d \<and> webhook_events d' = webhook_events d \<and>
     outbox_events d' = outbox_events d \<and> next_uuid d \<le> next_uuid d'"

lemma schema_wf_other: "schema_wf d \<Longrightarrow> other_tables_only d d' \<Longrightarrow> schema_wf d'"
  unfolding schema_wf_def other_tables_only_def keys_wf_def
  by (auto intro: schema_wf_mono fresh_ids_mono)

lemma other_tables_insert [simp]:
  "other_tables_only d (insert_payment_event p f t a d)"
  "other_tables_only d (insert_audit_log mo x y z d)"
  "add_pair b amt d = Inr (tx, d') \<Longrightarrow> other_tables_only d d'"
  by (auto simp: other_tables_only_def insert_payment_event_def insert_audit_log_def add_pair_def Let_def
      split: if_splits prod.splits)

lemma schema_wf_outbox:
  assumes "schema_wf d"
  shows "schema_wf (insert_outbox_event ty i et pl d)"
proof -
  have "fresh_ids ob_id (outbox_events (insert_outbox_event ty i et pl d)) (Suc (next_uuid d))"
    using assms by (auto simp: schema_wf_def insert_outbox_event_def intro!: fresh_ids_insert)
  with assms show ?thesis
    by (auto simp: schema_wf_def keys_wf_def insert_outbox_event_def intro: schema_wf_mono fresh_ids_mono)
qed

lemma schema_wf_created:
  assumes "schema_wf d" and "created_rows rq d = Inr (i, d')"
  shows "schema_wf d'"
proof -
  from assms(2) obtain d1 where ins: "insert_payment_intent (rq_merchant_id rq) (rq_amount_minor rq)
      (rq_currency rq) (rq_merchant_reference rq) d = Inr (i, d1)"
    and d': "d' = insert_outbox_event ''payment_intent'' (pi_id i) ''payment.created''
              [(''payment_id'', JStr (uuid_str (pi_id i)))] (insert_payment_event (pi_id i) None CREATED API d1)"
    by (auto simp: created_rows_def split: sum.splits prod.splits)
  have d1: "d1 = d\<lparr>next_uuid := Suc (next_uuid d), payment_intents := payment_intents d @ [i]\<rparr>"
    and i: "pi_id i = next_uuid d" "0 < pi_amount_minor i" "bigint (pi_amount_minor i)" "iso4217_shaped (pi_currency i)"
    using ins by (auto simp: insert_payment_intent_def Let_def split: if_splits)
  have "payments_wf (payment_intents d1) (next_uuid d1)"
    using assms(1) i by (auto simp: d1 schema_wf_def payments_wf_def intro!: fresh_ids_insert)
  then have "schema_wf d1"
    using assms(1) unfolding schema_wf_def d1
    by (auto simp: keys_wf_def refunds_wf_def intro: schema_wf_mono fresh_ids_mono)
  then show ?thesis
    unfolding d' by (intro schema_wf_outbox schema_wf_other [OF _ other_tables_insert(1)])
qed

lemma refunds_wf_ids: "pi_id ` set ps' = pi_id ` set ps \<Longrightarrow> refunds_wf rs ps' n = refunds_wf rs ps n"
  by (simp add: refunds_wf_def)

lemma write_transition_ids [simp]:
  "map pi_id (payment_intents (write_transition p f t v d)) = map pi_id (payment_intents d)"
  by (simp add: write_transition_def map_update_where)

lemma schema_wf_write:
  assumes "schema_wf d"
  shows "schema_wf (write_transition p f t v d)"
proof -
  let ?ps = "payment_intents (write_transition p f t v d)"
  have ids: "pi_id ` set ?ps = pi_id ` set (payment_intents d)"
    by (simp only: set_map [symmetric] write_transition_ids)
  have ps: "payments_wf ?ps (next_uuid d)"
    using assms by (auto simp: schema_wf_def write_transition_def payments_wf_def fresh_ids_update set_update_where)
  have rs: "refunds_wf (refunds d) ?ps (next_uuid d)"
    unfolding refunds_wf_ids [OF ids] using assms by (simp add: schema_wf_def)
  show ?thesis
    using assms ps rs unfolding schema_wf_def keys_wf_def by (simp add: write_transition_def)
qed

lemma schema_wf_transition: "schema_wf d \<Longrightarrow> schema_wf (transition_rows p f t v a e d)"
  unfolding transition_rows_def
  by (intro schema_wf_outbox schema_wf_other [OF _ other_tables_insert(1)] schema_wf_write)

lemma schema_wf_attempt:
  assumes "schema_wf d" and "insert_payment_attempt p nm oc cl n d = Inr (att, d')"
  shows "schema_wf d'"
proof -
  have d': "d' = d\<lparr>next_uuid := Suc (next_uuid d), payment_attempts := payment_attempts d @ [att]\<rparr>"
    and att: "pa_id att = next_uuid d" "pa_payment_intent_id att = p" "pa_attempt_number att = n"
    and new: "\<forall>a \<in> set (payment_attempts d). (pa_payment_intent_id a, pa_attempt_number a) \<noteq> (p, n)"
    using assms(2) by (auto simp: insert_payment_attempt_def Let_def split: if_splits)
  have "attempts_wf (payment_attempts d @ [att]) (Suc (next_uuid d))"
    using assms(1) att new by (force simp: schema_wf_def attempts_wf_def intro!: fresh_ids_insert)
  with assms(1) show ?thesis
    by (auto simp: d' schema_wf_def keys_wf_def intro: schema_wf_mono fresh_ids_mono)
qed

lemma schema_wf_ptx:
  assumes "schema_wf d" and "insert_provider_transaction aid nm ptx rs rr d = Inr (u, d')"
  shows "schema_wf d'"
proof -
  obtain t where d': "d' = d\<lparr>next_uuid := Suc (next_uuid d), provider_transactions := provider_transactions d @ [t]\<rparr>"
    and t: "pt_payment_attempt_id t = aid" "pt_provider_name t = nm" "pt_provider_transaction_id t = ptx"
    and new: "\<forall>x \<in> set (provider_transactions d). pt_payment_attempt_id x \<noteq> aid"
      "\<forall>x \<in> set (provider_transactions d). (pt_provider_name x, pt_provider_transaction_id x) \<noteq> (nm, ptx)"
    using assms(2) by (auto simp: insert_provider_transaction_def split: if_splits)
  have "transactions_wf (provider_transactions d @ [t])"
    using assms(1) t new by (auto simp: schema_wf_def transactions_wf_def)
  with assms(1) show ?thesis
    by (auto simp: d' schema_wf_def keys_wf_def intro: schema_wf_mono fresh_ids_mono)
qed

lemma schema_wf_refund:
  assumes "schema_wf d" and "insert_refund p amt d = Inr (r, d')" and "p \<in> pi_id ` set (payment_intents d)"
  shows "schema_wf d'"
proof -
  have d': "d' = d\<lparr>next_uuid := Suc (next_uuid d), refunds := refunds d @ [r]\<rparr>"
    and r: "rf_id r = next_uuid d" "rf_payment_intent_id r = p" "0 < rf_amount_minor r" "bigint (rf_amount_minor r)"
    using assms(2) by (auto simp: insert_refund_def Let_def split: if_splits)
  have "refunds_wf (refunds d @ [r]) (payment_intents d) (Suc (next_uuid d))"
    using assms(1,3) r by (auto simp: schema_wf_def refunds_wf_def intro!: fresh_ids_insert)
  with assms(1) show ?thesis
    by (auto simp: d' schema_wf_def keys_wf_def intro: schema_wf_mono fresh_ids_mono)
qed

lemma schema_wf_refund_status: "schema_wf d \<Longrightarrow> schema_wf (set_refund_status rid st d)"
  by (auto simp: schema_wf_def set_refund_status_def refunds_wf_def fresh_ids_update set_update_where keys_wf_def)

lemma schema_wf_keys:
  "schema_wf d \<Longrightarrow> keys_wf (d\<lparr>next_uuid := n, idempotency_keys := ks\<rparr>) \<Longrightarrow> next_uuid d \<le> n \<Longrightarrow>
     schema_wf (d\<lparr>next_uuid := n, idempotency_keys := ks\<rparr>)"
  by (auto simp: schema_wf_def intro: schema_wf_mono fresh_ids_mono)

section \<open>What the idempotency statements write\<close>

definition keys_only :: "db \<Rightarrow> db \<Rightarrow> bool" where
  "keys_only d d' \<longleftrightarrow> (\<exists>n ks. d' = d\<lparr>next_uuid := n, idempotency_keys := ks\<rparr> \<and> next_uuid d \<le> n)"

lemma keys_only_refl: "keys_only d d"
  unfolding keys_only_def by (intro exI [of _ "next_uuid d"] exI [of _ "idempotency_keys d"]) simp

lemma insert_claim_writes: "keys_only d (snd (insert_claim m k f d))"
proof (cases "select_one (same_key m k) (idempotency_keys d)")
  case None
  with insert_claim_new [OF None, of f] show ?thesis by (fastforce simp: keys_only_def)
next
  case (Some r)
  then have "snd (insert_claim m k f d) = d"
    using insert_claim_None [of m k f d] insert_claim_conflict [of m k f d] by simp
  then show ?thesis by (simp add: keys_only_refl)
qed

lemma reclaim_writes: "keys_only d (snd (reclaim e st t l d))"
  unfolding keys_only_def by (intro exI [of _ "next_uuid d"]) (auto simp: reclaim_def Let_def)

lemma claim_rows_snd:
  "snd (claim_rows [] m k f stale d) \<in>
     {d, snd (insert_claim m k f d)} \<union> {snd (reclaim e st t l d) | e st t l. True}"
  by (auto simp: claim_rows_undisturbed split: option.splits prod.splits) (metis snd_conv)+

lemma claim_rows_writes: "keys_only d (snd (claim_rows [] m k f stale d))"
  using claim_rows_snd [of m k f stale d]
  by (auto simp: keys_only_refl insert_claim_writes reclaim_writes)

lemma claim_rows_keys_wf: "keys_wf d \<Longrightarrow> keys_wf (snd (claim_rows [] m k f stale d))"
  using claim_rows_snd [of m k f stale d] by (auto simp: insert_claim_keys_wf reclaim_keys_wf)

lemma schema_wf_claim: "schema_wf d \<Longrightarrow> schema_wf (snd (claim_rows [] m k f stale d))"
proof -
  assume wf: "schema_wf d"
  then have "keys_wf (snd (claim_rows [] m k f stale d))"
    by (intro claim_rows_keys_wf) (simp add: schema_wf_def)
  moreover obtain n ks where "snd (claim_rows [] m k f stale d) = d\<lparr>next_uuid := n, idempotency_keys := ks\<rparr>"
    and "next_uuid d \<le> n"
    using claim_rows_writes [of d m k f stale] unfolding keys_only_def by blast
  ultimately show ?thesis using wf by (metis schema_wf_keys)
qed

lemma schema_wf_key_update:
  assumes "schema_wf d" and "\<And>r. ik_id (g r) = ik_id r" and "\<And>r. ik_merchant_id (g r) = ik_merchant_id r"
    and "\<And>r. ik_idempotency_key (g r) = ik_idempotency_key r"
  shows "schema_wf (d\<lparr>idempotency_keys := update_where q g (idempotency_keys d)\<rparr>)"
  using assms by (auto simp: schema_wf_def keys_wf_def fresh_ids_update map_update_where)

section \<open>What each statement writes\<close>

definition created_event :: "payment_intent \<Rightarrow> db \<Rightarrow> payment_event" where
  "created_event i d = \<lparr>pe_id = Suc (next_uuid d), pe_payment_intent_id = pi_id i, pe_from_status = None,
     pe_to_status = CREATED, pe_actor = API, pe_created_at = now d\<rparr>"

lemma created_rows_writes:
  assumes "created_rows rq d = Inr (i, d')"
  shows "pi_id i = next_uuid d" "pi_status i = CREATED" "pi_version i = 1" "0 < pi_amount_minor i"
    "payment_intents d' = payment_intents d @ [i]" "payment_events d' = payment_events d @ [created_event i d]"
    "\<exists>o1. outbox_events d' = outbox_events d @ [o1] \<and> ob_aggregate_type o1 = ''payment_intent'' \<and>
       ob_aggregate_id o1 = pi_id i \<and> ob_event_type o1 = ''payment.created'' \<and>
       ob_payload o1 = [(''payment_id'', JStr (uuid_str (pi_id i)))]"
    "refunds d' = refunds d" "ledger_entries d' = ledger_entries d" "next_uuid d' = next_uuid d + 3"
  using assms
  by (auto simp: created_rows_def insert_payment_intent_def insert_outbox_event_def insert_payment_event_def
      created_event_def Let_def split: sum.splits prod.splits if_splits)

definition transition_event :: "uuid \<Rightarrow> payment_status \<Rightarrow> payment_status \<Rightarrow> actor \<Rightarrow> db \<Rightarrow> payment_event" where
  "transition_event p f t a d = \<lparr>pe_id = next_uuid d, pe_payment_intent_id = p, pe_from_status = Some f,
     pe_to_status = t, pe_actor = a, pe_created_at = now d\<rparr>"

lemma transition_rows_writes:
  "payment_events (transition_rows p f t v a e d) = payment_events d @ [transition_event p f t a d]"
  "\<exists>o1. outbox_events (transition_rows p f t v a e d) = outbox_events d @ [o1] \<and>
     ob_aggregate_type o1 = ''payment_intent'' \<and> ob_aggregate_id o1 = p \<and>
     ob_payload o1 = [(''payment_id'', JStr (uuid_str p)), (''status'', JStr (payment_status_value t))]"
  "refunds (transition_rows p f t v a e d) = refunds d"
  "ledger_entries (transition_rows p f t v a e d) = ledger_entries d"
  "next_uuid (transition_rows p f t v a e d) = next_uuid d + 2"
  by (simp_all add: transition_rows_def insert_outbox_event_def insert_payment_event_def write_transition_def
      transition_event_def)

lemma insert_attempt_writes:
  "insert_payment_attempt p nm oc cl n d = Inr (att, d') \<Longrightarrow>
     d' = d\<lparr>next_uuid := Suc (next_uuid d), payment_attempts := payment_attempts d @ [att]\<rparr>"
  by (auto simp: insert_payment_attempt_def Let_def split: if_splits)

lemma insert_ptx_writes:
  "insert_provider_transaction aid nm ptx rs rr d = Inr (u, d') \<Longrightarrow>
     \<exists>t. d' = d\<lparr>next_uuid := Suc (next_uuid d), provider_transactions := provider_transactions d @ [t]\<rparr>"
  by (auto simp: insert_provider_transaction_def split: if_splits)

lemma insert_refund_writes:
  "insert_refund p amt d = Inr (r, d') \<Longrightarrow>
     d' = d\<lparr>next_uuid := Suc (next_uuid d), refunds := refunds d @ [r]\<rparr> \<and>
     rf_id r = next_uuid d \<and> rf_payment_intent_id r = p \<and> rf_amount_minor r = amt \<and> rf_status r = RF_PENDING \<and> 0 < amt"
  by (auto simp: insert_refund_def Let_def split: if_splits)

lemma add_pair_writes:
  "add_pair build amt d = Inr (tx, d') \<Longrightarrow>
     tx = next_uuid d \<and> d' = d\<lparr>next_uuid := next_uuid d + 3,
       ledger_entries := ledger_entries d @
         [fst (build tx) (next_uuid d + 1) (now d), snd (build tx) (next_uuid d + 2) (now d)]\<rparr>"
  by (auto simp: add_pair_def Let_def split: if_splits prod.splits)

end
