(* ===== verification/Invariants.thy ===== *)
theory Invariants
  imports Schema
begin

text \<open>
  Invariants of the payment services, stated once. The locale \<open>charge_invariant\<close> lists the
  statements that \<open>create_payment\<close> and \<open>capture_payment\<close> issue against the database, each with
  what the services have established when they issue it (its laws), and derives that both keep
  the invariant, whatever the provider answers and on every error path; \<open>payment_invariant\<close> adds
  the statements of \<open>refund_payment\<close>. Along with the invariant of the rows goes the coherence of the
  session: an object in the identity map agrees with its row.
\<close>

section \<open>Coherent sessions\<close>

definition agrees :: "payment_intent \<Rightarrow> payment_intent \<Rightarrow> bool" where
  "agrees obj row \<longleftrightarrow> obj\<lparr>pi_updated_at := pi_updated_at row\<rparr> = row"

definition coherent :: "'p session \<Rightarrow> bool" where
  "coherent s \<longleftrightarrow>
     (\<forall>k obj. identity_map s k = Some obj \<longrightarrow>
        pi_id obj = k \<and> (\<exists>row \<in> set (payment_intents (working s)). agrees obj row))"

lemma coherent_cong:
  "coherent s \<Longrightarrow> identity_map s' = identity_map s \<Longrightarrow>
     payment_intents (working s') = payment_intents (working s) \<Longrightarrow> coherent s'"
  by (simp add: coherent_def)

text \<open>The invariant a service keeps, together with a condition on the objects it holds.\<close>

definition inv_with :: "(db \<Rightarrow> bool) \<Rightarrow> ((uuid \<rightharpoonup> payment_intent) \<Rightarrow> bool) \<Rightarrow> 'p session \<Rightarrow> bool" where
  "inv_with J F s \<longleftrightarrow> stored (\<lambda>d. schema_wf d \<and> J d) s \<and> coherent s \<and> F (identity_map s)"

abbreviation session_inv :: "(db \<Rightarrow> bool) \<Rightarrow> 'p session \<Rightarrow> bool" where
  "session_inv J \<equiv> inv_with J (\<lambda>_. True)"

abbreviation held :: "(db \<Rightarrow> bool) \<Rightarrow> payment_intent \<Rightarrow> 'p session \<Rightarrow> bool" where
  "held J i \<equiv> inv_with J (\<lambda>m. m (pi_id i) = Some i)"

lemma agrees_fields:
  "agrees obj row \<Longrightarrow> pi_id row = pi_id obj \<and> pi_merchant_id row = pi_merchant_id obj \<and>
     pi_amount_minor row = pi_amount_minor obj \<and> pi_status row = pi_status obj \<and>
     pi_version row = pi_version obj \<and> pi_currency row = pi_currency obj \<and>
     pi_customer_id row = pi_customer_id obj \<and> pi_merchant_reference row = pi_merchant_reference obj \<and>
     pi_created_at row = pi_created_at obj"
  by (cases obj; cases row) (simp add: agrees_def)

lemma agrees_refl: "agrees row row"
  by (simp add: agrees_def)

lemma inv_with_weaken: "inv_with J F s \<Longrightarrow> session_inv J s"
  by (simp add: inv_with_def)

lemma session_inv_open: "schema_wf d \<Longrightarrow> J d \<Longrightarrow> session_inv J (open_session d p)"
  by (simp add: inv_with_def coherent_def open_session_def stored_def)

lemma session_inv_committed: "session_inv J s \<Longrightarrow> J (committed s)" "session_inv J s \<Longrightarrow> schema_wf (committed s)"
  by (simp_all add: inv_with_def stored_def)

lemma held_row:
  assumes "held J i s"
  obtains row where "row \<in> set (payment_intents (working s))" and "agrees i row"
  using assms by (auto simp: inv_with_def coherent_def)

lemma payment_row_unique:
  "schema_wf d \<Longrightarrow> r \<in> set (payment_intents d) \<Longrightarrow> r' \<in> set (payment_intents d) \<Longrightarrow> pi_id r = pi_id r' \<Longrightarrow> r = r'"
  by (auto simp: schema_wf_def payments_wf_def fresh_ids_def intro: distinct_map_inj_row)

section \<open>Statements\<close>

lemma keeps_inv_commit: "keeps (inv_with J F) commit"
  by (simp add: keeps_def inv_with_def stored_def coherent_def commit_def)

lemma keeps_inv_rollback: "keeps (session_inv J) rollback"
  by (simp add: keeps_def inv_with_def stored_def coherent_def rollback_def)

lemma keeps_inv_inc: "keeps (inv_with J F) (inc n)"
  by (simp add: keeps_def inv_with_def stored_def coherent_def inc_def)

lemma keeps_inv_call: "keeps (inv_with J F) (call_provider c)"
  by (simp add: keeps_def inv_with_def stored_def coherent_def call_provider_def split: prod.splits)

lemmas keeps_inv_quiet = keeps_inv_commit keeps_inv_inc keeps_inv_call

text \<open>A statement on other tables than \<open>payment_intents\<close>.\<close>

lemma inv_with_other:
  assumes "inv_with J F s" and "payment_intents d' = payment_intents (working s)" and "schema_wf d'" and "J d'"
  shows "inv_with J F (s\<lparr>working := d'\<rparr>)"
  using assms by (simp add: inv_with_def stored_def coherent_def)

lemma inv_with_rows: "inv_with J F s \<Longrightarrow> schema_wf (working s) \<and> J (working s)"
  by (simp add: inv_with_def stored_def)

lemma keeps_inv_execute:
  assumes "\<And>d. payment_intents (f d) = payment_intents d"
    and "\<And>d. schema_wf d \<Longrightarrow> schema_wf (f d)" and "\<And>d. schema_wf d \<Longrightarrow> J d \<Longrightarrow> J (f d)"
  shows "keeps (inv_with J F) (execute f)"
  using assms by (auto simp: keeps_def execute_def intro!: inv_with_other dest: inv_with_rows)

lemma keeps_inv_execute_returning:
  assumes "\<And>d. payment_intents (snd (f d)) = payment_intents d"
    and "\<And>d. schema_wf d \<Longrightarrow> schema_wf (snd (f d))" and "\<And>d. schema_wf d \<Longrightarrow> J d \<Longrightarrow> J (snd (f d))"
  shows "keeps (inv_with J F) (execute_returning f)"
  using assms
  by (auto simp: keeps_def execute_returning_def case_prod_beta intro!: inv_with_other dest: inv_with_rows)

lemma keeps_inv_execute_checked:
  assumes "\<And>d x d'. f d = Inr (x, d') \<Longrightarrow> payment_intents d' = payment_intents d"
    and "\<And>d x d'. schema_wf d \<Longrightarrow> f d = Inr (x, d') \<Longrightarrow> schema_wf d'"
    and "\<And>d x d'. schema_wf d \<Longrightarrow> J d \<Longrightarrow> f d = Inr (x, d') \<Longrightarrow> J d'"
  shows "keeps (inv_with J F) (execute_checked f :: ('p, 'x) prog)"
proof
  fix s :: "'p session" assume I: "inv_with J F s"
  show "inv_with J F (snd (execute_checked f s))"
  proof (cases "f (working s)")
    case (Inr y)
    then obtain x d' where f: "f (working s) = Inr (x, d')" by (cases y) auto
    then have "inv_with J F (s\<lparr>working := d'\<rparr>)"
      using assms(1) [OF f] assms(2) [OF _ f] assms(3) [OF _ _ f] I by (intro inv_with_other) (auto dest: inv_with_rows)
    with f show ?thesis by (simp add: execute_checked_def)
  qed (simp add: execute_checked_def I)
qed

section \<open>Reading a payment\<close>

lemma materialise_coherent:
  assumes I: "session_inv J s" and row: "row \<in> set (payment_intents (working s))"
  shows "materialise row s = (Inr row, s\<lparr>identity_map := (identity_map s)(pi_id row \<mapsto> row)\<rparr>)"
    and "held J row (snd (materialise row s))"
proof -
  have "obj\<lparr>pi_updated_at := pi_updated_at row\<rparr> = row" if "identity_map s (pi_id row) = Some obj" for obj
  proof -
    from I that obtain r where r: "r \<in> set (payment_intents (working s))" "agrees obj r" "pi_id obj = pi_id row"
      by (auto simp: inv_with_def coherent_def)
    then have "r = row"
      using I row agrees_fields [OF r(2)]
      by (intro payment_row_unique [of "working s"]) (auto dest: inv_with_rows)
    with r show ?thesis by (simp add: agrees_def)
  qed
  then show eq: "materialise row s = (Inr row, s\<lparr>identity_map := (identity_map s)(pi_id row \<mapsto> row)\<rparr>)"
    by (auto simp: materialise_def Let_def split: option.splits)
  from I row show "held J row (snd (materialise row s))"
    unfolding eq by (auto simp: inv_with_def stored_def coherent_def intro: bexI [of _ row] agrees_refl)
qed

lemma triple_materialise:
  "triple (\<lambda>s. session_inv J s \<and> row \<in> set (payment_intents (working s)) \<and> G (working s)) (materialise row)
     (\<lambda>i s. i = row \<and> held J i s \<and> G (working s)) E"
  unfolding triple_def using materialise_coherent by fastforce

lemma find_payment_Some:
  "find_payment p m d = Some r \<Longrightarrow> r \<in> set (payment_intents d) \<and> pi_id r = p \<and> pi_merchant_id r = m"
  by (auto simp: find_payment_def dest: select_one_Some)

text \<open>What a service knows after \<open>lock_payment\<close>: it holds an object that is the row.\<close>

lemma triple_lock:
  "triple (\<lambda>s. session_inv J s \<and> G (working s)) (lock_payment p m)
     (\<lambda>x s. case x of
         None \<Rightarrow> session_inv J s \<and> G (working s)
       | Some i \<Rightarrow> held J i s \<and> G (working s) \<and> pi_id i = p \<and> pi_merchant_id i = m) E"
proof -
  have "case lock_payment p m s of (Inl e, s') \<Rightarrow> E s' | (Inr x, s') \<Rightarrow>
      (case x of None \<Rightarrow> session_inv J s' \<and> G (working s')
       | Some i \<Rightarrow> held J i s' \<and> G (working s') \<and> pi_id i = p \<and> pi_merchant_id i = m)"
    if I: "session_inv J s" "G (working s)" for s :: "'a session"
  proof (cases "find_payment p m (working s)")
    case None
    with I show ?thesis by (simp add: lock_payment_def bnd_def query_def ret_def)
  next
    case (Some r)
    then have r: "r \<in> set (payment_intents (working s))" "pi_id r = p" "pi_merchant_id r = m"
      by (auto dest: find_payment_Some)
    note m = materialise_coherent [OF I(1) r(1)]
    with I r Some show ?thesis by (simp add: lock_payment_def bnd_def query_def ret_def)
  qed
  then show ?thesis by (simp add: triple_def)
qed

lemma triple_relock:
  "triple (\<lambda>s. session_inv J s \<and> G (working s)) (relock p m)
     (\<lambda>i s. held J i s \<and> G (working s) \<and> pi_id i = p) (session_inv J)"
  unfolding relock_def
  by (rule triple_bnd [OF triple_lock]) (auto simp: triple_def ret_def raise_def split: option.splits)

lemma triple_relock': "triple (session_inv J) (relock p m) (held J) (session_inv J)"
  using triple_relock [of J "\<lambda>_. True" p m] by (rule triple_weaken) auto

lemma keeps_inv_lock: "keeps (session_inv J) (lock_payment p m)"
  unfolding keeps_triple using triple_lock [of J "\<lambda>_. True" p m]
  by (rule triple_weaken) (auto simp: inv_with_def split: option.splits)

section \<open>Changing a payment\<close>

definition moved :: "payment_intent \<Rightarrow> payment_status \<Rightarrow> payment_intent" where
  "moved i t = i\<lparr>pi_status := t, pi_version := pi_version i + 1\<rparr>"

lemma apply_transition_run:
  "apply_transition i t a e s =
     (if is_valid_payment_transition (pi_status i) t (Some a)
      then (Inr (moved i t), s\<lparr>identity_map := (identity_map s)(pi_id i \<mapsto> moved i t),
             working := transition_rows (pi_id i) (pi_status i) t (pi_version i + 1) a e (working s)\<rparr>)
      else (Inl (InvalidStateTransition (pi_status i) t (Some a)), s))"
  by (simp add: apply_transition_def Let_def bnd_def andthen_def lift_result_def remember_def execute_def ret_def
      validate_payment_transition_def moved_def)

lemma payments_of_transition:
  "payment_intents (transition_rows p f t v a e d) =
     update_where (\<lambda>x. pi_id x = p)
       (\<lambda>x. x\<lparr>pi_status := (if t \<noteq> f then t else pi_status x), pi_version := v, pi_updated_at := now d\<rparr>)
       (payment_intents d)"
  by (simp add: transition_rows_def insert_outbox_event_def insert_payment_event_def write_transition_def)

lemma coherent_transition:
  assumes "coherent s" and "identity_map s (pi_id i) = Some i"
  shows "coherent (s\<lparr>identity_map := (identity_map s)(pi_id i \<mapsto> moved i t),
    working := transition_rows (pi_id i) (pi_status i) t (pi_version i + 1) a e (working s)\<rparr>)"
    (is "coherent ?s")
  unfolding coherent_def
proof (intro allI impI)
  fix k obj assume obj: "identity_map ?s k = Some obj"
  let ?row = "\<lambda>r. r\<lparr>pi_status := (if t \<noteq> pi_status i then t else pi_status r), pi_version := pi_version i + 1,
      pi_updated_at := now (working s)\<rparr>"
  show "pi_id obj = k \<and> (\<exists>row \<in> set (payment_intents (working ?s)). agrees obj row)"
  proof (cases "k = pi_id i")
    case True
    with obj have "obj = moved i t" by simp
    moreover from assms obtain r where r: "r \<in> set (payment_intents (working s))" "agrees i r"
      by (auto simp: coherent_def)
    moreover have "?row r \<in> set (payment_intents (working ?s))"
      using r agrees_fields [OF r(2)]
      by (auto simp: payments_of_transition set_update_where intro!: image_eqI [of _ _ r])
    moreover have "agrees (moved i t) (?row r)"
      using r agrees_fields [OF r(2)] by (auto simp: agrees_def moved_def intro: payment_intent.equality)
    ultimately show ?thesis using True by (auto simp: moved_def)
  next
    case False
    with obj assms(1) obtain r where r: "r \<in> set (payment_intents (working s))" "agrees obj r" "pi_id obj = k"
      by (auto simp: coherent_def)
    with False agrees_fields [OF r(2)] have "r \<in> set (payment_intents (working ?s))"
      by (auto simp: payments_of_transition set_update_where image_iff)
    with r show ?thesis by blast
  qed
qed

section \<open>Sequencing\<close>

lemma held_bnd:
  "keeps (held J i) m \<Longrightarrow> (\<And>x. triple (held J i) (k x) Q (session_inv J)) \<Longrightarrow>
     triple (held J i) (bnd m k) Q (session_inv J)"
  by (rule triple_bnd [where Q = "\<lambda>_. held J i"])
    (auto simp: keeps_triple intro: triple_weaken dest: inv_with_weaken)

lemma held_andthen:
  "keeps (held J i) m \<Longrightarrow> triple (held J i) k Q (session_inv J) \<Longrightarrow> triple (held J i) (andthen m k) Q (session_inv J)"
  unfolding andthen_def by (rule held_bnd)

lemma held_keeps: "keeps (session_inv J) m \<Longrightarrow> triple (held J i) m (\<lambda>_. session_inv J) (session_inv J)"
  by (rule triple_keeps) (auto dest: inv_with_weaken)

lemma inv_bnd:
  "keeps (session_inv J) m \<Longrightarrow> (\<And>x. triple (session_inv J) (k x) Q (session_inv J)) \<Longrightarrow>
     triple (session_inv J) (bnd m k) Q (session_inv J)"
  unfolding keeps_triple by (rule triple_bnd)

lemma relock_bnd:
  "(\<And>i. triple (held J i) (k i) (\<lambda>_. session_inv J) (session_inv J)) \<Longrightarrow> keeps (session_inv J) (bnd (relock p m) k)"
  unfolding keeps_triple by (rule triple_bnd [OF triple_relock'])

lemma triple_lock_bnd:
  assumes "triple (session_inv J) (k None) Q (session_inv J)"
    and "\<And>i. pi_id i = p \<Longrightarrow> triple (held J i) (k (Some i)) Q (session_inv J)"
  shows "triple (session_inv J) (bnd (lock_payment p m) k :: ('p, 'x) prog) Q (session_inv J)"
proof (rule triple_bnd)
  show "triple (session_inv J) (lock_payment p m :: ('p, _) prog)
      (\<lambda>x s. case x of None \<Rightarrow> session_inv J s | Some i \<Rightarrow> held J i s \<and> pi_id i = p) (session_inv J)"
    using triple_lock [of J "\<lambda>_. True" p m] by (rule triple_weaken) (auto split: option.splits)
  show "triple (\<lambda>s. case x of None \<Rightarrow> session_inv J s | Some i \<Rightarrow> held J i s \<and> pi_id i = p) (k x)
      Q (session_inv J)" for x
  proof (cases x)
    case (Some i)
    show ?thesis
    proof (cases "pi_id i = p")
      case True
      have "triple (\<lambda>s. held J i s \<and> pi_id i = p) (k (Some i)) Q (session_inv J)"
        by (rule triple_weaken [OF assms(2) [OF True]]) auto
      then show ?thesis by (simp add: Some)
    qed (simp add: Some triple_def)
  qed (use assms(1) in simp)
qed

lemma lock_bnd:
  "keeps (session_inv J) (k None) \<Longrightarrow>
   (\<And>i. pi_id i = p \<Longrightarrow> triple (held J i) (k (Some i)) (\<lambda>_. session_inv J) (session_inv J)) \<Longrightarrow>
   keeps (session_inv J) (bnd (lock_payment p m) k)"
  unfolding keeps_triple by (rule triple_lock_bnd)

lemma triple_if:
  "(b \<Longrightarrow> triple P m Q E) \<Longrightarrow> (\<not> b \<Longrightarrow> triple P k Q E) \<Longrightarrow> triple P (if b then m else k) Q E"
  by simp

lemma triple_case_option:
  "(x = None \<Longrightarrow> triple P m Q E) \<Longrightarrow> (\<And>y. x = Some y \<Longrightarrow> triple P (f y) Q E) \<Longrightarrow>
     triple P (case x of None \<Rightarrow> m | Some y \<Rightarrow> f y) Q E"
  by (cases x) auto

lemma triple_assert:
  "(b \<Longrightarrow> triple P k Q E) \<Longrightarrow> (\<And>s. P s \<Longrightarrow> E s) \<Longrightarrow> triple P (andthen (assert_that b) k) Q E"
  by (simp add: triple_def andthen_def bnd_def assert_that_def ret_def raise_def)

lemma triple_query:
  "(\<And>x. triple (\<lambda>s. P s \<and> f (working s) = x) (k x) Q E) \<Longrightarrow> triple P (bnd (query f) k) Q E"
  by (simp add: triple_def bnd_def query_def)

section \<open>The contract\<close>

text \<open>A move to SUCCEEDED settles the payment, unless it ends a partial refund.\<close>

definition settles :: "payment_status \<Rightarrow> payment_status \<Rightarrow> bool" where
  "settles f t \<longleftrightarrow> t = SUCCEEDED \<and> f \<noteq> REFUND_PENDING"

definition move_row :: "payment_intent \<Rightarrow> payment_status \<Rightarrow> actor \<Rightarrow> string \<Rightarrow> db \<Rightarrow> db" where
  "move_row row t a e = transition_rows (pi_id row) (pi_status row) t (pi_version row + 1) a e"

text \<open>What the refund service knows of the reservation it has made.\<close>

definition owns :: "uuid \<Rightarrow> refund \<Rightarrow> db \<Rightarrow> bool" where
  "owns p r d \<longleftrightarrow> r \<in> set (refunds d) \<and> rf_status r = RF_PENDING \<and> rf_payment_intent_id r = p"

lemma refund_inserted:
  assumes "insert_refund p amt d = Inr (r, d')"
  shows "payment_intents d' = payment_intents d" and "owns p r d'"
  using assms by (auto simp: insert_refund_def owns_def Let_def split: if_splits)

lemma transition_refunds: "refunds (working (snd (apply_transition i t a e s))) = refunds (working s)"
  by (simp add: apply_transition_run transition_rows_def insert_outbox_event_def insert_payment_event_def
      write_transition_def)

lemma triple_also:
  "triple P m Q E \<Longrightarrow> (\<And>s. G s \<Longrightarrow> G (snd (m s))) \<Longrightarrow> triple (\<lambda>s. P s \<and> G s) m (\<lambda>x s. Q x s \<and> G s) E"
  by (fastforce simp: triple_def split: prod.splits sum.splits)

text \<open>Charging moves payments to PROCESSING, FAILED and UNKNOWN and settles them; \<open>moves\<close> are the
  targets of the services that come on top.\<close>

locale charge_invariant =
  fixes J :: "db \<Rightarrow> bool" and moves :: "payment_status set"
  assumes J_keys: "J d \<Longrightarrow> next_uuid d \<le> n \<Longrightarrow> J (d\<lparr>next_uuid := n, idempotency_keys := ks\<rparr>)"
    and J_created: "schema_wf d \<Longrightarrow> J d \<Longrightarrow> created_rows rq d = Inr (i, d') \<Longrightarrow> J d'"
    and J_transition:
      "schema_wf d \<Longrightarrow> J d \<Longrightarrow> row \<in> set (payment_intents d) \<Longrightarrow>
         is_valid_payment_transition (pi_status row) t (Some a) \<Longrightarrow> \<not> settles (pi_status row) t \<Longrightarrow>
         t \<in> {PROCESSING, FAILED, UNKNOWN} \<union> moves \<Longrightarrow> J (move_row row t a e d)"
    and J_settlement:
      "schema_wf d \<Longrightarrow> J d \<Longrightarrow> row \<in> set (payment_intents d) \<Longrightarrow>
         is_valid_payment_transition (pi_status row) SUCCEEDED (Some a) \<Longrightarrow> settles (pi_status row) SUCCEEDED \<Longrightarrow>
         add_pair (\<lambda>txn. build_payment_settled_pair txn (pi_id row) (pi_amount_minor row)) (pi_amount_minor row)
           (move_row row SUCCEEDED a e d) = Inr (tx, d') \<Longrightarrow> J d'"
    and J_audit: "J d \<Longrightarrow> J (insert_audit_log mo x y z d)"
    and J_attempt: "J d \<Longrightarrow> insert_payment_attempt p nm oc cl no d = Inr (att, d') \<Longrightarrow> J d'"
    and J_ptx: "J d \<Longrightarrow> insert_provider_transaction aid nm ptx rs rr d = Inr (u, d') \<Longrightarrow> J d'"
begin

lemma inv_claim_rows: "keeps (inv_with J F) (execute_returning (claim_rows [] m k f st))"
proof (rule keeps_inv_execute_returning)
  fix d
  obtain n ks where d: "snd (claim_rows [] m k f st d) = d\<lparr>next_uuid := n, idempotency_keys := ks\<rparr>" "next_uuid d \<le> n"
    using claim_rows_writes [of d m k f st] by (auto simp: keys_only_def)
  then show "payment_intents (snd (claim_rows [] m k f st d)) = payment_intents d" by simp
  from d show "J (snd (claim_rows [] m k f st d))" if "J d" using that by (simp add: J_keys)
qed (rule schema_wf_claim)

lemma inv_key_update:
  assumes "\<And>d r. ik_id (g d r) = ik_id r \<and> ik_merchant_id (g d r) = ik_merchant_id r \<and>
     ik_idempotency_key (g d r) = ik_idempotency_key r"
  shows "keeps (inv_with J F) (execute (\<lambda>d. d\<lparr>idempotency_keys := update_where q (g d) (idempotency_keys d)\<rparr>))"
proof (rule keeps_inv_execute)
  fix d
  show "schema_wf (d\<lparr>idempotency_keys := update_where q (g d) (idempotency_keys d)\<rparr>)" if "schema_wf d"
    using that assms by (intro schema_wf_key_update) auto
  show "J (d\<lparr>idempotency_keys := update_where q (g d) (idempotency_keys d)\<rparr>)" if "J d"
    using J_keys [OF that, of "next_uuid d"] by simp
qed simp

lemma inv_complete: "keeps (inv_with J F) (complete_idempotency_key kid po c b ro)"
  unfolding complete_idempotency_key_def by (rule inv_key_update) (simp add: complete_row_def)

lemma inv_fail: "keeps (inv_with J F) (fail_idempotency_key kid)"
  unfolding fail_idempotency_key_def by (rule inv_key_update) simp

lemma inv_audit: "keeps (inv_with J F) (execute (insert_audit_log mo x y z))"
  by (rule keeps_inv_execute)
    (simp_all add: J_audit insert_audit_log_def [of mo x y z, THEN arg_cong [of _ _ payment_intents]]
      schema_wf_other [OF _ other_tables_insert(2)])

lemma inv_insert_attempt: "keeps (inv_with J F) (execute_checked (insert_payment_attempt p nm oc cl n))"
proof (rule keeps_inv_execute_checked)
  show "payment_intents d' = payment_intents d" if "insert_payment_attempt p nm oc cl n d = Inr (x, d')" for d d' x
    using that by (auto simp: insert_payment_attempt_def Let_def split: if_splits)
qed (blast intro: schema_wf_attempt J_attempt)+

lemma inv_insert_ptx: "keeps (inv_with J F) (execute_checked (insert_provider_transaction aid nm ptx rs rr))"
proof (rule keeps_inv_execute_checked)
  show "payment_intents d' = payment_intents d"
    if "insert_provider_transaction aid nm ptx rs rr d = Inr (x, d')" for d d' x
    using that by (auto simp: insert_provider_transaction_def split: if_splits)
qed (blast intro: schema_wf_ptx J_ptx)+

lemmas inv_statements = keeps_inv_quiet keeps_inv_rollback keeps_inv_lock inv_claim_rows inv_complete inv_fail
  inv_audit inv_insert_attempt inv_insert_ptx

lemma inv_record_attempt: "keeps (inv_with J F) (record_attempt p nm res cl)"
  unfolding record_attempt_def by (intro keeps_rules inv_statements)

text \<open>A transition of a held payment, and the settlement that goes with it.\<close>

lemma held_transition:
  assumes "held J i s" and "is_valid_payment_transition (pi_status i) t (Some a)"
  obtains row where "row \<in> set (payment_intents (working s))"
    and "pi_status row = pi_status i" and "pi_amount_minor row = pi_amount_minor i" and "pi_id row = pi_id i"
    and "apply_transition i t a e s =
      (Inr (moved i t), s\<lparr>identity_map := (identity_map s)(pi_id i \<mapsto> moved i t),
         working := move_row row t a e (working s)\<rparr>)"
    and "schema_wf (move_row row t a e (working s))"
    and "\<forall>d'. J d' \<longrightarrow> schema_wf d' \<longrightarrow> payment_intents d' = payment_intents (move_row row t a e (working s)) \<longrightarrow>
           held J (moved i t) (s\<lparr>identity_map := (identity_map s)(pi_id i \<mapsto> moved i t), working := d'\<rparr>)"
proof -
  obtain row where row: "row \<in> set (payment_intents (working s))" "agrees i row"
    using assms(1) by (rule held_row)
  note f = agrees_fields [OF row(2)]
  then have mv: "move_row row t a e = transition_rows (pi_id i) (pi_status i) t (pi_version i + 1) a e"
    by (simp add: move_row_def)
  have wf: "schema_wf (move_row row t a e (working s))"
    unfolding mv using assms(1) by (intro schema_wf_transition) (simp add: inv_with_def stored_def)
  have run: "apply_transition i t a e s =
      (Inr (moved i t), s\<lparr>identity_map := (identity_map s)(pi_id i \<mapsto> moved i t),
         working := move_row row t a e (working s)\<rparr>)"
    using assms(2) by (simp add: apply_transition_run mv)
  have held': "held J (moved i t) (s\<lparr>identity_map := (identity_map s)(pi_id i \<mapsto> moved i t), working := d'\<rparr>)"
    if d': "J d'" "schema_wf d'" "payment_intents d' = payment_intents (move_row row t a e (working s))" for d'
  proof -
    have "coherent (s\<lparr>identity_map := (identity_map s)(pi_id i \<mapsto> moved i t),
        working := move_row row t a e (working s)\<rparr>)"
      unfolding mv using assms(1) by (intro coherent_transition) (auto simp: inv_with_def)
    then have "coherent (s\<lparr>identity_map := (identity_map s)(pi_id i \<mapsto> moved i t), working := d'\<rparr>)"
      by (rule coherent_cong) (simp_all add: d')
    with d' assms(1) show ?thesis
      by (simp add: inv_with_def stored_def moved_def)
  qed
  then have all: "\<forall>d'. J d' \<longrightarrow> schema_wf d' \<longrightarrow> payment_intents d' = payment_intents (move_row row t a e (working s)) \<longrightarrow>
      held J (moved i t) (s\<lparr>identity_map := (identity_map s)(pi_id i \<mapsto> moved i t), working := d'\<rparr>)"
    by blast
  from f have "pi_status row = pi_status i" "pi_amount_minor row = pi_amount_minor i" "pi_id row = pi_id i"
    by blast+
  then show thesis by (rule that [OF row(1) _ _ _ run wf all])
qed

lemma triple_transition:
  assumes "\<not> settles (pi_status i) t" and "t \<in> {PROCESSING, FAILED, UNKNOWN} \<union> moves"
  shows "triple (held J i) (apply_transition i t a e) (held J) (session_inv J)"
proof -
  have "case apply_transition i t a e s of (Inl x, s') \<Rightarrow> session_inv J s' | (Inr i', s') \<Rightarrow> held J i' s'"
    if I: "held J i s" for s :: "'a session"
  proof (cases "is_valid_payment_transition (pi_status i) t (Some a)")
    case True
    note mv = held_transition [OF I True, of e]
    obtain row where row: "row \<in> set (payment_intents (working s))" "pi_status row = pi_status i"
      "pi_amount_minor row = pi_amount_minor i" "pi_id row = pi_id i"
      "apply_transition i t a e s = (Inr (moved i t), s\<lparr>identity_map := (identity_map s)(pi_id i \<mapsto> moved i t),
         working := move_row row t a e (working s)\<rparr>)"
      "schema_wf (move_row row t a e (working s))"
      "\<forall>d'. J d' \<longrightarrow> schema_wf d' \<longrightarrow> payment_intents d' = payment_intents (move_row row t a e (working s)) \<longrightarrow>
         held J (moved i t) (s\<lparr>identity_map := (identity_map s)(pi_id i \<mapsto> moved i t), working := d'\<rparr>)"
      by (rule mv) (rule that)
    from I have "schema_wf (working s)" "J (working s)" by (simp_all add: inv_with_def stored_def)
    then have "J (move_row row t a e (working s))"
      using row(1,2) True assms by (intro J_transition) simp_all
    then have "held J (moved i t) (s\<lparr>identity_map := (identity_map s)(pi_id i \<mapsto> moved i t),
        working := move_row row t a e (working s)\<rparr>)"
      using row(6) by (intro row(7) [rule_format]) simp_all
    with row(5) show ?thesis by simp
  next
    case False
    with I show ?thesis by (simp add: apply_transition_run inv_with_weaken)
  qed
  then show ?thesis by (simp add: triple_def)
qed

text \<open>\<open>apply_transition(SUCCEEDED)\<close> followed by \<open>record_payment_settled\<close>.\<close>

definition resettles :: "bool" where
  "resettles \<longleftrightarrow> (\<forall>d row a e tx d'. schema_wf d \<longrightarrow> J d \<longrightarrow> row \<in> set (payment_intents d) \<longrightarrow>
     is_valid_payment_transition (pi_status row) SUCCEEDED (Some a) \<longrightarrow> pi_status row = REFUND_PENDING \<longrightarrow>
     add_pair (\<lambda>txn. build_payment_settled_pair txn (pi_id row) (pi_amount_minor row)) (pi_amount_minor row)
       (move_row row SUCCEEDED a e d) = Inr (tx, d') \<longrightarrow> J d')"

lemma triple_settlement:
  assumes ok: "settles (pi_status i) SUCCEEDED \<or> resettles"
    and rest: "\<And>i'. triple (held J i') (k i') Q (session_inv J)"
  shows "triple (held J i)
     (bnd (apply_transition i SUCCEEDED a e) (\<lambda>i. andthen (record_payment_settled (pi_id i) (pi_amount_minor i)) (k i)))
     Q (session_inv J)"
proof -
  let ?m = "bnd (apply_transition i SUCCEEDED a e)
    (\<lambda>i. andthen (record_payment_settled (pi_id i) (pi_amount_minor i)) (k i))"
  have "case ?m s of (Inl x, s') \<Rightarrow> session_inv J s' | (Inr y, s') \<Rightarrow> Q y s'"
    if I: "held J i s" for s :: "'a session"
  proof (cases "is_valid_payment_transition (pi_status i) SUCCEEDED (Some a)")
    case True
    note mv = held_transition [OF I True, of e]
    obtain row where row:
      "row \<in> set (payment_intents (working s))" "pi_status row = pi_status i"
      "pi_amount_minor row = pi_amount_minor i" "pi_id row = pi_id i"
      "apply_transition i SUCCEEDED a e s = (Inr (moved i SUCCEEDED), s\<lparr>identity_map := (identity_map s)(pi_id i \<mapsto> moved i SUCCEEDED),
         working := move_row row SUCCEEDED a e (working s)\<rparr>)"
      "schema_wf (move_row row SUCCEEDED a e (working s))"
      "\<forall>d'. J d' \<longrightarrow> schema_wf d' \<longrightarrow> payment_intents d' = payment_intents (move_row row SUCCEEDED a e (working s)) \<longrightarrow>
         held J (moved i SUCCEEDED) (s\<lparr>identity_map := (identity_map s)(pi_id i \<mapsto> moved i SUCCEEDED), working := d'\<rparr>)"
      by (rule mv) (rule that)
    from I have wf: "schema_wf (working s)" "J (working s)" by (simp_all add: inv_with_def stored_def)
    with row(1) have "0 < pi_amount_minor row" "bigint (pi_amount_minor row)"
      by (auto simp: schema_wf_def payments_wf_def)
    then obtain tx d' where pair: "add_pair (\<lambda>txn. build_payment_settled_pair txn (pi_id row) (pi_amount_minor row))
        (pi_amount_minor row) (move_row row SUCCEEDED a e (working s)) = Inr (tx, d')"
      by (auto simp: add_pair_def Let_def build_payment_settled_pair_def)
    from True row(2) have valid: "is_valid_payment_transition (pi_status row) SUCCEEDED (Some a)" by simp
    have "J d'"
    proof (cases "settles (pi_status row) SUCCEEDED")
      case True
      then show ?thesis by (rule J_settlement [OF wf row(1) valid _ pair])
    next
      case False
      with ok row(2) have "resettles" "pi_status row = REFUND_PENDING" by (auto simp: settles_def)
      then show ?thesis
        unfolding resettles_def using wf row(1) valid pair by (elim allE impE) assumption+
    qed
    moreover from pair have other: "other_tables_only (move_row row SUCCEEDED a e (working s)) d'" by simp
    ultimately have H: "held J (moved i SUCCEEDED)
        (s\<lparr>identity_map := (identity_map s)(pi_id i \<mapsto> moved i SUCCEEDED), working := d'\<rparr>)"
      using schema_wf_other [OF row(6) other] by (intro row(7) [rule_format]) (simp_all add: other_tables_only_def)
    have "?m s = k (moved i SUCCEEDED) (s\<lparr>identity_map := (identity_map s)(pi_id i \<mapsto> moved i SUCCEEDED), working := d'\<rparr>)"
      using row(3-5) pair
      by (simp add: bnd_def andthen_def record_payment_settled_def execute_checked_def moved_def)
    with rest [of "moved i SUCCEEDED"] H show ?thesis by (simp add: triple_def)
  next
    case False
    with I show ?thesis by (simp add: apply_transition_run bnd_def inv_with_weaken)
  qed
  then show ?thesis by (simp add: triple_def)
qed

lemma transition_bnd:
  "\<not> settles (pi_status i) t \<Longrightarrow> t \<in> {PROCESSING, FAILED, UNKNOWN} \<union> moves \<Longrightarrow> (\<And>i'. triple (held J i') (k i') Q (session_inv J)) \<Longrightarrow>
     triple (held J i) (bnd (apply_transition i t a e) k) Q (session_inv J)"
  by (rule triple_bnd [OF triple_transition])

lemma transition_last:
  "\<not> settles (pi_status i) t \<Longrightarrow> t \<in> {PROCESSING, FAILED, UNKNOWN} \<union> moves \<Longrightarrow>
     triple (held J i) (apply_transition i t a e) (\<lambda>_. session_inv J) (session_inv J)"
  by (rule triple_weaken [OF triple_transition]) (auto dest: inv_with_weaken)

text \<open>The pieces of \<open>create_payment\<close>.\<close>

lemma inv_fail_claim: "keeps (session_inv J) (fail_claim_and_raise k e)"
  unfolding fail_claim_and_raise_def by (intro keeps_rules inv_statements)

lemma inv_claim_key: "keeps (session_inv J) (claim_idempotency_key [] m k f st)"
  unfolding claim_idempotency_key_def by (intro keeps_rules inv_statements)

lemma inv_on_claim: "(\<And>k. keeps (session_inv J) (body k)) \<Longrightarrow> keeps (session_inv J) (on_claim c body)"
  unfolding on_claim_def by (intro keeps_rules inv_statements inv_fail_claim)

lemma inv_respond: "keeps (inv_with J F) (respond k p r c b)"
  unfolding respond_def by (intro keeps_rules inv_statements)

lemma inv_create_intent: "keeps (session_inv J) (create_intent rq :: ('p, payment_intent) prog)"
proof -
  have step: "session_inv J (snd (bnd (execute_checked (created_rows rq)) (\<lambda>i. andthen (remember i) (ret i)) s))"
    if I: "session_inv J s" for s :: "'p session"
  proof (cases "created_rows rq (working s)")
    case (Inl e)
    with I show ?thesis by (simp add: bnd_def execute_checked_def)
  next
    case (Inr y)
    then obtain i d' where run: "created_rows rq (working s) = Inr (i, d')" by (cases y) auto
    then have ps: "payment_intents d' = payment_intents (working s) @ [i]"
      by (auto simp: created_rows_def insert_payment_intent_def insert_outbox_event_def insert_payment_event_def
          Let_def split: sum.splits prod.splits if_splits)
    from I have wf: "schema_wf (working s)" "J (working s)" by (auto dest: inv_with_rows)
    then have "schema_wf d'" "J d'" using run schema_wf_created J_created by blast+
    moreover from I have "coherent s" by (simp add: inv_with_def)
    then have "coherent (s\<lparr>working := d', identity_map := (identity_map s)(pi_id i \<mapsto> i)\<rparr>)"
      unfolding coherent_def using ps by (auto intro: bexI [of _ i] agrees_refl)
    ultimately show ?thesis
      using I run by (simp add: bnd_def andthen_def execute_checked_def remember_def ret_def inv_with_def stored_def)
  qed
  have "create_intent rq = bnd (bnd (execute_checked (created_rows rq)) (\<lambda>i. andthen (remember i) (ret i)))
      (\<lambda>i. andthen commit (ret i) :: ('p, payment_intent) prog)"
    by (simp add: create_intent_def bnd_assoc andthen_def)
  moreover have "keeps (session_inv J) (bnd (execute_checked (created_rows rq)) (\<lambda>i. andthen (remember i) (ret i))
      :: ('p, payment_intent) prog)"
    using step by (simp add: keeps_def)
  then have "keeps (session_inv J) (bnd (bnd (execute_checked (created_rows rq)) (\<lambda>i. andthen (remember i) (ret i)))
      (\<lambda>i. andthen commit (ret i)) :: ('p, payment_intent) prog)"
    by (rule keeps_bnd) (intro keeps_rules keeps_inv_quiet)
  ultimately show ?thesis by simp
qed

lemma inv_start_processing: "keeps (session_inv J) (start_processing p m)"
  unfolding start_processing_def
  by (intro relock_bnd transition_bnd held_keeps keeps_rules keeps_inv_quiet) (simp_all add: settles_def)

lemma inv_assess: "keeps (session_inv J) (assess_and_audit rq p)"
  unfolding assess_and_audit_def by (intro keeps_rules inv_statements)

lemma inv_block: "keeps (session_inv J) (block_payment p m k)"
  unfolding block_payment_def
  by (intro relock_bnd transition_bnd held_keeps keeps_rules keeps_inv_quiet inv_respond) (simp_all add: settles_def)

lemma inv_record_authorization: "keeps (session_inv J) (record_authorization nm res p m k)"
proof -
  have moved: "triple (held J i) (bnd (apply_transition i t API e) (\<lambda>i. andthen (inc x) (ret i))) (\<lambda>_. session_inv J) (session_inv J)"
    if "t \<in> {FAILED, UNKNOWN}" for i t e x
    using that by (intro transition_bnd held_keeps keeps_rules keeps_inv_quiet) (auto simp: settles_def)
  have stay: "triple (held J i) (andthen (inc x) (ret i)) (\<lambda>_. session_inv J) (session_inv J)" for i x
    by (intro held_keeps keeps_rules keeps_inv_quiet)
  show ?thesis
    unfolding record_authorization_def
    by (intro relock_bnd held_andthen inv_record_attempt triple_bnd [where Q = "\<lambda>_. session_inv J"])
      (auto intro: moved stay simp: keeps_triple [symmetric] intro!: inv_respond)
qed

lemma inv_create_payment: "keeps (session_inv J) (create_payment H P rq)"
  unfolding create_payment_def create_payment_claimed_def
  by (intro keeps_rules inv_statements inv_claim_key inv_on_claim inv_create_intent inv_start_processing
      inv_assess inv_block inv_record_authorization)

text \<open>\<open>capture_payment\<close>.\<close>

lemma inv_capture_locked: "triple (held J i) (capture_locked (P :: 'p provider) i) (\<lambda>_. session_inv J) (session_inv J)"
proof (cases "pi_status i = PROCESSING")
  case True
  have "triple (held J i :: 'p session \<Rightarrow> bool) (bnd (apply_transition i SUCCEEDED API e) (\<lambda>i.
      andthen (record_payment_settled (pi_id i) (pi_amount_minor i)) (ret i))) (\<lambda>_. session_inv J) (session_inv J)" for e
    using True by (intro triple_settlement held_keeps keeps_rules) (simp add: settles_def)
  moreover have "triple (held J i :: 'p session \<Rightarrow> bool) (apply_transition i t API e) (\<lambda>_. session_inv J) (session_inv J)"
    if "t \<in> {FAILED, UNKNOWN}" for t e
    using that by (intro transition_last) (auto simp: settles_def)
  ultimately have "triple (held J i :: 'p session \<Rightarrow> bool) (if a then bnd (apply_transition i SUCCEEDED API e) (\<lambda>i.
      andthen (record_payment_settled (pi_id i) (pi_amount_minor i)) (ret i))
      else if b then apply_transition i UNKNOWN API e' else apply_transition i FAILED API e'')
      (\<lambda>_. session_inv J) (session_inv J)" for a b e e' e''
    by simp
  moreover have "triple (held J i :: 'p session \<Rightarrow> bool) (raise x) (\<lambda>_. session_inv J) (session_inv J)" for x
    by (intro held_keeps keeps_rules)
  ultimately show ?thesis
    unfolding capture_locked_def using True
    by (auto intro!: held_bnd keeps_rules keeps_inv_quiet split: option.split)
next
  case False
  then show ?thesis
    unfolding capture_locked_def by (intro held_keeps) (auto intro!: keeps_rules)
qed

lemma inv_capture_payment: "keeps (session_inv J) (capture_payment H P m p k b)"
proof -
  have "triple (held J i) (bnd (capture_locked P i) (\<lambda>i. respond kid (pi_id i) None 200 (JObj (serialize_payment i))))
      (\<lambda>_. session_inv J) (session_inv J)" for i kid
    by (rule triple_bnd [OF inv_capture_locked]) (simp add: keeps_triple [symmetric] inv_respond)
  then show ?thesis
    unfolding capture_payment_def capture_claimed_def
    by (intro keeps_rules inv_claim_key inv_on_claim lock_bnd) (auto intro: keeps_rules)
qed

end

locale payment_invariant = charge_invariant J UNIV for J +
  assumes J_refund:
      "schema_wf d \<Longrightarrow> J d \<Longrightarrow> row \<in> set (payment_intents d) \<Longrightarrow>
         pi_status row \<in> REFUNDABLE_SOURCE_STATUSES \<Longrightarrow>
         amt \<le> pi_amount_minor row - reserved_amount (pi_id row) d \<Longrightarrow>
         insert_refund (pi_id row) amt d = Inr (r, d') \<Longrightarrow> J d'"
    and J_refund_failed:
      "schema_wf d \<Longrightarrow> J d \<Longrightarrow> r \<in> set (refunds d) \<Longrightarrow> rf_status r = RF_PENDING \<Longrightarrow>
         J (set_refund_status (rf_id r) RF_FAILED d)"
    and J_refund_settled:
      "schema_wf d \<Longrightarrow> J d \<Longrightarrow> r \<in> set (refunds d) \<Longrightarrow> rf_status r = RF_PENDING \<Longrightarrow>
         add_pair (\<lambda>txn. build_refund_settled_pair txn (rf_payment_intent_id r) (rf_amount_minor r))
           (rf_amount_minor r) (set_refund_status (rf_id r) RF_SUCCEEDED d) = Inr (tx, d') \<Longrightarrow> J d'"
begin

text \<open>\<open>refund_payment\<close>: the reservation, what the service knows of it during the provider call,
  its settlement.\<close>

lemma reserve_insert:
  assumes st: "pi_status i \<in> REFUNDABLE_SOURCE_STATUSES"
  shows "triple (\<lambda>s. held J i s \<and> reserved_amount (pi_id i) (working s) + amt \<le> pi_amount_minor i)
     (execute_checked (insert_refund (pi_id i) amt)) (\<lambda>r s. held J i s \<and> owns (pi_id i) r (working s)) (session_inv J)"
proof -
  have "case execute_checked (insert_refund (pi_id i) amt) s of
      (Inl e, s') \<Rightarrow> session_inv J s' | (Inr r, s') \<Rightarrow> held J i s' \<and> owns (pi_id i) r (working s')"
    if I: "held J i s" and le: "reserved_amount (pi_id i) (working s) + amt \<le> pi_amount_minor i" for s :: "'a session"
  proof (cases "insert_refund (pi_id i) amt (working s)")
    case (Inl e)
    with I show ?thesis by (simp add: execute_checked_def inv_with_weaken)
  next
    case (Inr y)
    then obtain r d' where run: "insert_refund (pi_id i) amt (working s) = Inr (r, d')" by (cases y) auto
    obtain row where row: "row \<in> set (payment_intents (working s))" "agrees i row" using I by (rule held_row)
    note f = agrees_fields [OF row(2)]
    have wf: "schema_wf (working s)" "J (working s)" using inv_with_rows [OF I] by auto
    have "J d'"
    proof (rule J_refund [OF wf row(1)])
      show "pi_status row \<in> REFUNDABLE_SOURCE_STATUSES" using st f by simp
      show "amt \<le> pi_amount_minor row - reserved_amount (pi_id row) (working s)" using le f by simp
      show "insert_refund (pi_id row) amt (working s) = Inr (r, d')" using run f by simp
    qed
    moreover have "schema_wf d'"
      by (rule schema_wf_refund [OF wf(1) run]) (metis f image_eqI row(1))
    ultimately have "held J i (s\<lparr>working := d'\<rparr>)"
      using I refund_inserted(1) [OF run] by (intro inv_with_other)
    with run refund_inserted(2) [OF run] show ?thesis by (simp add: execute_checked_def)
  qed
  then show ?thesis by (simp add: triple_def)
qed

lemma reserve_move:
  "triple (\<lambda>s. held J i s \<and> owns p r (working s))
     (bnd (if b then apply_transition i REFUND_PENDING API e else ret i) (\<lambda>_. andthen commit (ret (r, t)))
        :: ('p, refund \<times> provider_transaction) prog)
     (\<lambda>(r, t) s. session_inv J s \<and> owns p r (working s)) (session_inv J)"
proof (rule triple_bnd)
  have "triple (\<lambda>s. held J i s \<and> owns p r (working s)) (apply_transition i REFUND_PENDING API e :: ('p, _) prog)
      (\<lambda>i s. held J i s \<and> owns p r (working s)) (session_inv J)"
    by (rule triple_also [OF triple_transition]) (simp_all add: settles_def owns_def transition_refunds)
  then show "triple (\<lambda>s. held J i s \<and> owns p r (working s))
      (if b then apply_transition i REFUND_PENDING API e else ret i :: ('p, _) prog)
      (\<lambda>i s. held J i s \<and> owns p r (working s)) (session_inv J)"
    by (simp add: triple_def ret_def)
  show "triple (\<lambda>s. held J i' s \<and> owns p r (working s)) (andthen commit (ret (r, t)) :: ('p, _) prog)
      (\<lambda>(r, t) s. session_inv J s \<and> owns p r (working s)) (session_inv J)" for i'
    using keeps_inv_commit [of J "\<lambda>_. True"]
    by (auto simp: triple_def andthen_def bnd_def commit_def ret_def keeps_def dest: inv_with_weaken)
qed

lemma inv_reserve_locked:
  "triple (held J i) (reserve_locked i amt :: ('p, refund \<times> provider_transaction) prog)
     (\<lambda>(r, t) s. session_inv J s \<and> owns (pi_id i) r (working s)) (session_inv J)"
proof -
  let ?Q = "\<lambda>(r, t) (s :: 'p session). session_inv J s \<and> owns (pi_id i) r (working s)"
  have raise: "triple P (raise e) ?Q (session_inv J)" if "\<And>s. P s \<Longrightarrow> held J i s" for P e
    using that by (auto simp: triple_def raise_def intro: inv_with_weaken)
  have ins: "triple P (bnd (execute_checked (insert_refund (pi_id i) amt)) (\<lambda>refund.
       bnd (if b then apply_transition i REFUND_PENDING API e else ret i) (\<lambda>_. andthen commit (ret (refund, t)))))
      ?Q (session_inv J)"
    if "pi_status i \<in> REFUNDABLE_SOURCE_STATUSES"
      and "\<And>s. P s \<Longrightarrow> held J i s \<and> reserved_amount (pi_id i) (working s) + amt \<le> pi_amount_minor i"
    for P b e and t :: provider_transaction
    by (rule triple_weaken [OF triple_bnd [OF reserve_insert [OF that(1)] reserve_move]]) (use that(2) in auto)
  show ?thesis
    unfolding reserve_locked_def Let_def
    by (intro triple_if triple_case_option triple_query raise ins) auto
qed

lemma inv_reserve:
  "triple (session_inv J) (reserve_refund m p amt)
     (\<lambda>(r, t) s. session_inv J s \<and> owns p r (working s)) (session_inv J)"
  unfolding reserve_refund_def
  by (rule triple_lock_bnd) (auto simp: triple_def [of _ "raise _"] raise_def intro: inv_reserve_locked)

lemma inv_settle_row:
  "triple (\<lambda>s. inv_with J F s \<and> owns p r (working s)) (settle_refund_row p r oc) (\<lambda>_. inv_with J F) E"
proof -
  have "case settle_refund_row p r oc s of (Inl e, s') \<Rightarrow> E s' | (Inr x, s') \<Rightarrow> inv_with J F s'"
    if I: "inv_with J F s" and own: "owns p r (working s)" for s :: "'a session"
  proof -
    have wf: "schema_wf (working s)" "J (working s)" using inv_with_rows [OF I] by auto
    have r: "r \<in> set (refunds (working s))" "rf_status r = RF_PENDING" and p: "p = rf_payment_intent_id r"
      using own by (auto simp: owns_def)
    have inv': "inv_with J F (s\<lparr>working := d', metrics := ms\<rparr>)" "inv_with J F (s\<lparr>metrics := ms, working := d'\<rparr>)"
      if "J d'" "schema_wf d'" "payment_intents d' = payment_intents (working s)" for d' ms
      using inv_with_other [OF I that(3,2,1)] by (simp_all add: inv_with_def stored_def coherent_def)
    show ?thesis
    proof (cases "oc = PO_SUCCEEDED")
      case True
      let ?d = "set_refund_status (rf_id r) RF_SUCCEEDED (working s)"
      from wf(1) r have "0 < rf_amount_minor r" "bigint (rf_amount_minor r)"
        by (auto simp: schema_wf_def refunds_wf_def)
      then obtain tx d' where pair:
        "add_pair (\<lambda>txn. build_refund_settled_pair txn p (rf_amount_minor r)) (rf_amount_minor r) ?d = Inr (tx, d')"
        by (auto simp: add_pair_def Let_def build_refund_settled_pair_def)
      then have "J d'" unfolding p by (rule J_refund_settled [OF wf r])
      moreover have other: "other_tables_only ?d d'" using pair by simp
      then have "schema_wf d'" by (rule schema_wf_other [OF schema_wf_refund_status [OF wf(1)]])
      ultimately have "inv_with J F (s\<lparr>metrics := metrics s @ [''refund_total''], working := d'\<rparr>)"
        using other by (intro inv') (simp_all add: other_tables_only_def set_refund_status_def)
      with True pair show ?thesis
        by (simp add: settle_refund_row_def prog_defs record_refund_settled_def)
    next
      case False
      have "inv_with J F (s\<lparr>working := set_refund_status (rf_id r) RF_FAILED (working s),
          metrics := metrics s @ [''refund_failures_total'']\<rparr>)"
        by (intro inv' J_refund_failed schema_wf_refund_status wf r) (simp add: set_refund_status_def)
      with False show ?thesis by (simp add: settle_refund_row_def prog_defs)
    qed
  qed
  then show ?thesis by (simp add: triple_def)
qed

lemma inv_settle_status: "triple (held J i) (settle_payment_status i) (\<lambda>_. session_inv J) (session_inv J)"
  unfolding settle_payment_status_def
  by (intro triple_if held_bnd keeps_query transition_last held_keeps keeps_ret) (auto simp: settles_def)

lemma inv_settle_refund:
  "triple (\<lambda>s. session_inv J s \<and> owns p r (working s)) (settle_refund m p r res k) (\<lambda>_. session_inv J) (session_inv J)"
  unfolding settle_refund_def
proof (rule triple_bnd [OF triple_relock], goal_cases)
  case (1 i)
  let ?P = "\<lambda>s. held J i s \<and> owns p r (working s) \<and> pi_id i = p"
  have rest: "triple (held J i) (bnd (settle_payment_status i) (\<lambda>i. respond k (pi_id i) ro 201 b))
      (\<lambda>_. session_inv J) (session_inv J)" for ro b
    by (rule triple_bnd [OF inv_settle_status]) (simp add: keeps_triple [symmetric] inv_respond)
  have settle: "triple ?P (bnd (settle_refund_row (pi_id i) r (pr_outcome res)) (\<lambda>refund.
      bnd (settle_payment_status i) (\<lambda>i.
      respond k (pi_id i) (Some (rf_id refund)) 201 (JObj (serialize_refund refund)))))
      (\<lambda>_. session_inv J) (session_inv J)"
  proof (cases "pi_id i = p")
    case True
    show ?thesis
      by (rule triple_weaken [OF triple_bnd [OF inv_settle_row rest]]) (auto simp: True)
  qed (simp add: triple_def)
  show ?case
    by (intro triple_query triple_assert) (auto intro: triple_weaken [OF settle] inv_with_weaken)
qed

lemma inv_refund_payment: "keeps (session_inv J) (refund_payment H P m p k b amt)"
proof -
  have call: "triple (\<lambda>s. session_inv J s \<and> owns p r (working s)) (call_provider c)
      (\<lambda>_ s. session_inv J s \<and> owns p r (working s)) (session_inv J)" for r c
    by (rule triple_also [OF keeps_inv_call [unfolded keeps_triple]])
      (simp add: call_provider_def split: prod.splits)
  have "keeps (session_inv J) (refund_claimed P m p k amt kid)" for kid
    unfolding keeps_triple refund_claimed_def
  proof (rule triple_bnd [OF inv_reserve])
    fix x show "triple (case x of (r, t) \<Rightarrow> \<lambda>s. session_inv J s \<and> owns p r (working s))
        (case x of (refund, txn) \<Rightarrow> bnd (call_provider (prov_refund P (pt_provider_transaction_id txn) amt k))
          (\<lambda>result. settle_refund m p refund result kid)) (\<lambda>_. session_inv J) (session_inv J)"
      by (cases x) (auto intro: triple_bnd [OF call inv_settle_refund])
  qed
  then show ?thesis
    unfolding refund_payment_def by (intro keeps_rules inv_claim_key inv_on_claim)
qed

end

end
