(* ===== verification/Webhooks.thy ===== *)
theory Webhooks
  imports Invariants
begin

text \<open>
  Webhooks (\<open>packages/webhooks\<close>): signature verification (\<open>security.py\<close>), receipt with
  deduplication and the effect applied later by the worker (\<open>service.py\<close>). The digest
  \<open>hmac_sha256hex secret message\<close> is a parameter.
\<close>

section \<open>security.py\<close>

definition DEFAULT_TOLERANCE_SECONDS :: int where
  "DEFAULT_TOLERANCE_SECONDS = 300"

definition sign_payload :: "(string \<Rightarrow> string \<Rightarrow> string) \<Rightarrow> string \<Rightarrow> string \<Rightarrow> string \<Rightarrow> string" where
  "sign_payload hmac_sha256hex secret timestamp raw_body =
     hmac_sha256hex secret (timestamp @ ''.'' @ raw_body)"

text \<open>Python's \<open>int(text)\<close> on a header (Latin-1 text): surrounding white space, an optional sign,
  decimal digits with single underscores between them, at most 4300 digits. None is the
  ValueError.\<close>

definition is_space :: "char \<Rightarrow> bool" where
  "is_space c \<longleftrightarrow> (let n = of_char c :: nat in (9 \<le> n \<and> n \<le> 13) \<or> (28 \<le> n \<and> n \<le> 32) \<or> n = 133 \<or> n = 160)"

definition is_digit :: "char \<Rightarrow> bool" where
  "is_digit c \<longleftrightarrow> 48 \<le> (of_char c :: nat) \<and> of_char c \<le> (57 :: nat)"

definition strip :: "string \<Rightarrow> string" where
  "strip s = rev (dropWhile is_space (rev (dropWhile is_space s)))"

fun digits_val :: "nat \<Rightarrow> bool \<Rightarrow> string \<Rightarrow> nat option" where
  "digits_val acc prev [] = (if prev then Some acc else None)"
| "digits_val acc prev (c # cs) =
     (if is_digit c then digits_val (10 * acc + (of_char c - 48)) True cs
      else if c = CHR ''_'' \<and> prev then digits_val acc False cs
      else None)"

definition python_int :: "string \<Rightarrow> int option" where
  "python_int text =
     (let t = strip text in
      if length (filter is_digit t) > 4300 then None
      else (case t of
              [] \<Rightarrow> None
            | c # r \<Rightarrow>
                if c = CHR ''-'' then map_option (\<lambda>n. - int n) (digits_val 0 False r)
                else if c = CHR ''+'' then map_option int (digits_val 0 False r)
                else map_option int (digits_val 0 False t)))"

definition signature_invalid :: "string \<Rightarrow> exn" where
  "signature_invalid message = PayGuardError ''WEBHOOK_SIGNATURE_INVALID'' message"

definition ascii :: "string \<Rightarrow> bool" where
  "ascii s \<longleftrightarrow> list_all (\<lambda>c. (of_char c :: nat) < 128) s"

text \<open>\<open>hmac.compare_digest\<close> raises a TypeError on texts that are not ASCII.\<close>

definition compare_digest :: "string \<Rightarrow> string \<Rightarrow> exn + bool" where
  "compare_digest a b = (if ascii a \<and> ascii b then Inr (a = b) else Inl TypeError)"

definition verify_webhook_signature ::
    "(string \<Rightarrow> string \<Rightarrow> string) \<Rightarrow> string \<Rightarrow> string option \<Rightarrow> string option \<Rightarrow> string \<Rightarrow> int \<Rightarrow> int \<Rightarrow> exn + unit" where
  "verify_webhook_signature hmac_sha256hex secret timestamp_header signature_header raw_body
       tolerance_seconds now_seconds =
     (if \<not> truthy timestamp_header \<or> \<not> truthy signature_header then
        Inl (signature_invalid ''Missing signature or timestamp header.'')
      else
        (case python_int (the timestamp_header) of
           None \<Rightarrow> Inl (signature_invalid ''Malformed timestamp header.'')
         | Some timestamp \<Rightarrow>
             if \<bar>now_seconds - timestamp\<bar> > tolerance_seconds then
               Inl (signature_invalid ''Webhook timestamp is outside the allowed tolerance window.'')
             else
               (case compare_digest (sign_payload hmac_sha256hex secret (the timestamp_header) raw_body)
                       (the signature_header) of
                  Inl e \<Rightarrow> Inl e
                | Inr same \<Rightarrow>
                    if \<not> same then Inl (signature_invalid ''Signature verification failed.'')
                    else Inr ())))"

section \<open>Receipt\<close>

text \<open>The INSERT with \<open>ON CONFLICT DO NOTHING RETURNING\<close> on (provider_name, provider_event_id).\<close>

definition insert_webhook_event ::
    "string \<Rightarrow> string \<Rightarrow> string \<Rightarrow> (string \<times> json) list \<Rightarrow> string \<Rightarrow> db \<Rightarrow> uuid option \<times> db" where
  "insert_webhook_event provider_name provider_event_id event_type raw_payload signature d =
     (if \<exists>w \<in> set (webhook_events d).
           wh_provider_name w = provider_name \<and> wh_provider_event_id w = provider_event_id
      then (None, d)
      else (Some (next_uuid d), d\<lparr>next_uuid := Suc (next_uuid d),
             webhook_events := webhook_events d @
               [\<lparr>wh_id = next_uuid d, wh_provider_name = provider_name,
                 wh_provider_event_id = provider_event_id, wh_event_type = event_type,
                 wh_raw_payload = raw_payload, wh_signature = signature,
                 wh_processing_status = WH_RECEIVED, wh_received_at = now d\<rparr>]\<rparr>))"

definition receive_webhook ::
    "string \<Rightarrow> string \<Rightarrow> string \<Rightarrow> (string \<times> json) list \<Rightarrow> string \<Rightarrow> ('p, unit) prog" where
  "receive_webhook provider_name provider_event_id event_type raw_payload signature =
     bnd (execute_returning (insert_webhook_event provider_name provider_event_id event_type
            raw_payload signature)) (\<lambda>inserted.
     andthen (inc (''webhook_events_total:'' @ event_type))
     (andthen
        (case inserted of
           Some wid \<Rightarrow> execute (insert_outbox_event ''webhook_event'' wid ''webhook.received''
                          [(''webhook_event_id'', JStr (uuid_str wid))])
         | None \<Rightarrow> inc ''webhook_duplicates_total'')
     commit))"

section \<open>Effect\<close>

definition set_webhook_status :: "uuid \<Rightarrow> webhook_status \<Rightarrow> ('p, unit) prog" where
  "set_webhook_status wid st =
     execute (\<lambda>d. d\<lparr>webhook_events := update_where (\<lambda>w. wh_id w = wid)
       (\<lambda>w. w\<lparr>wh_processing_status := st\<rparr>) (webhook_events d)\<rparr>)"

text \<open>\<open>raw_payload.get("data", {}).get("provider_transaction_id")\<close>: the second \<open>get\<close> is an
  AttributeError when \<open>data\<close> is not an object.\<close>

definition payload_transaction_id :: "(string \<times> json) list \<Rightarrow> exn + json option" where
  "payload_transaction_id payload =
     (case dict_get payload ''data'' of
        None \<Rightarrow> Inr None
      | Some (JObj data) \<Rightarrow> Inr (dict_get data ''provider_transaction_id'')
      | Some _ \<Rightarrow> Inl AttributeError)"

text \<open>Python's truth value of a JSON value.\<close>

fun json_truthy :: "json \<Rightarrow> bool" where
  "json_truthy JNull = False"
| "json_truthy (JBool b) = b"
| "json_truthy (JInt i) = (i \<noteq> 0)"
| "json_truthy (JStr s) = (s \<noteq> [])"
| "json_truthy (JTime t) = True"
| "json_truthy (JArr xs) = (xs \<noteq> [])"
| "json_truthy (JObj kvs) = (kvs \<noteq> [])"

definition find_by_provider_transaction :: "string \<Rightarrow> db \<Rightarrow> payment_intent option" where
  "find_by_provider_transaction ptx d =
     select_one (\<lambda>p. \<exists>a \<in> set (payment_attempts d). pa_payment_intent_id a = pi_id p \<and>
        (\<exists>t \<in> set (provider_transactions d). pt_payment_attempt_id t = pa_id a \<and>
           pt_provider_transaction_id t = ptx)) (payment_intents d)"

definition ascii_lower :: "string \<Rightarrow> string" where
  "ascii_lower s = map (\<lambda>c. let n = of_char c :: nat in
     if 65 \<le> n \<and> n \<le> 90 then char_of (n + 32) else c) s"

text \<open>From the locked payment on.\<close>

definition settle_outcome :: "uuid \<Rightarrow> payment_status \<Rightarrow> payment_intent \<Rightarrow> ('p, unit) prog" where
  "settle_outcome wid target locked =
     (if pi_status locked = target then set_webhook_status wid WH_PROCESSED
      else if \<not> is_valid_payment_transition (pi_status locked) target (Some WEBHOOK)
      then set_webhook_status wid WH_IGNORED
      else
        bnd (apply_transition locked target WEBHOOK
               (''webhook.'' @ ascii_lower (payment_status_value target))) (\<lambda>locked.
        andthen (if target = SUCCEEDED
                 then andthen (record_payment_settled (pi_id locked) (pi_amount_minor locked)) (ret ())
                 else ret ())
        (set_webhook_status wid WH_PROCESSED)))"

text \<open>From the provider transaction's id on: find the payment, lock it, settle.\<close>

definition settle_transaction :: "uuid \<Rightarrow> payment_status \<Rightarrow> string \<Rightarrow> ('p, unit) prog" where
  "settle_transaction wid target ptx =
     bnd (query (find_by_provider_transaction ptx)) (\<lambda>row.
     case row of
       None \<Rightarrow> set_webhook_status wid WH_IGNORED
     | Some r \<Rightarrow>
         bnd (materialise r) (\<lambda>intent.
         bnd (relock (pi_id intent) (pi_merchant_id intent))
           (settle_outcome wid target)))"

definition handle_payment_outcome :: "webhook_event \<Rightarrow> payment_status \<Rightarrow> ('p, unit) prog" where
  "handle_payment_outcome w target =
     bnd (lift_result (payload_transaction_id (wh_raw_payload w))) (\<lambda>ptx.
     case ptx of
       None \<Rightarrow> set_webhook_status (wh_id w) WH_IGNORED
     | Some j \<Rightarrow>
         if \<not> json_truthy j then set_webhook_status (wh_id w) WH_IGNORED
         else (case j of
             JStr s \<Rightarrow> settle_transaction (wh_id w) target s
           | _ \<Rightarrow> raise DataError))"

definition EVENT_HANDLERS :: "(string \<times> payment_status) list" where
  "EVENT_HANDLERS = [(''payment.succeeded'', SUCCEEDED), (''payment.failed'', FAILED)]"

definition apply_webhook_event :: "uuid \<Rightarrow> ('p, unit) prog" where
  "apply_webhook_event webhook_event_id =
     bnd (query (\<lambda>d. select_one (\<lambda>w. wh_id w = webhook_event_id) (webhook_events d))) (\<lambda>row.
     case row of
       None \<Rightarrow> ret ()
     | Some w \<Rightarrow>
         if wh_processing_status w \<noteq> WH_RECEIVED then ret ()
         else (case map_of EVENT_HANDLERS (wh_event_type w) of
             None \<Rightarrow> set_webhook_status (wh_id w) WH_IGNORED
           | Some target \<Rightarrow> handle_payment_outcome w target))"

section \<open>Invariants of the webhook path\<close>

lemma keeps_case_JStr:
  "(\<And>s. j = JStr s \<Longrightarrow> keeps I (f s)) \<Longrightarrow> keeps I m \<Longrightarrow> keeps I (case j of JStr s \<Rightarrow> f s | _ \<Rightarrow> m)"
  by (cases j) auto

lemma schema_wf_webhook: "schema_wf d \<Longrightarrow> schema_wf (snd (insert_webhook_event pn pe et pl sg d))"
proof -
  assume wf: "schema_wf d"
  then have "webhooks_wf (webhook_events d @ [w]) (Suc (next_uuid d))"
    if "wh_id w = next_uuid d" "(wh_provider_name w, wh_provider_event_id w) = (pn, pe)"
      "\<forall>x \<in> set (webhook_events d). (wh_provider_name x, wh_provider_event_id x) \<noteq> (pn, pe)" for w
    using that by (force simp: schema_wf_def webhooks_wf_def intro!: fresh_ids_insert)
  with wf show ?thesis
    by (auto simp: insert_webhook_event_def schema_wf_def keys_wf_def intro: schema_wf_mono fresh_ids_mono)
qed

lemma schema_wf_webhook_status:
  "schema_wf d \<Longrightarrow> schema_wf (d\<lparr>webhook_events := update_where q (\<lambda>w. w\<lparr>wh_processing_status := st\<rparr>) (webhook_events d)\<rparr>)"
  by (simp add: schema_wf_def keys_wf_def webhooks_wf_def fresh_ids_update map_update_where)

text \<open>The webhook path settles a payment whatever non-terminal status the transition table
  lets it leave, REFUND_PENDING included: \<open>J_resettlement\<close>.\<close>

locale webhook_invariant = payment_invariant J for J +
  assumes J_webhook_insert: "J d \<Longrightarrow> J (snd (insert_webhook_event pn pe et pl sg d))"
    and J_webhook_outbox: "J d \<Longrightarrow> J (insert_outbox_event ''webhook_event'' wid et2 pl2 d)"
    and J_webhook_status: "J d \<Longrightarrow> J (d\<lparr>webhook_events := update_where (\<lambda>w. wh_id w = wid)
           (\<lambda>w. w\<lparr>wh_processing_status := wst\<rparr>) (webhook_events d)\<rparr>)"
    and J_resettlement:
      "schema_wf d \<Longrightarrow> J d \<Longrightarrow> row \<in> set (payment_intents d) \<Longrightarrow>
         is_valid_payment_transition (pi_status row) SUCCEEDED (Some a) \<Longrightarrow> pi_status row = REFUND_PENDING \<Longrightarrow>
         add_pair (\<lambda>txn. build_payment_settled_pair txn (pi_id row) (pi_amount_minor row)) (pi_amount_minor row)
           (move_row row SUCCEEDED a e d) = Inr (tx, d') \<Longrightarrow> J d'"
begin

lemma inv_webhook_status: "keeps (inv_with J F) (set_webhook_status w st)"
  unfolding set_webhook_status_def
  by (rule keeps_inv_execute) (simp_all add: schema_wf_webhook_status J_webhook_status)

lemma inv_webhook_insert: "keeps (inv_with J F) (execute_returning (insert_webhook_event pn pe et pl sg))"
  by (rule keeps_inv_execute_returning)
    (simp_all add: J_webhook_insert schema_wf_webhook, simp add: insert_webhook_event_def)

lemma inv_webhook_outbox: "keeps (inv_with J F) (execute (insert_outbox_event ''webhook_event'' w et pl))"
  by (rule keeps_inv_execute) (simp_all add: J_webhook_outbox schema_wf_outbox, simp add: insert_outbox_event_def)

lemma inv_receive_webhook: "keeps (session_inv J) (receive_webhook pn pe et pl sg)"
  unfolding receive_webhook_def
  by (intro keeps_rules keeps_inv_quiet inv_webhook_insert inv_webhook_outbox)

lemma inv_settle_outcome: "triple (held J i) (settle_outcome w t i) (\<lambda>_. session_inv J) (session_inv J)"
proof -
  have status: "triple (held J i') (set_webhook_status w st :: ('p, unit) prog) (\<lambda>_. session_inv J) (session_inv J)" for i' st
    by (intro held_keeps inv_webhook_status)
  have move: "triple (held J i) (bnd (apply_transition i t WEBHOOK e) (\<lambda>locked.
        andthen (if t = SUCCEEDED then andthen (record_payment_settled (pi_id locked) (pi_amount_minor locked)) (ret ())
                 else ret ())
        (set_webhook_status w WH_PROCESSED)) :: ('p, unit) prog) (\<lambda>_. session_inv J) (session_inv J)" for e
  proof (cases "t = SUCCEEDED")
    case True
    have "resettles" unfolding resettles_def using J_resettlement by blast
    then have "triple (held J i) (bnd (apply_transition i SUCCEEDED WEBHOOK e) (\<lambda>locked.
        andthen (record_payment_settled (pi_id locked) (pi_amount_minor locked)) (set_webhook_status w WH_PROCESSED))
        :: ('p, unit) prog) (\<lambda>_. session_inv J) (session_inv J)"
      by (intro triple_settlement status) simp
    with True show ?thesis by (simp add: andthen_def bnd_assoc)
  next
    case False
    then show ?thesis by (simp add: andthen_def) (intro transition_bnd status, simp_all add: settles_def)
  qed
  show "triple (held J i) (settle_outcome w t i :: ('p, unit) prog) (\<lambda>_. session_inv J) (session_inv J)"
    unfolding settle_outcome_def by (simp add: status move)
qed

lemma inv_settle_transaction: "keeps (session_inv J) (settle_transaction w t x)"
proof -
  have "triple (\<lambda>s. session_inv J s \<and> find_by_provider_transaction x (working s) = Some r)
      (bnd (materialise r) (\<lambda>intent. bnd (relock (pi_id intent) (pi_merchant_id intent)) (settle_outcome w t)
         :: ('p, unit) prog))
      (\<lambda>_. session_inv J) (session_inv J)" for r
  proof (rule triple_bnd)
    show "triple (\<lambda>s. session_inv J s \<and> find_by_provider_transaction x (working s) = Some r)
        (materialise r :: ('p, _) prog) (\<lambda>_. session_inv J) (session_inv J)"
      by (rule triple_weaken [OF triple_materialise [where G = "\<lambda>_. True"]])
        (auto simp: find_by_provider_transaction_def dest: select_one_Some intro: inv_with_weaken)
    show "triple (session_inv J) (bnd (relock (pi_id i) (pi_merchant_id i)) (settle_outcome w t) :: ('p, unit) prog)
        (\<lambda>_. session_inv J) (session_inv J)" for i
      unfolding keeps_triple [symmetric] by (intro relock_bnd inv_settle_outcome)
  qed
  moreover have "triple (\<lambda>s. session_inv J s \<and> P s) (set_webhook_status w st :: ('p, unit) prog)
      (\<lambda>_. session_inv J) (session_inv J)" for P st
    by (rule triple_keeps [OF inv_webhook_status]) simp
  ultimately show "keeps (session_inv J) (settle_transaction w t x :: ('p, unit) prog)"
    unfolding keeps_triple settle_transaction_def
    by (intro triple_query) (auto split: option.split)
qed

lemma inv_handle_payment_outcome: "keeps (session_inv J) (handle_payment_outcome w t)"
  unfolding handle_payment_outcome_def
  by (intro keeps_rules keeps_case_JStr inv_webhook_status inv_settle_transaction)

lemma inv_apply_webhook_event: "keeps (session_inv J) (apply_webhook_event w)"
  unfolding apply_webhook_event_def
  by (intro keeps_rules inv_webhook_status inv_handle_payment_outcome)

end

section \<open>Properties\<close>

text \<open>A webhook is accepted exactly when both headers are there, the timestamp is a number
  within the tolerance of the clock, and the signature is the HMAC of that very timestamp and
  body under the shared secret.\<close>

theorem signature_accepted_iff:
  "verify_webhook_signature hmac secret tsh sgh raw_body tol now_s = Inr () \<longleftrightarrow>
     (\<exists>ts sg n. tsh = Some ts \<and> sgh = Some sg \<and> ts \<noteq> [] \<and> sg \<noteq> [] \<and> python_int ts = Some n \<and>
        \<bar>now_s - n\<bar> \<le> tol \<and> sg = sign_payload hmac secret ts raw_body \<and> ascii sg)"
  by (cases tsh; cases sgh)
    (auto simp: verify_webhook_signature_def truthy_def compare_digest_def split: option.splits sum.splits if_splits)

text \<open>Every rejection but one is the documented error: the exception is a signature header
  outside ASCII, on which the digest comparison raises a TypeError that the function lets
  through.\<close>

theorem signature_rejection_kinds:
  "(\<exists>msg. verify_webhook_signature hmac secret tsh sgh raw_body tol now_s = Inl (PayGuardError ''WEBHOOK_SIGNATURE_INVALID'' msg)) \<or>
   verify_webhook_signature hmac secret tsh sgh raw_body tol now_s = Inr () \<or>
   (verify_webhook_signature hmac secret tsh sgh raw_body tol now_s = Inl TypeError \<and>
      (\<exists>ts sg. tsh = Some ts \<and> sgh = Some sg \<and> (ascii sg \<longrightarrow> \<not> ascii (sign_payload hmac secret ts raw_body))))"
  by (cases tsh; cases sgh)
    (auto simp: verify_webhook_signature_def truthy_def compare_digest_def signature_invalid_def
      split: option.splits sum.splits if_splits)

theorem signature_rejection_kinds_witness:
  "verify_webhook_signature (\<lambda>_ _. ''00'') ''s'' (Some ''100'') (Some [CHR 0xE9]) ''{}'' 300 100 = Inl TypeError"
  using signature_rejection_kinds [of "\<lambda>_ _. ''00''" "''s''" "Some ''100''" "Some [CHR 0xE9]" "''{}''" 300 100]
  by (simp add: verify_webhook_signature_def truthy_def compare_digest_def ascii_def python_int_def strip_def is_space_def
      is_digit_def sign_payload_def Let_def)

text \<open>A provider that delivers an event again gets its acknowledgement and nothing else happens:
  the second receipt, whatever it carries, leaves every table as the first one left it.\<close>

theorem webhook_received_once:
  assumes "receive_webhook pn eid et payload sg (open_session d p) = (r, s')"
  shows "r = Inr () \<and> committed (snd (receive_webhook pn eid et' payload' sg' (open_session (committed s') p'))) = committed s'"
  using assms
  by (auto simp: receive_webhook_def insert_webhook_event_def prog_defs open_session_def insert_outbox_event_def Let_def
      split: if_splits)

theorem webhook_received_once_witness:
  "committed (snd (receive_webhook ''mock'' ''e1'' ''payment.failed'' [] ''x''
     (open_session (committed (snd (receive_webhook ''mock'' ''e1'' ''payment.failed'' [] ''x'' (open_session (empty_db 0) ())))) ()))) =
   committed (snd (receive_webhook ''mock'' ''e1'' ''payment.failed'' [] ''x'' (open_session (empty_db 0) ())))"
  by (rule webhook_received_once [OF prod.collapse [symmetric], THEN conjunct2])

text \<open>Whatever a handler did, it ends by marking its event.\<close>

definition handled :: "uuid \<Rightarrow> 'p session \<Rightarrow> bool" where
  "handled wid s \<longleftrightarrow> (\<forall>w \<in> set (webhook_events (working s)). wh_id w = wid \<longrightarrow> wh_processing_status w \<noteq> WH_RECEIVED)"

lemma triple_true_bnd:
  "(\<And>x. triple (\<lambda>_. True) (f x) Q (\<lambda>_. True)) \<Longrightarrow> triple (\<lambda>_. True) (bnd m f) Q (\<lambda>_. True)"
  by (fastforce simp: triple_def bnd_def split: prod.splits sum.splits)

lemma triple_true_raise: "triple (\<lambda>_. True) (raise e) Q (\<lambda>_. True)"
  by (simp add: triple_def raise_def)

lemma set_status_handled:
  "st \<noteq> WH_RECEIVED \<Longrightarrow> triple (\<lambda>_. True) (set_webhook_status wid st) (\<lambda>_. handled wid) (\<lambda>_. True)"
proof -
  assume st: "st \<noteq> WH_RECEIVED"
  have "wh_processing_status w \<noteq> WH_RECEIVED"
    if "w \<in> set (update_where (\<lambda>w. wh_id w = wid) (\<lambda>w. w\<lparr>wh_processing_status := st\<rparr>) ws)" and "wh_id w = wid" for w ws
    using that(1) unfolding set_update_where by (rule imageE) (use st that(2) in \<open>simp split: if_splits\<close>)
  then show ?thesis unfolding triple_def set_webhook_status_def execute_def handled_def by simp blast
qed

lemma handler_handles: "triple (\<lambda>_. True) (handle_payment_outcome w t) (\<lambda>_. handled (wh_id w)) (\<lambda>_. True)"
proof -
  have outcome: "triple (\<lambda>_. True) (settle_outcome wid t i) (\<lambda>_. handled wid) (\<lambda>_. True)" for wid i
    unfolding settle_outcome_def andthen_def
    by (intro triple_if triple_true_bnd set_status_handled) simp_all
  have "triple (\<lambda>_. True) (settle_transaction wid t ptx) (\<lambda>_. handled wid) (\<lambda>_. True)" for wid ptx
    unfolding settle_transaction_def by (intro triple_true_bnd triple_case_option outcome set_status_handled) simp_all
  then show ?thesis
    unfolding handle_payment_outcome_def
    by (auto intro!: triple_true_bnd set_status_handled triple_true_raise split: option.split json.split)
qed

text \<open>C31. A received webhook takes effect at most once: applying it again after it was applied, in
  the same transaction or in a later one, changes nothing.\<close>

theorem webhook_applied_once:
  assumes "apply_webhook_event wid s = (Inr (), s')"
    and "webhook_events (working s2) = webhook_events (working s')"
  shows "apply_webhook_event wid s2 = (Inr (), s2)"
proof -
  have sel: "apply_webhook_event wid s2 = (Inr (), s2)"
    if "\<And>w. select_one (\<lambda>w. wh_id w = wid) (webhook_events (working s2)) = Some w \<Longrightarrow> wh_processing_status w \<noteq> WH_RECEIVED"
    using that by (auto simp: apply_webhook_event_def prog_defs split: option.splits)
  show ?thesis
  proof (cases "select_one (\<lambda>w. wh_id w = wid) (webhook_events (working s))")
    case None
    with assms(1) have "s' = s" by (simp add: apply_webhook_event_def prog_defs)
    with None assms(2) show ?thesis by (intro sel) simp
  next
    case (Some w)
    show ?thesis
    proof (cases "wh_processing_status w = WH_RECEIVED")
      case False
      with Some assms(1) have "s' = s" by (simp add: apply_webhook_event_def prog_defs)
      with Some False assms(2) show ?thesis by (intro sel) simp
    next
      case True
      have wid: "wh_id w = wid" using Some by (auto dest: select_one_Some)
      have "handled wid s'"
        using assms(1) True Some wid tripleD(1) [OF set_status_handled [of WH_IGNORED wid]] tripleD(1) [OF handler_handles [of w]]
        by (auto simp: apply_webhook_event_def bnd_def query_def split: option.splits)
      with assms(2) show ?thesis by (intro sel) (auto simp: handled_def dest: select_one_Some)
    qed
  qed
qed

definition demo_webhook :: "unit session" where
  "demo_webhook = snd (receive_webhook ''mock'' ''e1'' ''payment.failed'' [] ''x'' (open_session (empty_db 0) ()))"

theorem webhook_applied_once_witness:
  "apply_webhook_event 0 (snd (apply_webhook_event 0 demo_webhook)) = (Inr (), snd (apply_webhook_event 0 demo_webhook)) \<and>
   map wh_processing_status (webhook_events (working (snd (apply_webhook_event 0 demo_webhook)))) = [WH_IGNORED]"
proof -
  have run: "apply_webhook_event 0 demo_webhook = (Inr (), snd (apply_webhook_event 0 demo_webhook)) \<and>
      map wh_processing_status (webhook_events (working (snd (apply_webhook_event 0 demo_webhook)))) = [WH_IGNORED]"
    by (simp add: demo_webhook_def receive_webhook_def insert_webhook_event_def insert_outbox_event_def prog_defs open_session_def
        empty_db_def apply_webhook_event_def EVENT_HANDLERS_def handle_payment_outcome_def payload_transaction_id_def dict_get_def
        set_webhook_status_def Let_def)
  with webhook_applied_once [OF conjunct1 [OF run] refl] show ?thesis by simp
qed

end
