(* ===== verification/Outbox.thy ===== *)
theory Outbox
  imports Webhooks
begin

text \<open>
  The transactional outbox consumer (\<open>packages/outbox\<close>): backoff, the claim of the next due
  event, its dispatch and what becomes of it (\<open>worker.py\<close>), the two dispatchers
  (\<open>dispatchers.py\<close>) and the worker's poll (\<open>apps/worker/main.py\<close>). What a round of the worker
  reads from outside is a \<open>poll\<close>: the clock, the rows other workers hold locked
  (\<open>SKIP LOCKED\<close>) and the value \<open>random()\<close> returns. The locale \<open>outbox_consumer\<close> is the contract
  between the worker and a dispatcher, interpreted on both dispatchers.
\<close>

section \<open>Backoff\<close>

definition MAX_ATTEMPTS :: nat where "MAX_ATTEMPTS = 8"
definition BASE_DELAY_SECONDS :: rat where "BASE_DELAY_SECONDS = 1"
definition MAX_DELAY_SECONDS :: rat where "MAX_DELAY_SECONDS = 300"

text \<open>\<open>timedelta(seconds=x)\<close>: microseconds, ties to even.\<close>

definition round_half_even :: "rat \<Rightarrow> int" where
  "round_half_even x =
     (let n = \<lfloor>x\<rfloor>; r = x - of_int n in
      if r < 1 / 2 then n else if r > 1 / 2 then n + 1 else if even n then n else n + 1)"

definition exponential_delay :: "nat \<Rightarrow> rat" where
  "exponential_delay attempt_count =
     min MAX_DELAY_SECONDS (BASE_DELAY_SECONDS * 2 ^ (attempt_count - 1))"

text \<open>\<open>random.uniform(0, cap)\<close> is \<open>cap * random()\<close>; \<open>u\<close> is what \<open>random()\<close> returned.\<close>

definition compute_backoff :: "rat \<Rightarrow> nat \<Rightarrow> int" where
  "compute_backoff u attempt_count = round_half_even (u * exponential_delay attempt_count * 1000000)"

section \<open>The worker\<close>

record poll =
  poll_now :: instant
  poll_locked :: "uuid \<Rightarrow> bool"
  poll_random :: rat

type_synonym 'p dispatcher = "outbox_event \<Rightarrow> ('p, unit) prog"

definition due :: "instant \<Rightarrow> outbox_event \<Rightarrow> bool" where
  "due t e \<longleftrightarrow> ob_status e = OB_PENDING \<and> ob_available_at e \<le> t"

text \<open>\<open>SELECT \<dots> ORDER BY available_at LIMIT 1 FOR UPDATE SKIP LOCKED\<close>.\<close>

definition claim_one :: "poll \<Rightarrow> db \<Rightarrow> outbox_event option" where
  "claim_one w d =
     (case sort_key ob_available_at
             (filter (\<lambda>e. due (poll_now w) e \<and> \<not> poll_locked w (ob_id e)) (outbox_events d)) of
        [] \<Rightarrow> None
      | e # _ \<Rightarrow> Some e)"

definition set_outbox_event :: "uuid \<Rightarrow> (outbox_event \<Rightarrow> outbox_event) \<Rightarrow> db \<Rightarrow> db" where
  "set_outbox_event eid f d =
     d\<lparr>outbox_events := update_where (\<lambda>e. ob_id e = eid) f (outbox_events d)\<rparr>"

text \<open>What the worker makes of an event whose dispatch raised.\<close>

definition failed_event :: "poll \<Rightarrow> string \<Rightarrow> outbox_event \<Rightarrow> outbox_event" where
  "failed_event w reason e =
     (let n = ob_attempt_count e + 1;
          e' = e\<lparr>ob_attempt_count := n, ob_failure_reason := Some (take 500 reason)\<rparr>
      in if n \<ge> MAX_ATTEMPTS then e'\<lparr>ob_status := OB_DEAD_LETTER\<rparr>
         else e'\<lparr>ob_available_at := poll_now w + compute_backoff (poll_random w) n\<rparr>)"

text \<open>Nothing is rolled back when a dispatch raises: what the dispatcher had written commits
  with the event's failure. Only after a failed flush the session refuses the commit.\<close>

definition record_failure :: "(exn \<Rightarrow> string) \<Rightarrow> poll \<Rightarrow> outbox_event \<Rightarrow> exn \<Rightarrow> ('p, outbox_status option) prog" where
  "record_failure exn_text w event exc =
     (case exc of
        IntegrityError _ \<Rightarrow> andthen rollback (raise PendingRollbackError)
      | _ \<Rightarrow>
          (let event' = failed_event w (exn_text exc) event in
           andthen (execute (set_outbox_event (ob_id event) (failed_event w (exn_text exc))))
           (andthen commit
           (ret (Some (ob_status event'))))))"

definition record_success :: "outbox_event \<Rightarrow> ('p, outbox_status option) prog" where
  "record_success event =
     andthen (execute (set_outbox_event (ob_id event) (\<lambda>e. e\<lparr>ob_status := OB_PROCESSED\<rparr>)))
     (andthen commit
     (ret (Some OB_PROCESSED)))"

text \<open>\<open>try: dispatch except \<dots>: \<dots>; return\<close>, then the rest: the success path is outside the
  \<open>try\<close>.\<close>

definition dispatch_event ::
    "(exn \<Rightarrow> string) \<Rightarrow> 'p dispatcher \<Rightarrow> poll \<Rightarrow> outbox_event \<Rightarrow> ('p, outbox_status option) prog" where
  "dispatch_event exn_text dispatch w event s =
     (case dispatch event s of
        (Inl exc, s') \<Rightarrow> record_failure exn_text w event exc s'
      | (Inr _, s') \<Rightarrow> record_success event s')"

definition set_clock :: "instant \<Rightarrow> db \<Rightarrow> db" where
  "set_clock t d = d\<lparr>now := t\<rparr>"

definition process_next ::
    "(exn \<Rightarrow> string) \<Rightarrow> 'p dispatcher \<Rightarrow> poll \<Rightarrow> ('p, outbox_status option) prog" where
  "process_next exn_text dispatch w =
     andthen (execute (set_clock (poll_now w)))
     (bnd (query (claim_one w)) (\<lambda>e.
      case e of
        None \<Rightarrow> andthen commit (ret None)
      | Some event \<Rightarrow> dispatch_event exn_text dispatch w event))"

text \<open>\<open>for _ in range(max_events)\<close>; round \<open>i\<close> reads the poll \<open>ws i\<close>.\<close>

fun batch_rounds ::
    "(exn \<Rightarrow> string) \<Rightarrow> 'p dispatcher \<Rightarrow> (nat \<Rightarrow> poll) \<Rightarrow> nat \<Rightarrow> nat \<Rightarrow> nat \<Rightarrow> ('p, nat) prog" where
  "batch_rounds exn_text dispatch ws i 0 processed = ret processed"
| "batch_rounds exn_text dispatch ws i (Suc rounds) processed =
     bnd (process_next exn_text dispatch (ws i)) (\<lambda>result.
     if result = None then ret processed
     else batch_rounds exn_text dispatch ws (Suc i) rounds (processed + 1))"

definition run_batch ::
    "(exn \<Rightarrow> string) \<Rightarrow> 'p dispatcher \<Rightarrow> (nat \<Rightarrow> poll) \<Rightarrow> nat \<Rightarrow> ('p, nat) prog" where
  "run_batch exn_text dispatch ws max_events = batch_rounds exn_text dispatch ws 0 max_events 0"

definition requeue_dead_letter :: "uuid \<Rightarrow> ('p, bool) prog" where
  "requeue_dead_letter event_id =
     bnd (query (\<lambda>d. select_one (\<lambda>e. ob_id e = event_id) (outbox_events d))) (\<lambda>row.
     case row of
       None \<Rightarrow> ret False
     | Some event \<Rightarrow>
         if ob_status event \<noteq> OB_DEAD_LETTER then ret False
         else
           andthen (execute (\<lambda>d. set_outbox_event event_id (\<lambda>e. e\<lparr>ob_status := OB_PENDING,
              ob_attempt_count := 0, ob_available_at := now d, ob_failure_reason := None\<rparr>) d))
           (andthen commit
           (ret True)))"

section \<open>Dispatchers\<close>

definition logging_dispatch :: "'p dispatcher" where
  "logging_dispatch event = ret ()"

text \<open>\<open>uuid.UUID(event.payload["webhook_event_id"])\<close>.\<close>

definition payload_webhook_id :: "(string \<times> json) list \<Rightarrow> exn + uuid" where
  "payload_webhook_id payload =
     (case dict_get payload ''webhook_event_id'' of
        None \<Rightarrow> Inl KeyError
      | Some (JStr s) \<Rightarrow> (case uuid_of_str s of None \<Rightarrow> Inl ValueError | Some u \<Rightarrow> Inr u)
      | Some JNull \<Rightarrow> Inl TypeError
      | Some _ \<Rightarrow> Inl AttributeError)"

definition webhook_effect_dispatch :: "'p dispatcher" where
  "webhook_effect_dispatch event =
     andthen (logging_dispatch event)
     (if ob_event_type event \<noteq> ''webhook.received'' then ret ()
      else bnd (lift_result (payload_webhook_id (ob_payload event))) apply_webhook_event)"

section \<open>The worker's poll\<close>

definition BATCH_SIZE :: nat where "BATCH_SIZE = 50"

definition backlog :: "db \<Rightarrow> nat" where
  "backlog d = select_count (\<lambda>e. ob_status e = OB_PENDING) (outbox_events d)"

text \<open>One turn of \<open>run_worker_loop\<close>: a session of its own, the backlog gauge, one batch. The
  result is the gauge and how many events were processed.\<close>

definition worker_turn ::
    "(exn \<Rightarrow> string) \<Rightarrow> (nat \<Rightarrow> poll) \<Rightarrow> db \<Rightarrow> 'p \<Rightarrow> (exn + (nat \<times> nat)) \<times> 'p session" where
  "worker_turn exn_text ws d p =
     bnd (query backlog) (\<lambda>b.
     bnd (run_batch exn_text webhook_effect_dispatch ws BATCH_SIZE) (\<lambda>processed.
     ret (b, processed))) (open_session d p)"

section \<open>Backoff is bounded\<close>

lemma round_half_even_bounds: "\<lfloor>x\<rfloor> \<le> round_half_even x" "round_half_even x \<le> \<lceil>x\<rceil>"
proof -
  have "x - of_int \<lfloor>x\<rfloor> > 0 \<Longrightarrow> \<lceil>x\<rceil> = \<lfloor>x\<rfloor> + 1"
    by (metis ceiling_altdef less_iff_diff_less_0 diff_gt_0_iff_gt less_irrefl)
  then show "\<lfloor>x\<rfloor> \<le> round_half_even x" "round_half_even x \<le> \<lceil>x\<rceil>"
    by (auto simp: round_half_even_def Let_def floor_le_ceiling)
qed

lemma exponential_delay_cap: "0 < exponential_delay n" "exponential_delay n \<le> 300"
  by (auto simp: exponential_delay_def MAX_DELAY_SECONDS_def BASE_DELAY_SECONDS_def)

lemma compute_backoff_nonneg: "0 \<le> u \<Longrightarrow> 0 \<le> compute_backoff u n"
proof -
  assume "0 \<le> u"
  then have "0 \<le> u * exponential_delay n * 1000000"
    using exponential_delay_cap(1) [of n] by simp
  then have "0 \<le> \<lfloor>u * exponential_delay n * 1000000\<rfloor>" by simp
  then show ?thesis unfolding compute_backoff_def by (rule order_trans) (rule round_half_even_bounds)
qed

lemma compute_backoff_le: "0 \<le> u \<Longrightarrow> u \<le> 1 \<Longrightarrow> compute_backoff u n \<le> seconds (2 ^ (n - 1))"
proof -
  assume u: "0 \<le> u" "u \<le> 1"
  have "exponential_delay n \<le> 2 ^ (n - 1)"
    by (simp add: exponential_delay_def BASE_DELAY_SECONDS_def)
  moreover have "u * exponential_delay n \<le> 1 * exponential_delay n"
    using u exponential_delay_cap(1) [of n] by (intro mult_right_mono) auto
  ultimately have "u * exponential_delay n * 1000000 \<le> of_int (seconds (2 ^ (n - 1)))"
    by (simp add: seconds_def)
  then have "\<lceil>u * exponential_delay n * 1000000\<rceil> \<le> seconds (2 ^ (n - 1))"
    by (simp add: ceiling_le_iff)
  then show ?thesis
    unfolding compute_backoff_def by (rule order_trans [OF round_half_even_bounds(2)])
qed

lemma compute_backoff_cap: "0 \<le> u \<Longrightarrow> u \<le> 1 \<Longrightarrow> compute_backoff u n \<le> seconds 300"
proof -
  assume u: "0 \<le> u" "u \<le> 1"
  have "u * exponential_delay n \<le> 1 * 300"
    using u exponential_delay_cap [of n] by (intro mult_mono) auto
  then have "\<lceil>u * exponential_delay n * 1000000\<rceil> \<le> seconds 300"
    by (simp add: ceiling_le_iff seconds_def)
  then show ?thesis
    unfolding compute_backoff_def by (rule order_trans [OF round_half_even_bounds(2)])
qed

section \<open>The contract between worker and dispatcher\<close>

definition new_event :: "outbox_event \<Rightarrow> bool" where
  "new_event e \<longleftrightarrow> ob_status e = OB_PENDING \<and> ob_attempt_count e = 0"

text \<open>A dispatcher works inside the worker's transaction: it commits nothing and touches no
  outbox row, it only adds new ones with fresh identifiers.\<close>

definition emits :: "db \<Rightarrow> outbox_event list \<Rightarrow> 'p session \<Rightarrow> bool" where
  "emits c es s \<longleftrightarrow>
     committed s = c \<and>
     (\<exists>new. outbox_events (working s) = es @ new \<and> (\<forall>e \<in> set new. new_event e)) \<and>
     fresh_ids ob_id (outbox_events (working s)) (next_uuid (working s))"

text \<open>An event's attempts against its status.\<close>

definition attempts_ok :: "outbox_event \<Rightarrow> bool" where
  "attempts_ok e \<longleftrightarrow>
     (ob_status e = OB_PENDING \<longrightarrow> ob_attempt_count e < MAX_ATTEMPTS) \<and>
     (ob_status e = OB_DEAD_LETTER \<longrightarrow> ob_attempt_count e = MAX_ATTEMPTS) \<and>
     ob_status e \<noteq> OB_PROCESSING"

definition outbox_wf :: "db \<Rightarrow> bool" where
  "outbox_wf d \<longleftrightarrow> fresh_ids ob_id (outbox_events d) (next_uuid d) \<and>
     (\<forall>e \<in> set (outbox_events d). attempts_ok e)"

lemma claim_one_Some:
  assumes "claim_one w d = Some e"
  shows "e \<in> set (outbox_events d)" and "due (poll_now w) e" and "\<not> poll_locked w (ob_id e)"
    and "\<And>e'. e' \<in> set (outbox_events d) \<Longrightarrow> due (poll_now w) e' \<Longrightarrow> \<not> poll_locked w (ob_id e') \<Longrightarrow>
           ob_available_at e \<le> ob_available_at e'"
proof -
  let ?p = "\<lambda>e. due (poll_now w) e \<and> \<not> poll_locked w (ob_id e)"
  from assms obtain es where es: "sort_key ob_available_at (filter ?p (outbox_events d)) = e # es"
    by (auto simp: claim_one_def split: list.splits)
  then have "set (e # es) = set (filter ?p (outbox_events d))" by (metis set_sort)
  then show "e \<in> set (outbox_events d)" "due (poll_now w) e" "\<not> poll_locked w (ob_id e)" by auto
  fix e' assume "e' \<in> set (outbox_events d)" "due (poll_now w) e'" "\<not> poll_locked w (ob_id e')"
  with \<open>set (e # es) = _\<close> have "e' \<in> set (e # es)" by auto
  moreover have "sorted (map ob_available_at (e # es))" using es by (metis sorted_sort_key)
  ultimately show "ob_available_at e \<le> ob_available_at e'" by auto
qed

lemma claim_one_None:
  "claim_one w d = None \<longleftrightarrow>
     (\<forall>e \<in> set (outbox_events d). due (poll_now w) e \<longrightarrow> poll_locked w (ob_id e))"
proof -
  let ?es = "filter (\<lambda>e. due (poll_now w) e \<and> \<not> poll_locked w (ob_id e)) (outbox_events d)"
  have "claim_one w d = None \<longleftrightarrow> sort_key ob_available_at ?es = []"
    by (simp add: claim_one_def split: list.splits)
  also have "\<dots> \<longleftrightarrow> length (sort_key ob_available_at ?es) = 0" by (simp only: length_0_conv)
  also have "\<dots> \<longleftrightarrow> ?es = []" by (simp only: length_sort length_0_conv)
  finally show ?thesis by (auto simp: filter_empty_conv)
qed

lemma claim_one_clock [simp]: "claim_one w (d\<lparr>now := t\<rparr>) = claim_one w d"
  by (simp add: claim_one_def)

lemma failed_event_frame [simp]: "ob_id (failed_event w r e) = ob_id e"
  by (simp add: failed_event_def Let_def)

lemma failed_event_attempts:
  "attempts_ok e \<Longrightarrow> ob_status e = OB_PENDING \<Longrightarrow> attempts_ok (failed_event w r e)"
  by (auto simp: attempts_ok_def failed_event_def Let_def MAX_ATTEMPTS_def)

lemma processed_attempts: "attempts_ok e \<Longrightarrow> attempts_ok (e\<lparr>ob_status := OB_PROCESSED\<rparr>)"
  by (simp add: attempts_ok_def)

lemma new_event_attempts: "new_event e \<Longrightarrow> attempts_ok e"
  by (simp add: new_event_def attempts_ok_def MAX_ATTEMPTS_def)

lemma set_outbox_event_wf:
  assumes wf: "outbox_wf d" and e: "e \<in> set (outbox_events d)"
    and f: "\<And>x. ob_id (f x) = ob_id x" "attempts_ok (f e)"
  shows "outbox_wf (set_outbox_event (ob_id e) f d)"
proof -
  have "x = e" if "x \<in> set (outbox_events d)" "ob_id x = ob_id e" for x
    using wf that e unfolding outbox_wf_def fresh_ids_def by (metis distinct_map_inj_row)
  with wf f show ?thesis
    by (auto simp: outbox_wf_def set_outbox_event_def fresh_ids_update set_update_where)
qed

text \<open>What a round may do to the rows it sees: every row that was not pending is still there,
  unchanged.\<close>

definition settled_kept :: "db \<Rightarrow> db \<Rightarrow> bool" where
  "settled_kept d d' \<longleftrightarrow>
     (\<forall>e \<in> set (outbox_events d). ob_status e \<noteq> OB_PENDING \<longrightarrow> e \<in> set (outbox_events d'))"

lemma set_outbox_event_keeps_settled:
  assumes "outbox_wf d" and "e \<in> set (outbox_events d)" and "ob_status e = OB_PENDING"
  shows "settled_kept d (set_outbox_event (ob_id e) f d)"
proof -
  have "x = e" if "x \<in> set (outbox_events d)" "ob_id x = ob_id e" for x
    using assms that unfolding outbox_wf_def fresh_ids_def by (metis distinct_map_inj_row)
  with assms show ?thesis
    by (auto simp: settled_kept_def set_outbox_event_def set_update_where image_iff)
qed

locale outbox_consumer =
  fixes dispatch :: "'p dispatcher"
  assumes dispatch_emits: "keeps (emits c es) (dispatch e)"
begin

lemma dispatch_wf:
  assumes "outbox_wf (working s)" and "dispatch e s = (r, s')"
  shows "outbox_wf (working s')" and "committed s' = committed s"
    and "\<exists>new. outbox_events (working s') = outbox_events (working s) @ new \<and> (\<forall>n \<in> set new. new_event n)"
proof -
  have "emits (committed s) (outbox_events (working s)) s"
    using assms(1) by (auto simp: emits_def outbox_wf_def)
  with assms(2) dispatch_emits have *: "emits (committed s) (outbox_events (working s)) s'"
    by (metis keepsD)
  then show "committed s' = committed s"
    "\<exists>new. outbox_events (working s') = outbox_events (working s) @ new \<and> (\<forall>n \<in> set new. new_event n)"
    by (simp_all add: emits_def)
  with * assms(1) show "outbox_wf (working s')"
    by (auto simp: emits_def outbox_wf_def new_event_attempts)
qed

text \<open>The round in one statement: nothing is due and nothing changes; or one due event, the
  longest due, is dispatched and its row rewritten in the transaction of the dispatch; or the
  dispatch broke the transaction and nothing is kept.\<close>

lemma process_next_cases:
  assumes "process_next exn_text dispatch w s = (r, s')"
  obtains (idle) "claim_one w (working s) = None" and "r = Inr None"
      and "outbox_events (working s') = outbox_events (working s)" and "next_uuid (working s') = next_uuid (working s)"
      and "committed s' = working s'"
  | (processed) e s1 where "claim_one w (working s) = Some e"
      and "dispatch e (s\<lparr>working := set_clock (poll_now w) (working s)\<rparr>) = (Inr (), s1)"
      and "r = Inr (Some OB_PROCESSED)"
      and "working s' = set_outbox_event (ob_id e) (\<lambda>x. x\<lparr>ob_status := OB_PROCESSED\<rparr>) (working s1)"
      and "committed s' = working s'"
  | (failed) e exc s1 where "claim_one w (working s) = Some e"
      and "dispatch e (s\<lparr>working := set_clock (poll_now w) (working s)\<rparr>) = (Inl exc, s1)"
      and "r = Inr (Some (ob_status (failed_event w (exn_text exc) e)))"
      and "working s' = set_outbox_event (ob_id e) (failed_event w (exn_text exc)) (working s1)"
      and "committed s' = working s'"
  | (broken) e exc s1 where "claim_one w (working s) = Some e"
      and "dispatch e (s\<lparr>working := set_clock (poll_now w) (working s)\<rparr>) = (Inl exc, s1)"
      and "r = Inl PendingRollbackError" and "working s' = committed s1" and "committed s' = committed s1"
proof -
  let ?s = "s\<lparr>working := set_clock (poll_now w) (working s)\<rparr>"
  show thesis
  proof (cases "claim_one w (working s)")
    case None
    with assms show ?thesis
      by (intro idle) (auto simp: process_next_def prog_defs set_clock_def)
  next
    case (Some e)
    with assms have run: "dispatch_event exn_text dispatch w e ?s = (r, s')"
      by (simp add: process_next_def prog_defs set_clock_def)
    show ?thesis
    proof (cases "dispatch e ?s")
      case (Pair res s1)
      show ?thesis
      proof (cases res)
        case (Inr u)
        with Pair run Some show ?thesis
          by (intro processed) (auto simp: dispatch_event_def record_success_def prog_defs)
      next
        case (Inl exc)
        show ?thesis
        proof (cases "\<exists>c. exc = IntegrityError c")
          case True
          with Pair Inl run Some show ?thesis
            by (intro broken [of e exc s1]) (auto simp: dispatch_event_def record_failure_def prog_defs)
        next
          case False
          then have "record_failure exn_text w e exc s1 =
             andthen (execute (set_outbox_event (ob_id e) (failed_event w (exn_text exc))))
               (andthen commit (ret (Some (ob_status (failed_event w (exn_text exc) e))))) s1"
            by (cases exc) (auto simp: record_failure_def Let_def)
          with Pair Inl run Some show ?thesis
            by (intro failed) (auto simp: dispatch_event_def prog_defs Let_def)
        qed
      qed
    qed
  qed
qed

lemma claimed_pending:
  assumes "outbox_wf (working s)" and "claim_one w (working s) = Some e"
    and "dispatch e (s\<lparr>working := set_clock (poll_now w) (working s)\<rparr>) = (r, s1)"
  shows "outbox_wf (working s1)" and "e \<in> set (outbox_events (working s1))"
    and "ob_status e = OB_PENDING" and "attempts_ok e" and "committed s1 = committed s"
    and "settled_kept (working s) (working s1)"
proof -
  let ?s = "s\<lparr>working := set_clock (poll_now w) (working s)\<rparr>"
  have wf: "outbox_wf (working ?s)" using assms(1) by (simp add: outbox_wf_def set_clock_def)
  note d = dispatch_wf [OF wf assms(3)]
  from d(3) have sub: "set (outbox_events (working s)) \<subseteq> set (outbox_events (working s1))"
    by (auto simp: set_clock_def)
  with claim_one_Some(1) [OF assms(2)] show "e \<in> set (outbox_events (working s1))" by blast
  from sub show "settled_kept (working s) (working s1)" by (auto simp: settled_kept_def)
  from assms(1) claim_one_Some(1) [OF assms(2)] show "attempts_ok e" by (auto simp: outbox_wf_def)
  from claim_one_Some(2) [OF assms(2)] show "ob_status e = OB_PENDING" by (simp add: due_def)
  from d show "outbox_wf (working s1)" "committed s1 = committed s" by simp_all
qed

lemma settled_kept_trans: "settled_kept d d1 \<Longrightarrow> settled_kept d1 d2 \<Longrightarrow> settled_kept d d2"
  by (auto simp: settled_kept_def)

lemma process_next_wf: "keeps (stored outbox_wf) (process_next exn_text dispatch w)"
proof
  fix s :: "'p session" assume I: "stored outbox_wf s"
  obtain r s' where run: "process_next exn_text dispatch w s = (r, s')" by force
  from I have wf: "outbox_wf (working s)" "outbox_wf (committed s)" by (simp_all add: stored_def)
  from run have "stored outbox_wf s'"
  proof (cases rule: process_next_cases)
    case idle
    with wf show ?thesis by (simp add: stored_def outbox_wf_def)
  next
    case (processed e s1)
    note c = claimed_pending [OF wf(1) processed(1,2)]
    have "outbox_wf (working s')"
      unfolding processed by (rule set_outbox_event_wf [OF c(1,2)]) (simp_all add: c processed_attempts)
    with processed show ?thesis by (simp add: stored_def)
  next
    case (failed e exc s1)
    note c = claimed_pending [OF wf(1) failed(1,2)]
    have "outbox_wf (working s')"
      unfolding failed by (rule set_outbox_event_wf [OF c(1,2)]) (simp_all add: c failed_event_attempts)
    with failed show ?thesis by (simp add: stored_def)
  next
    case (broken e exc s1)
    with wf claimed_pending(5) [OF wf(1) broken(1,2)] show ?thesis by (simp add: stored_def)
  qed
  with run show "stored outbox_wf (snd (process_next exn_text dispatch w s))" by simp
qed

text \<open>An event that is no longer pending keeps its row, so it is never dispatched again.\<close>

lemma process_next_settled:
  assumes I: "outbox_wf (working s)" and same: "committed s = working s"
    and run: "process_next exn_text dispatch w s = (r, s')"
  shows "settled_kept (working s) (working s')" and "committed s' = working s'"
proof -
  from run have "settled_kept (working s) (working s') \<and> committed s' = working s'"
  proof (cases rule: process_next_cases)
    case idle
    then show ?thesis by (simp add: settled_kept_def)
  next
    case (processed e s1)
    note c = claimed_pending [OF I processed(1,2)]
    from c have "settled_kept (working s1) (working s')"
      unfolding processed by (intro set_outbox_event_keeps_settled)
    with c processed show ?thesis by (auto intro: settled_kept_trans)
  next
    case (failed e exc s1)
    note c = claimed_pending [OF I failed(1,2)]
    from c have "settled_kept (working s1) (working s')"
      unfolding failed by (intro set_outbox_event_keeps_settled)
    with c failed show ?thesis by (auto intro: settled_kept_trans)
  next
    case (broken e exc s1)
    with same claimed_pending(5) [OF I broken(1,2)] show ?thesis by (simp add: settled_kept_def)
  qed
  then show "settled_kept (working s) (working s')" "committed s' = working s'" by simp_all
qed

lemma batch_settled:
  "outbox_wf (working s) \<Longrightarrow> committed s = working s \<Longrightarrow>
     batch_rounds exn_text dispatch ws i n k s = (r, s') \<Longrightarrow>
     settled_kept (working s) (working s') \<and> outbox_wf (working s') \<and> committed s' = working s'"
proof (induction n arbitrary: i k s)
  case (Suc n)
  obtain q s1 where run: "process_next exn_text dispatch (ws i) s = (q, s1)" by force
  note kept = process_next_settled [OF Suc.prems(1,2) run]
  have wf1: "outbox_wf (working s1)"
    using keepsD [OF process_next_wf _ run] Suc.prems(1,2) by (simp add: stored_def)
  show ?case
  proof (cases "\<exists>x. q = Inr (Some x)")
    case True
    then obtain x where "q = Inr (Some x)" by blast
    with Suc.prems(3) run have "batch_rounds exn_text dispatch ws (Suc i) n (k + 1) s1 = (r, s')"
      by (simp add: bnd_def)
    with Suc.IH [OF wf1 kept(2)] kept(1) show ?thesis by (blast intro: settled_kept_trans)
  next
    case False
    then have "q = Inr None \<or> (\<exists>e. q = Inl e)" by (metis sum.exhaust option.exhaust)
    with Suc.prems(3) run have "s' = s1" by (auto simp: bnd_def ret_def)
    with kept wf1 show ?thesis by simp
  qed
qed (auto simp: ret_def settled_kept_def)

end

section \<open>Both dispatchers keep the contract\<close>

lemma emits_execute:
  assumes "\<And>d. \<exists>new. outbox_events (f d) = outbox_events d @ new \<and> (\<forall>e \<in> set new. new_event e) \<and>
             (fresh_ids ob_id (outbox_events d) (next_uuid d) \<longrightarrow>
                fresh_ids ob_id (outbox_events (f d)) (next_uuid (f d)))"
  shows "keeps (emits c es) (execute f)"
proof
  fix s :: "'p session" assume I: "emits c es s"
  from assms [of "working s"] obtain new where
    new: "outbox_events (f (working s)) = outbox_events (working s) @ new" "\<forall>e \<in> set new. new_event e"
    "fresh_ids ob_id (outbox_events (working s)) (next_uuid (working s)) \<Longrightarrow>
       fresh_ids ob_id (outbox_events (f (working s))) (next_uuid (f (working s)))"
    by blast
  with I show "emits c es (snd (execute f s))"
    by (fastforce simp: emits_def execute_def)
qed

lemma emits_lock: "keeps (emits c es) (materialise row)" "keeps (emits c es) (remember i)"
  by (simp_all add: keeps_def emits_def materialise_def remember_def Let_def)

lemma emits_webhook_status: "keeps (emits c es) (set_webhook_status w st)"
  unfolding set_webhook_status_def by (rule emits_execute) simp

lemma emits_transition_rows: "keeps (emits c es) (execute (transition_rows p f t v a e))"
proof (rule emits_execute)
  fix d :: db
  let ?new = "\<lparr>ob_id = Suc (next_uuid d), ob_aggregate_type = ''payment_intent'', ob_aggregate_id = p,
     ob_event_type = e, ob_payload = [(''payment_id'', JStr (uuid_str p)), (''status'', JStr (payment_status_value t))],
     ob_status = OB_PENDING, ob_attempt_count = 0, ob_available_at = now d, ob_failure_reason = None,
     ob_created_at = now d\<rparr>"
  have "outbox_events (transition_rows p f t v a e d) = outbox_events d @ [?new]"
    by (simp add: transition_rows_def insert_outbox_event_def insert_payment_event_def write_transition_def)
  moreover have "next_uuid (transition_rows p f t v a e d) = Suc (Suc (next_uuid d))"
    by (simp add: transition_rows_def insert_outbox_event_def insert_payment_event_def write_transition_def)
  moreover have "fresh_ids ob_id (outbox_events d @ [?new]) (Suc (Suc (next_uuid d)))"
    if "fresh_ids ob_id (outbox_events d) (next_uuid d)"
    using fresh_ids_mono [OF that, of "Suc (next_uuid d)"] by (intro fresh_ids_insert) auto
  ultimately show "\<exists>new. outbox_events (transition_rows p f t v a e d) = outbox_events d @ new \<and>
      (\<forall>e \<in> set new. new_event e) \<and>
      (fresh_ids ob_id (outbox_events d) (next_uuid d) \<longrightarrow>
        fresh_ids ob_id (outbox_events (transition_rows p f t v a e d)) (next_uuid (transition_rows p f t v a e d)))"
    by (intro exI [of _ "[?new]"]) (simp add: new_event_def)
qed

lemma emits_transition: "keeps (emits c es) (apply_transition i t a e)"
  unfolding apply_transition_def Let_def by (intro keeps_rules emits_lock emits_transition_rows)

lemma emits_settled: "keeps (emits c es) (record_payment_settled p amt)"
  by (auto simp: keeps_def emits_def record_payment_settled_def execute_checked_def add_pair_def Let_def
      intro: fresh_ids_mono split: prod.splits)

lemma emits_relock: "keeps (emits c es) (relock p m)"
  unfolding relock_def lock_payment_def by (intro keeps_rules emits_lock)

lemma emits_webhook_effect: "keeps (emits c es) (apply_webhook_event wid)"
  unfolding apply_webhook_event_def handle_payment_outcome_def settle_transaction_def settle_outcome_def
  by (intro keeps_rules keeps_case_JStr emits_webhook_status emits_lock emits_relock emits_transition
      emits_settled)

interpretation log: outbox_consumer logging_dispatch
  by unfold_locales (simp add: logging_dispatch_def keeps_ret)

interpretation effect: outbox_consumer webhook_effect_dispatch
  by unfold_locales
    (auto simp: webhook_effect_dispatch_def logging_dispatch_def intro!: keeps_rules emits_webhook_effect)

section \<open>Invariants of the worker\<close>

lemma keeps_dispatch_event:
  "keeps I (dispatch e) \<Longrightarrow> keeps I (record_success e) \<Longrightarrow> (\<And>exc. keeps I (record_failure exn_text w e exc)) \<Longrightarrow>
   keeps I (dispatch_event exn_text dispatch w e)"
  by (fastforce simp: dispatch_event_def keeps_def split: prod.splits sum.splits)

lemma schema_wf_outbox_row:
  "schema_wf d \<Longrightarrow> (\<And>e. ob_id (f e) = ob_id e) \<Longrightarrow> schema_wf (set_outbox_event eid f d)"
  by (simp add: schema_wf_def set_outbox_event_def keys_wf_def fresh_ids_update)

lemma schema_wf_clock: "schema_wf d \<Longrightarrow> schema_wf (set_clock t d)"
  by (simp add: schema_wf_def set_clock_def keys_wf_def)

text \<open>The worker rewrites outbox rows, but never what an event is about.\<close>

definition same_message :: "(outbox_event \<Rightarrow> outbox_event) \<Rightarrow> bool" where
  "same_message f \<longleftrightarrow> (\<forall>e. ob_id (f e) = ob_id e \<and> ob_aggregate_type (f e) = ob_aggregate_type e \<and>
     ob_aggregate_id (f e) = ob_aggregate_id e \<and> ob_event_type (f e) = ob_event_type e \<and>
     ob_payload (f e) = ob_payload e)"

locale worker_invariant = webhook_invariant J for J +
  assumes J_outbox_row: "J d \<Longrightarrow> same_message f \<Longrightarrow> J (set_outbox_event eid f d)"
    and J_clock: "J d \<Longrightarrow> J (set_clock t d)"
begin

lemma inv_outbox_row:
  "(\<And>d. same_message (f d)) \<Longrightarrow> keeps (inv_with J F) (execute (\<lambda>d. set_outbox_event eid (f d) d))"
  by (rule keeps_inv_execute)
    (auto simp: set_outbox_event_def [THEN arg_cong [of _ _ payment_intents]] same_message_def
      intro!: schema_wf_outbox_row J_outbox_row)

lemma inv_clock: "keeps (inv_with J F) (execute (set_clock t))"
  by (rule keeps_inv_execute) (simp_all add: schema_wf_clock J_clock, simp add: set_clock_def)

lemma inv_dispatch: "keeps (session_inv J) (webhook_effect_dispatch e)"
  unfolding webhook_effect_dispatch_def logging_dispatch_def
  by (intro keeps_rules inv_apply_webhook_event)

lemma inv_record_success: "keeps (session_inv J) (record_success e)"
  unfolding record_success_def
  by (intro keeps_rules keeps_inv_quiet inv_outbox_row [of "\<lambda>_. ob_status_update (\<lambda>_. OB_PROCESSED)"])
    (simp add: same_message_def)

lemma inv_record_failure: "keeps (session_inv J) (record_failure exn_text w e exc)"
proof -
  have "keeps (session_inv J) (execute (set_outbox_event (ob_id e) (failed_event w (exn_text exc))) :: ('p, unit) prog)"
    by (rule inv_outbox_row [of "\<lambda>_. failed_event w (exn_text exc)"])
      (simp add: failed_event_def same_message_def Let_def)
  then show "keeps (session_inv J) (record_failure exn_text w e exc :: ('p, outbox_status option) prog)"
    unfolding record_failure_def
    by (cases exc) (auto intro!: keeps_rules keeps_inv_quiet keeps_inv_rollback)
qed

lemma inv_dispatch_event: "keeps (session_inv J) (dispatch_event exn_text webhook_effect_dispatch w e)"
  by (intro keeps_dispatch_event inv_dispatch inv_record_success inv_record_failure)

lemma inv_process_next: "keeps (session_inv J) (process_next exn_text webhook_effect_dispatch w)"
  unfolding process_next_def by (intro keeps_rules keeps_inv_quiet inv_clock inv_dispatch_event)

lemma inv_batch: "keeps (session_inv J) (batch_rounds exn_text webhook_effect_dispatch ws i n k)"
  by (induction n arbitrary: i k) (auto intro!: keeps_rules inv_process_next)

lemma inv_run_batch: "keeps (session_inv J) (run_batch exn_text webhook_effect_dispatch ws n)"
  unfolding run_batch_def by (rule inv_batch)

lemma inv_requeue: "keeps (session_inv J) (requeue_dead_letter eid)"
  unfolding requeue_dead_letter_def
  by (intro keeps_rules keeps_inv_quiet inv_outbox_row) (simp add: same_message_def)

end

section \<open>The worker as a queue\<close>

text \<open>The abstract queue: the pending events, by the time they become available, each with that
  time.\<close>

definition pending_events :: "db \<Rightarrow> outbox_event list" where
  "pending_events d = sort_key ob_available_at (filter (\<lambda>e. ob_status e = OB_PENDING) (outbox_events d))"

definition outbox_queue :: "db \<Rightarrow> (uuid \<times> instant) list" where
  "outbox_queue d = map (\<lambda>e. (ob_id e, ob_available_at e)) (pending_events d)"

text \<open>Its service: in each round the first one that is available by then and that no other
  worker holds, until a round finds none or the rounds are over.\<close>

definition servable :: "poll \<Rightarrow> uuid \<times> instant \<Rightarrow> bool" where
  "servable w x \<longleftrightarrow> snd x \<le> poll_now w \<and> \<not> poll_locked w (fst x)"

fun serve_queue :: "(nat \<Rightarrow> poll) \<Rightarrow> nat \<Rightarrow> nat \<Rightarrow> (uuid \<times> instant) list \<Rightarrow> uuid list" where
  "serve_queue ws i 0 q = []"
| "serve_queue ws i (Suc rounds) q =
     (case find (servable (ws i)) q of
        None \<Rightarrow> []
      | Some x \<Rightarrow> fst x # serve_queue ws (Suc i) rounds (filter (\<lambda>y. fst y \<noteq> fst x) q))"

text \<open>The rows once the events \<open>taken\<close> are processed.\<close>

definition processed_rows :: "uuid list \<Rightarrow> outbox_event list \<Rightarrow> outbox_event list" where
  "processed_rows taken = map (\<lambda>e. if ob_id e \<in> set taken then e\<lparr>ob_status := OB_PROCESSED\<rparr> else e)"

lemma find_filter: "find p xs = (case filter p xs of [] \<Rightarrow> None | x # _ \<Rightarrow> Some x)"
  by (induction xs) auto

lemma claim_one_find: "claim_one w d = find (\<lambda>e. servable w (ob_id e, ob_available_at e)) (pending_events d)"
proof -
  have "filter (\<lambda>e. due (poll_now w) e \<and> \<not> poll_locked w (ob_id e)) (outbox_events d) =
      filter (\<lambda>e. servable w (ob_id e, ob_available_at e)) (filter (\<lambda>e. ob_status e = OB_PENDING) (outbox_events d))"
    by (auto simp: servable_def due_def intro!: filter_cong)
  then show ?thesis by (simp add: claim_one_def pending_events_def find_filter filter_sort)
qed

lemma claim_one_queue:
  "map_option (\<lambda>e. (ob_id e, ob_available_at e)) (claim_one w d) = find (servable w) (outbox_queue d)"
proof -
  have "find p (map g xs) = map_option g (find (\<lambda>x. p (g x)) xs)" for p and g :: "outbox_event \<Rightarrow> uuid \<times> instant" and xs
    by (induction xs) auto
  then show ?thesis by (simp add: claim_one_find outbox_queue_def)
qed

lemma queue_processed:
  "outbox_queue (set_outbox_event i (\<lambda>x. x\<lparr>ob_status := OB_PROCESSED\<rparr>) d) = filter (\<lambda>y. fst y \<noteq> i) (outbox_queue d)"
proof -
  have "filter (\<lambda>e. ob_status e = OB_PENDING) (update_where (\<lambda>x. ob_id x = i) (\<lambda>x. x\<lparr>ob_status := OB_PROCESSED\<rparr>) xs) =
      filter (\<lambda>x. ob_id x \<noteq> i) (filter (\<lambda>e. ob_status e = OB_PENDING) xs)" for xs :: "outbox_event list"
    by (induction xs) auto
  then have "pending_events (set_outbox_event i (\<lambda>x. x\<lparr>ob_status := OB_PROCESSED\<rparr>) d) =
      filter (\<lambda>x. ob_id x \<noteq> i) (pending_events d)"
    by (simp add: pending_events_def set_outbox_event_def filter_sort)
  then show ?thesis by (simp add: outbox_queue_def filter_map comp_def)
qed

lemma rows_processed:
  "outbox_events (set_outbox_event i (\<lambda>x. x\<lparr>ob_status := OB_PROCESSED\<rparr>) d) = processed_rows [i] (outbox_events d)"
  by (simp add: set_outbox_event_def update_where_def processed_rows_def)

lemma processed_rows_Cons: "processed_rows is (processed_rows [i] es) = processed_rows (i # is) es"
  by (simp add: processed_rows_def)

lemma outbox_queue_clock [simp]: "outbox_queue (d\<lparr>now := t\<rparr>) = outbox_queue d"
  by (simp add: outbox_queue_def pending_events_def)

text \<open>What a batch may leave of a database: the rows it took are processed, the clock has moved.\<close>

definition served :: "uuid list \<Rightarrow> db \<Rightarrow> db \<Rightarrow> bool" where
  "served taken d d' \<longleftrightarrow> (\<exists>t. d' = d\<lparr>now := t, outbox_events := processed_rows taken (outbox_events d)\<rparr>)"

lemma processed_rows_Nil [simp]: "processed_rows [] es = es"
  by (simp add: processed_rows_def)

lemma served_refl: "served [] d d"
  unfolding served_def by (rule exI [of _ "now d"]) simp

lemma served_step:
  "served is (set_outbox_event i (\<lambda>x. x\<lparr>ob_status := OB_PROCESSED\<rparr>) (d\<lparr>now := t\<rparr>)) d' \<Longrightarrow> served (i # is) d d'"
  unfolding served_def rows_processed
  by (auto simp: processed_rows_Cons) (auto simp: set_outbox_event_def)

lemma logging_round:
  "process_next exn_text logging_dispatch w s =
     (case claim_one w (working s) of
        None \<Rightarrow> (Inr None, s\<lparr>working := (working s)\<lparr>now := poll_now w\<rparr>, committed := (working s)\<lparr>now := poll_now w\<rparr>\<rparr>)
      | Some e \<Rightarrow>
          (let d' = set_outbox_event (ob_id e) (\<lambda>x. x\<lparr>ob_status := OB_PROCESSED\<rparr>) ((working s)\<lparr>now := poll_now w\<rparr>) in
           (Inr (Some OB_PROCESSED), s\<lparr>working := d', committed := d'\<rparr>)))"
  by (simp add: process_next_def prog_defs dispatch_event_def logging_dispatch_def record_success_def set_clock_def Let_def
      split: option.split)

lemma logging_batch:
  "committed s = working s \<Longrightarrow>
    \<exists>s'. batch_rounds exn_text logging_dispatch ws i n k s = (Inr (k + length (serve_queue ws i n (outbox_queue (working s)))), s') \<and>
      served (serve_queue ws i n (outbox_queue (working s))) (working s) (committed s')"
proof (induction n arbitrary: i k s)
  case 0
  then show ?case by (auto simp: ret_def served_refl)
next
  case (Suc n)
  note q = claim_one_queue [of "ws i" "working s", symmetric]
  show ?case
  proof (cases "claim_one (ws i) (working s)")
    case None
    with q show ?thesis by (auto simp: logging_round bnd_def ret_def served_def)
  next
    case (Some e)
    let ?d = "set_outbox_event (ob_id e) (\<lambda>x. x\<lparr>ob_status := OB_PROCESSED\<rparr>) ((working s)\<lparr>now := poll_now (ws i)\<rparr>)"
    have "outbox_queue ?d = filter (\<lambda>y. fst y \<noteq> ob_id e) (outbox_queue (working s))" by (simp add: queue_processed)
    with Suc.IH [of "s\<lparr>working := ?d, committed := ?d\<rparr>" "Suc i" "k + 1"] q Some show ?thesis
      by (fastforce simp: logging_round bnd_def Let_def dest: served_step)
  qed
qed

section \<open>Properties\<close>

text \<open>C30. With a dispatcher that only logs, a batch of the worker implements the abstract queue,
  whatever the clock says and whichever rows other workers hold in each round: it takes exactly
  what the queue serves, in each round the longest-available event that is due and not held,
  until a round finds none or \<open>max_events\<close> are taken; it returns their number, marks exactly them
  PROCESSED, and commits no other change to any table.\<close>

theorem batch_serves_the_queue:
  "\<exists>s' t. run_batch exn_text logging_dispatch ws max_events (open_session d p) =
      (Inr (length (serve_queue ws 0 max_events (outbox_queue d))), s') \<and>
    committed s' = d\<lparr>now := t, outbox_events :=
      map (\<lambda>e. if ob_id e \<in> set (serve_queue ws 0 max_events (outbox_queue d)) then e\<lparr>ob_status := OB_PROCESSED\<rparr> else e)
        (outbox_events d)\<rparr>"
  using logging_batch [of "open_session d p" exn_text ws 0 max_events 0]
  by (simp add: run_batch_def open_session_def served_def processed_rows_def)

text \<open>Two events, the second of which is available first, and which another worker holds in the
  first round.\<close>

definition demo_outbox :: db where
  "demo_outbox = insert_outbox_event ''a'' 1 ''y'' [] (set_clock 5 (insert_outbox_event ''a'' 0 ''x'' [] (empty_db 9)))"

definition demo_polls :: "nat \<Rightarrow> poll" where
  "demo_polls i = \<lparr>poll_now = 10 + int i, poll_locked = (\<lambda>u. i = 0 \<and> u = 1), poll_random = 0\<rparr>"

theorem batch_serves_the_queue_witness:
  "outbox_queue demo_outbox = [(1, 5), (0, 9)] \<and>
   (\<exists>s'. run_batch (\<lambda>_. []) logging_dispatch demo_polls 1 (open_session demo_outbox ()) = (Inr 1, s') \<and>
     map ob_status (outbox_events (committed s')) = [OB_PROCESSED, OB_PENDING]) \<and>
   serve_queue demo_polls 0 5 (outbox_queue demo_outbox) = [0, 1]"
proof -
  have rows: "map ob_id (outbox_events demo_outbox) = [0, 1]" "map ob_status (outbox_events demo_outbox) = [OB_PENDING, OB_PENDING]"
    by (simp_all add: demo_outbox_def insert_outbox_event_def empty_db_def set_clock_def Let_def)
  have q: "outbox_queue demo_outbox = [(1, 5), (0, 9)]"
    by (simp add: demo_outbox_def outbox_queue_def pending_events_def insert_outbox_event_def empty_db_def set_clock_def Let_def)
  moreover have "serve_queue demo_polls 0 1 [(1, 5), (0, 9)] = [0]" "serve_queue demo_polls 0 5 [(1, 5), (0, 9)] = [0, 1]"
    by (simp_all add: demo_polls_def servable_def numeral_eq_Suc)
  ultimately show ?thesis
    using batch_serves_the_queue [of "\<lambda>_. []" demo_polls 1 demo_outbox "()"] rows by (auto simp: map_eq_Cons_conv)
qed

text \<open>A batch of the real worker, with the dispatcher that applies webhooks, keeps the retry
  bookkeeping right whatever fails: pending events have fewer than eight attempts, dead letters
  exactly eight, no identifier repeats, and an event that was processed or dead-lettered before
  is left as it is, never dispatched again.\<close>

theorem batch_keeps_outbox_bookkeeping:
  assumes "outbox_wf d" and "run_batch exn_text webhook_effect_dispatch ws max_events (open_session d p) = (r, s')"
  shows "outbox_wf (committed s') \<and> settled_kept d (committed s')"
  using effect.batch_settled [of "open_session d p" exn_text ws 0 max_events 0 r s'] assms
  by (simp add: run_batch_def open_session_def)

theorem batch_keeps_outbox_bookkeeping_witness:
  "outbox_wf (committed (snd (run_batch (\<lambda>_. []) webhook_effect_dispatch
     (\<lambda>_. \<lparr>poll_now = 10, poll_locked = \<lambda>_. False, poll_random = 0\<rparr>) 50 (open_session demo_outbox ()))))"
proof -
  have "outbox_wf demo_outbox"
    by (simp add: demo_outbox_def outbox_wf_def attempts_ok_def MAX_ATTEMPTS_def fresh_ids_def insert_outbox_event_def
        empty_db_def set_clock_def Let_def)
  then show ?thesis by (rule batch_keeps_outbox_bookkeeping [OF _ prod.collapse [symmetric], THEN conjunct1])
qed

text \<open>An event whose dispatch keeps failing is retried and not lost: after \<open>n\<close> failures it has
  \<open>n\<close> attempts, it stays pending through the seventh and is a dead letter from the eighth on,
  and each retry is put off by at most five minutes.\<close>

theorem eighth_failure_dead_letters:
  assumes "new_event e" and "length fails \<le> MAX_ATTEMPTS"
  shows "ob_attempt_count (fold (\<lambda>(w, reason). failed_event w reason) fails e) = length fails \<and>
    ob_status (fold (\<lambda>(w, reason). failed_event w reason) fails e) =
      (if length fails = MAX_ATTEMPTS then OB_DEAD_LETTER else OB_PENDING)"
  using assms
proof (induction fails rule: rev_induct)
  case (snoc x fails)
  then show ?case by (cases x) (auto simp: failed_event_def Let_def MAX_ATTEMPTS_def)
qed (simp add: new_event_def MAX_ATTEMPTS_def)

theorem eighth_failure_dead_letters_witness:
  "ob_status (fold (\<lambda>(w, reason). failed_event w reason)
     (replicate 8 (\<lparr>poll_now = 0, poll_locked = \<lambda>_. False, poll_random = 0\<rparr>, ''boom'')) (hd (outbox_events demo_outbox))) = OB_DEAD_LETTER"
  using eighth_failure_dead_letters [of "hd (outbox_events demo_outbox)" "replicate 8 (\<lparr>poll_now = 0, poll_locked = \<lambda>_. False, poll_random = 0\<rparr>, ''boom'')"]
  by (simp add: MAX_ATTEMPTS_def) (simp add: new_event_def demo_outbox_def insert_outbox_event_def empty_db_def set_clock_def Let_def)

text \<open>The backoff after \<open>n\<close> attempts is never negative, never above \<open>2 ^ (n - 1)\<close> seconds
  and never above five minutes, wherever \<open>random()\<close> falls.\<close>

theorem backoff_bounds:
  assumes "0 \<le> u" and "u \<le> 1"
  shows "0 \<le> compute_backoff u n \<and> compute_backoff u n \<le> seconds (2 ^ (n - 1)) \<and> compute_backoff u n \<le> seconds 300"
  using assms compute_backoff_nonneg compute_backoff_le compute_backoff_cap by blast

theorem backoff_bounds_witness: "compute_backoff (1 / 2) 20 \<le> seconds 300"
  using backoff_bounds [of "1 / 2" 20] by simp

text \<open>An operator's requeue revives exactly dead letters: such an event becomes pending, due
  now, with no attempts and no failure reason, and nothing else in the database changes; for any
  other identifier the answer is false and nothing changes at all.\<close>

theorem requeue_revives_dead_letters:
  "requeue_dead_letter eid (open_session d p :: 'p session) =
     (case select_one (\<lambda>e. ob_id e = eid) (outbox_events d) of
        Some e \<Rightarrow>
          if ob_status e = OB_DEAD_LETTER
          then (Inr True, open_session (set_outbox_event eid (\<lambda>x. x\<lparr>ob_status := OB_PENDING, ob_attempt_count := 0,
                  ob_available_at := now d, ob_failure_reason := None\<rparr>) d) p)
          else (Inr False, open_session d p)
      | None \<Rightarrow> (Inr False, open_session d p))"
  by (auto simp: requeue_dead_letter_def prog_defs open_session_def split: option.splits)

text \<open>The identifier \<open>receive_webhook\<close> writes into its outbox message is the one the dispatcher
  reads back, for every 128-bit identifier.\<close>

theorem webhook_id_round_trip:
  assumes "u < 2 ^ 128"
  shows "payload_webhook_id [(''webhook_event_id'', JStr (uuid_str u))] = Inr u"
  using uuid_of_str_uuid_str [OF assms] by (simp add: payload_webhook_id_def dict_get_def)

theorem webhook_id_round_trip_witness: "payload_webhook_id [(''webhook_event_id'', JStr (uuid_str 20))] = Inr 20"
  by (rule webhook_id_round_trip) simp

end
