(* ===== verification/Reconciliation.thy ===== *)
theory Reconciliation
  imports Outbox
begin

text \<open>
  The reconciliation engine (\<open>packages/reconciliation/service.py\<close>): which payments need it, the
  question to the provider, what the answer does to the payment, and the report every call
  leaves. The lemmas show that a call that returns leaves exactly one report, that only an
  UNKNOWN payment is touched, and that a provider whose amount or currency disagrees changes
  nothing but the reports.
\<close>

section \<open>Reports\<close>

fun reconciliation_result_value :: "reconciliation_result \<Rightarrow> string" where
  "reconciliation_result_value MATCHED = ''MATCHED''"
| "reconciliation_result_value RESOLVED_SUCCEEDED = ''RESOLVED_SUCCEEDED''"
| "reconciliation_result_value RESOLVED_FAILED = ''RESOLVED_FAILED''"
| "reconciliation_result_value RR_STILL_UNKNOWN = ''STILL_UNKNOWN''"
| "reconciliation_result_value MISSING_PROVIDER_TRANSACTION = ''MISSING_PROVIDER_TRANSACTION''"
| "reconciliation_result_value MISSING_INTERNAL_TRANSACTION = ''MISSING_INTERNAL_TRANSACTION''"
| "reconciliation_result_value AMOUNT_MISMATCH = ''AMOUNT_MISMATCH''"
| "reconciliation_result_value CURRENCY_MISMATCH = ''CURRENCY_MISMATCH''"

definition serialize_reconciliation_report :: "reconciliation_report \<Rightarrow> (string \<times> json) list" where
  "serialize_reconciliation_report report =
     [(''id'', JStr (uuid_str (rr_id report))),
      (''payment_id'', JStr (uuid_str (rr_payment_intent_id report))),
      (''result'', JStr (reconciliation_result_value (rr_result report))),
      (''internal_status'', JStr (payment_status_value (rr_internal_status report))),
      (''provider_status'', opt_str (rr_provider_status report)),
      (''details'', JObj (rr_details report)),
      (''created_at'', JTime (rr_created_at report))]"

definition insert_report ::
    "uuid \<Rightarrow> reconciliation_result \<Rightarrow> payment_status \<Rightarrow> string option \<Rightarrow> (string \<times> json) list \<Rightarrow> db
     \<Rightarrow> reconciliation_report \<times> db" where
  "insert_report payment_id result internal_status provider_status details d =
     (let row = \<lparr>rr_id = next_uuid d, rr_payment_intent_id = payment_id, rr_result = result,
                 rr_internal_status = internal_status, rr_provider_status = provider_status,
                 rr_details = details, rr_created_at = now d\<rparr>
      in (row, d\<lparr>next_uuid := Suc (next_uuid d),
                 reconciliation_reports := reconciliation_reports d @ [row]\<rparr>))"

definition write_report ::
    "uuid \<Rightarrow> reconciliation_result \<Rightarrow> payment_status \<Rightarrow> string option \<Rightarrow> (string \<times> json) list
     \<Rightarrow> ('p, reconciliation_report) prog" where
  "write_report payment_id result internal_status provider_status details =
     bnd (execute_returning (insert_report payment_id result internal_status provider_status details)) (\<lambda>report.
     andthen commit
     (ret report))"

section \<open>One payment\<close>

text \<open>The key of the earliest claim that names the payment.\<close>

definition original_idempotency_key :: "uuid \<Rightarrow> db \<Rightarrow> string option" where
  "original_idempotency_key payment_id d =
     (case sort_key ik_created_at
             (filter (\<lambda>k. ik_payment_intent_id k = Some payment_id) (idempotency_keys d)) of
        [] \<Rightarrow> None
      | k # _ \<Rightarrow> Some (ik_idempotency_key k))"

definition next_attempt_number :: "uuid \<Rightarrow> db \<Rightarrow> int" where
  "next_attempt_number payment_id d = int (attempt_count_of payment_id d) + 1"

text \<open>Python's \<open>!=\<close> between a JSON value and an integer (True and False equal 1 and 0), and
  between a JSON value and a text.\<close>

fun json_is_int :: "json \<Rightarrow> int \<Rightarrow> bool" where
  "json_is_int (JInt i) n = (i = n)"
| "json_is_int (JBool b) n = (n = (if b then 1 else 0))"
| "json_is_int _ n = False"

fun json_is_str :: "json \<Rightarrow> string \<Rightarrow> bool" where
  "json_is_str (JStr s) t = (s = t)"
| "json_is_str _ t = False"

text \<open>\<open>reported is not None and reported != own\<close>; the reported value when it disagrees.\<close>

definition reported :: "(string \<times> json) list \<Rightarrow> string \<Rightarrow> json option" where
  "reported raw_response k = (case dict_get raw_response k of Some JNull \<Rightarrow> None | r \<Rightarrow> r)"

definition amount_mismatch :: "provider_result \<Rightarrow> payment_intent \<Rightarrow> json option" where
  "amount_mismatch result intent =
     (case reported (pr_raw_response result) ''amount_minor'' of
        None \<Rightarrow> None
      | Some j \<Rightarrow> if json_is_int j (pi_amount_minor intent) then None else Some j)"

definition currency_mismatch :: "provider_result \<Rightarrow> payment_intent \<Rightarrow> json option" where
  "currency_mismatch result intent =
     (case reported (pr_raw_response result) ''currency'' of
        None \<Rightarrow> None
      | Some j \<Rightarrow> if json_is_str j (pi_currency intent) then None else Some j)"

text \<open>The provider says the payment went through.\<close>

definition resolve_succeeded ::
    "string \<Rightarrow> provider_result \<Rightarrow> payment_intent \<Rightarrow> int \<Rightarrow> ('p, payment_intent) prog" where
  "resolve_succeeded provider_name result intent attempt_number =
     bnd (execute_checked (insert_payment_attempt (pi_id intent) provider_name PO_SUCCEEDED None
            attempt_number)) (\<lambda>attempt.
     andthen
       (case pr_provider_transaction_id result of
          None \<Rightarrow> ret ()
        | Some ptx \<Rightarrow> execute_checked (insert_provider_transaction (pa_id attempt) provider_name ptx
                        (pr_raw_status result) (pr_raw_response result)))
     (bnd (apply_transition intent SUCCEEDED RECONCILIATION ''reconciliation.resolved_succeeded'') (\<lambda>intent.
     andthen (record_payment_settled (pi_id intent) (pi_amount_minor intent))
     (ret intent))))"

text \<open>The provider says it did not.\<close>

definition resolve_failed ::
    "string \<Rightarrow> provider_result \<Rightarrow> payment_intent \<Rightarrow> int \<Rightarrow> ('p, payment_intent) prog" where
  "resolve_failed provider_name result intent attempt_number =
     bnd (execute_checked (insert_payment_attempt (pi_id intent) provider_name (pr_outcome result)
            (Some (if pr_outcome result = PO_DECLINED then PERMANENT else FC_UNKNOWN))
            attempt_number)) (\<lambda>_.
     apply_transition intent FAILED RECONCILIATION ''reconciliation.resolved_failed'')"

text \<open>From the second lock on: the provider's answer is applied.\<close>

definition apply_answer ::
    "string \<Rightarrow> provider_result \<Rightarrow> payment_intent \<Rightarrow> ('p, reconciliation_report) prog" where
  "apply_answer provider_name result intent =
     (if pi_status intent \<noteq> UNKNOWN then
        andthen commit
        (write_report (pi_id intent) MATCHED (pi_status intent) (Some (pr_raw_status result))
          [(''note'', JStr ''resolved by another path while awaiting the provider's answer'')])
      else if pr_outcome result = PO_UNKNOWN then
        bnd (apply_transition intent UNKNOWN RECONCILIATION ''reconciliation.still_unknown'') (\<lambda>intent.
        andthen commit
        (write_report (pi_id intent) RR_STILL_UNKNOWN UNKNOWN (Some (pr_raw_status result)) []))
      else
        (case amount_mismatch result intent of
           Some reported_amount \<Rightarrow>
             andthen (inc ''reconciliation_mismatches_total:AMOUNT_MISMATCH'')
             (andthen commit
             (write_report (pi_id intent) AMOUNT_MISMATCH UNKNOWN (Some (pr_raw_status result))
               [(''internal_amount_minor'', JInt (pi_amount_minor intent)),
                (''provider_amount_minor'', reported_amount)]))
         | None \<Rightarrow>
             (case currency_mismatch result intent of
                Some reported_currency \<Rightarrow>
                  andthen (inc ''reconciliation_mismatches_total:CURRENCY_MISMATCH'')
                  (andthen commit
                  (write_report (pi_id intent) CURRENCY_MISMATCH UNKNOWN (Some (pr_raw_status result))
                    [(''internal_currency'', JStr (pi_currency intent)),
                     (''provider_currency'', reported_currency)]))
              | None \<Rightarrow>
                  bnd (query (next_attempt_number (pi_id intent))) (\<lambda>attempt_number.
                  bnd (if pr_outcome result = PO_SUCCEEDED
                       then resolve_succeeded provider_name result intent attempt_number
                       else resolve_failed provider_name result intent attempt_number) (\<lambda>intent.
                  andthen commit
                  (write_report (pi_id intent)
                    (if pr_outcome result = PO_SUCCEEDED then RESOLVED_SUCCEEDED else RESOLVED_FAILED)
                    UNKNOWN (Some (pr_raw_status result))
                    [(''provider_transaction_id'', opt_str (pr_provider_transaction_id result))]))))))"

definition reconcile_payment ::
    "uuid \<Rightarrow> uuid \<Rightarrow> 'p provider \<Rightarrow> ('p, reconciliation_report) prog" where
  "reconcile_payment payment_id merchant_id provider =
     bnd (lock_payment payment_id merchant_id) (\<lambda>i.
     case i of
       None \<Rightarrow> raise (payment_not_found payment_id)
     | Some intent \<Rightarrow>
         if pi_status intent \<noteq> UNKNOWN then
           andthen commit
           (write_report (pi_id intent) MATCHED (pi_status intent) None
             [(''note'', JStr ''payment was not in UNKNOWN status at reconciliation time'')])
         else
           bnd (query (original_idempotency_key (pi_id intent))) (\<lambda>idem_key.
           andthen commit
           (case idem_key of
              None \<Rightarrow>
                write_report (pi_id intent) MISSING_INTERNAL_TRANSACTION UNKNOWN None
                  [(''note'', JStr ''no idempotency key on record to ask the provider about'')]
            | Some k \<Rightarrow>
                bnd (call_provider (prov_get_payment_status_by_idempotency_key provider k)) (\<lambda>result.
                bnd (relock payment_id merchant_id)
                  (apply_answer (prov_name provider) result)))))"

section \<open>A pass\<close>

definition needs_reconciliation :: "uuid option \<Rightarrow> payment_intent \<Rightarrow> bool" where
  "needs_reconciliation merchant_id p \<longleftrightarrow>
     pi_status p = UNKNOWN \<and> (case merchant_id of None \<Rightarrow> True | Some m \<Rightarrow> pi_merchant_id p = m)"

primrec materialise_all :: "payment_intent list \<Rightarrow> ('p, payment_intent list) prog" where
  "materialise_all [] = ret []"
| "materialise_all (r # rs) =
     bnd (materialise r) (\<lambda>obj. bnd (materialise_all rs) (\<lambda>objs. ret (obj # objs)))"

definition find_payments_needing_reconciliation :: "uuid option \<Rightarrow> ('p, payment_intent list) prog" where
  "find_payments_needing_reconciliation merchant_id =
     bnd (query (\<lambda>d. filter (needs_reconciliation merchant_id) (payment_intents d))) materialise_all"

primrec reconcile_all :: "'p provider \<Rightarrow> payment_intent list \<Rightarrow> ('p, reconciliation_report list) prog" where
  "reconcile_all provider [] = ret []"
| "reconcile_all provider (intent # rest) =
     bnd (reconcile_payment (pi_id intent) (pi_merchant_id intent) provider) (\<lambda>report.
     bnd (reconcile_all provider rest) (\<lambda>reports. ret (report # reports)))"

definition run_reconciliation_pass :: "'p provider \<Rightarrow> uuid option \<Rightarrow> ('p, reconciliation_report list) prog" where
  "run_reconciliation_pass provider merchant_id =
     bnd (find_payments_needing_reconciliation merchant_id) (reconcile_all provider)"

section \<open>Invariants of reconciliation\<close>

lemma schema_wf_report: "schema_wf d \<Longrightarrow> schema_wf (snd (insert_report p r i ps ds d))"
  by (erule schema_wf_other) (simp add: insert_report_def other_tables_only_def Let_def)

locale inquiry_invariant = charge_invariant J moves for J moves +
  assumes J_report: "J d \<Longrightarrow> J (snd (insert_report p r st ps ds d))"
begin

lemma inv_write_report: "keeps (inv_with J F) (write_report p r i ps ds)"
  unfolding write_report_def
  by (intro keeps_rules keeps_inv_quiet keeps_inv_execute_returning schema_wf_report)
    (simp_all add: J_report, simp add: insert_report_def Let_def)

lemma inv_resolve_succeeded:
  assumes "pi_status i = UNKNOWN"
  shows "triple (held J i) (resolve_succeeded nm res i n) (\<lambda>_. session_inv J) (session_inv J)"
  unfolding resolve_succeeded_def
  by (intro held_bnd held_andthen triple_settlement inv_statements keeps_case_option keeps_ret held_keeps)
    (simp add: assms settles_def)

lemma inv_resolve_failed: "triple (held J i) (resolve_failed nm res i n) (\<lambda>_. session_inv J) (session_inv J)"
  unfolding resolve_failed_def
  by (intro held_bnd inv_statements transition_last) (simp_all add: settles_def)

lemma inv_apply_answer:
  "triple (held J i) (apply_answer nm res i :: ('p, reconciliation_report) prog) (\<lambda>_. session_inv J) (session_inv J)"
proof (cases "pi_status i = UNKNOWN")
  case True
  have report: "triple (held J i') (andthen commit (write_report p r st ps ds) :: ('p, _) prog)
      (\<lambda>_. session_inv J) (session_inv J)" for i' p r st ps ds
    by (intro held_keeps keeps_rules keeps_inv_quiet inv_write_report)
  have mismatch: "triple (held J i) (andthen (inc x) (andthen commit (write_report p r st ps ds)) :: ('p, _) prog)
      (\<lambda>_. session_inv J) (session_inv J)" for x p r st ps ds
    by (intro held_keeps keeps_rules keeps_inv_quiet inv_write_report)
  have still: "triple (held J i) (bnd (apply_transition i UNKNOWN RECONCILIATION e) (\<lambda>i'.
      andthen commit (write_report (pi_id i') r st ps ds)) :: ('p, _) prog)
      (\<lambda>_. session_inv J) (session_inv J)" for e r st ps ds
    by (intro transition_bnd report) (simp_all add: settles_def)
  have resolved: "triple (held J i) (bnd (if b then resolve_succeeded nm res i n else resolve_failed nm res i n) (\<lambda>i'.
      andthen commit (write_report (pi_id i') r st ps ds)) :: ('p, _) prog)
      (\<lambda>_. session_inv J) (session_inv J)" for b n r st ps ds
  proof (rule triple_bnd)
    show "triple (held J i) (if b then resolve_succeeded nm res i n else resolve_failed nm res i n :: ('p, _) prog)
        (\<lambda>_. session_inv J) (session_inv J)"
      by (simp add: inv_resolve_succeeded [OF True] inv_resolve_failed)
    show "triple (session_inv J) (andthen commit (write_report (pi_id i') r st ps ds) :: ('p, _) prog)
        (\<lambda>_. session_inv J) (session_inv J)" for i'
      unfolding keeps_triple [symmetric] by (intro keeps_rules keeps_inv_quiet inv_write_report)
  qed
  show ?thesis
    unfolding apply_answer_def
    by (simp only: True if_False simp_thms)
      (intro triple_if triple_case_option still mismatch held_bnd keeps_query resolved)
next
  case False
  then show ?thesis
    unfolding apply_answer_def
    by (simp only: if_True simp_thms) (intro held_keeps keeps_rules keeps_inv_quiet inv_write_report)
qed

lemma inv_reconcile_payment: "keeps (session_inv J) (reconcile_payment p m P)"
  unfolding reconcile_payment_def
  by (intro lock_bnd keeps_raise triple_if held_keeps keeps_rules keeps_inv_quiet inv_write_report
      relock_bnd inv_apply_answer keeps_case_option)

lemma inv_reconcile_all: "keeps (session_inv J) (reconcile_all P is)"
  by (induction "is") (auto intro!: keeps_rules inv_reconcile_payment)

lemma inv_materialise_all:
  "triple (\<lambda>s. session_inv J s \<and> set rows \<subseteq> set (payment_intents (working s))) (materialise_all rows :: ('p, _) prog)
     (\<lambda>_. session_inv J) (session_inv J)"
proof (induction rows)
  case (Cons r rows)
  let ?P = "\<lambda>s :: 'p session. session_inv J s \<and> set rows \<subseteq> set (payment_intents (working s))"
  have "triple (\<lambda>s. session_inv J s \<and> set (r # rows) \<subseteq> set (payment_intents (working s))) (materialise r)
      (\<lambda>_. ?P) (session_inv J)"
    by (rule triple_weaken [OF triple_materialise [where G = "\<lambda>d. set rows \<subseteq> set (payment_intents d)"]])
      (auto intro: inv_with_weaken)
  moreover have "triple ?P (bnd (materialise_all rows) (\<lambda>objs. ret (o1 # objs))) (\<lambda>_. session_inv J) (session_inv J)" for o1
    by (rule triple_bnd [OF Cons.IH]) (simp add: keeps_triple [symmetric] keeps_ret)
  ultimately show ?case unfolding materialise_all.simps by (rule triple_bnd)
qed (simp add: triple_def ret_def)

lemma inv_run_reconciliation_pass: "keeps (session_inv J) (run_reconciliation_pass (P :: 'p provider) m)"
proof -
  have "keeps (session_inv J) (find_payments_needing_reconciliation m :: ('p, _) prog)"
    unfolding find_payments_needing_reconciliation_def keeps_triple
    by (rule triple_query) (auto intro: triple_weaken [OF inv_materialise_all])
  then show "keeps (session_inv J) (run_reconciliation_pass P m)"
    unfolding run_reconciliation_pass_def by (rule keeps_bnd) (rule inv_reconcile_all)
qed

end

locale reconciliation_invariant = payment_invariant J + inquiry_invariant J UNIV for J

section \<open>Reports\<close>

text \<open>\<open>reported_once rs\<close>: the report tables of the session are the rows \<open>rs\<close>.\<close>

definition reports_are :: "reconciliation_report list \<Rightarrow> 'p session \<Rightarrow> bool" where
  "reports_are rs s \<longleftrightarrow> reconciliation_reports (working s) = rs \<and> reconciliation_reports (committed s) = rs"

lemma reports_execute:
  "(\<And>d. reconciliation_reports (f d) = reconciliation_reports d) \<Longrightarrow> keeps (reports_are rs) (execute f)"
  by (simp add: keeps_def reports_are_def execute_def)

lemma reports_execute_checked:
  "(\<And>d x d'. f d = Inr (x, d') \<Longrightarrow> reconciliation_reports d' = reconciliation_reports d) \<Longrightarrow>
   keeps (reports_are rs) (execute_checked f)"
  by (fastforce simp: keeps_def reports_are_def execute_checked_def split: sum.splits)

lemma reports_quiet:
  "keeps (reports_are rs) commit" "keeps (reports_are rs) (inc n)" "keeps (reports_are rs) (call_provider c)"
  "keeps (reports_are rs) (remember i)" "keeps (reports_are rs) (materialise row)"
  by (simp_all add: keeps_def reports_are_def commit_def inc_def call_provider_def remember_def materialise_def Let_def
      split: prod.splits)

lemma reports_lock: "keeps (reports_are rs) (lock_payment p m)"
  unfolding lock_payment_def by (intro keeps_rules reports_quiet)

lemma reports_relock: "keeps (reports_are rs) (relock p m)"
  unfolding relock_def by (intro keeps_rules reports_lock)

lemma reports_transition: "keeps (reports_are rs) (apply_transition i t a e)"
proof -
  have "keeps (reports_are rs) (execute (transition_rows p f t v a e) :: ('p, unit) prog)" for p f v
    by (rule reports_execute)
      (simp add: transition_rows_def insert_outbox_event_def insert_payment_event_def write_transition_def)
  then show "keeps (reports_are rs) (apply_transition i t a e :: ('p, payment_intent) prog)"
    unfolding apply_transition_def Let_def by (intro keeps_rules reports_quiet)
qed

lemma reports_inserts:
  "keeps (reports_are rs) (execute_checked (insert_payment_attempt p nm oc cl n))"
  "keeps (reports_are rs) (execute_checked (insert_provider_transaction aid nm ptx raws rr))"
  "keeps (reports_are rs) (execute_checked (add_pair b amt))"
  by (auto intro!: reports_execute_checked simp: insert_payment_attempt_def insert_provider_transaction_def add_pair_def Let_def
      split: if_splits prod.splits)

lemmas reports_rules = reports_quiet reports_lock reports_relock reports_transition reports_inserts

text \<open>A program that returns a report has written it, and nothing else, to the report table; one
  that raises has written none.\<close>

abbreviation writes_report :: "reconciliation_report list \<Rightarrow> ('p, reconciliation_report) prog \<Rightarrow> bool" where
  "writes_report rs m \<equiv> triple (reports_are rs) m (\<lambda>rep. reports_are (rs @ [rep])) (reports_are rs)"

lemma write_report_writes: "writes_report rs (write_report p r st ps dt)"
  by (simp add: triple_def write_report_def insert_report_def prog_defs reports_are_def Let_def)

lemma report_bnd:
  "keeps (reports_are rs) m \<Longrightarrow> (\<And>x. writes_report rs (f x)) \<Longrightarrow> writes_report rs (bnd m f)"
  by (rule triple_bnd [where Q = "\<lambda>_. reports_are rs"]) (simp_all add: keeps_triple)

lemma report_andthen: "keeps (reports_are rs) m \<Longrightarrow> writes_report rs k \<Longrightarrow> writes_report rs (andthen m k)"
  unfolding andthen_def by (rule report_bnd)

lemma report_raise: "writes_report rs (raise e)"
  by (simp add: triple_def raise_def)

lemma apply_answer_writes: "writes_report rs (apply_answer nm res i)"
  unfolding apply_answer_def resolve_succeeded_def resolve_failed_def record_payment_settled_def
  by (intro triple_if triple_case_option report_bnd report_andthen write_report_writes keeps_rules reports_rules)

lemma reconcile_writes: "writes_report rs (reconcile_payment p m P)"
  unfolding reconcile_payment_def
  by (intro triple_if triple_case_option report_bnd report_andthen write_report_writes report_raise apply_answer_writes
      keeps_rules reports_rules)

lemma reconcile_all_writes:
  "triple (reports_are rs) (reconcile_all P is) (\<lambda>reps. reports_are (rs @ reps)) (\<lambda>_. True)"
proof (induction "is" arbitrary: rs)
  case (Cons i "is")
  have "triple (reports_are (rs @ [rep])) (bnd (reconcile_all P is) (\<lambda>reports. ret (rep # reports)))
      (\<lambda>reps. reports_are (rs @ reps)) (\<lambda>_. True)" for rep
    by (rule triple_bnd [OF Cons.IH]) (simp add: triple_def ret_def)
  moreover have "triple (reports_are rs) (reconcile_payment (pi_id i) (pi_merchant_id i) P)
      (\<lambda>rep. reports_are (rs @ [rep])) (\<lambda>_. True)"
    using reconcile_writes by (rule triple_weaken) auto
  ultimately show ?case by (auto intro: triple_bnd)
qed (simp add: triple_def ret_def)

section \<open>Properties\<close>

text \<open>C33. Every reconciliation that returns has appended exactly the report it returns, committed;
  one that raises has reported nothing; and a pass over all unresolved payments appends the
  reports it returns, in order.\<close>

theorem every_reconciliation_reports_once:
  "(case reconcile_payment p m P (open_session d pr) of
      (Inr rep, s') \<Rightarrow> reconciliation_reports (committed s') = reconciliation_reports d @ [rep]
    | (Inl e, s') \<Rightarrow> reconciliation_reports (committed s') = reconciliation_reports d) \<and>
   (case run_reconciliation_pass P mo (open_session d pr) of
      (Inr reps, s') \<Rightarrow> reconciliation_reports (committed s') = reconciliation_reports d @ reps
    | (Inl e, s') \<Rightarrow> True)"
proof -
  let ?rs = "reconciliation_reports d"
  have s: "reports_are ?rs (open_session d pr)" by (simp add: reports_are_def open_session_def)
  have "keeps (reports_are ?rs) (materialise_all is)" for "is"
    by (induction "is") (auto intro!: keeps_rules reports_quiet)
  then have "keeps (reports_are ?rs) (find_payments_needing_reconciliation mo)"
    unfolding find_payments_needing_reconciliation_def by (intro keeps_rules)
  then have "triple (reports_are ?rs) (run_reconciliation_pass P mo) (\<lambda>reps. reports_are (?rs @ reps)) (\<lambda>_. True)"
    unfolding run_reconciliation_pass_def
    by (intro triple_bnd [where Q = "\<lambda>_. reports_are ?rs"] reconcile_all_writes) (auto simp: keeps_triple intro: triple_weaken)
  then have pass: "run_reconciliation_pass P mo (open_session d pr) = (Inr reps, s') \<Longrightarrow> reports_are (?rs @ reps) s'" for reps s'
    using s by (rule tripleD(1))
  note one = tripleD [OF reconcile_writes [of ?rs p m P] s]
  show ?thesis
  proof (rule conjI)
    show "case reconcile_payment p m P (open_session d pr) of
      (Inr rep, s') \<Rightarrow> reconciliation_reports (committed s') = ?rs @ [rep]
    | (Inl e, s') \<Rightarrow> reconciliation_reports (committed s') = ?rs"
    proof (cases "reconcile_payment p m P (open_session d pr)")
      case (Pair r s')
      with one show ?thesis by (cases r) (simp_all add: reports_are_def)
    qed
    show "case run_reconciliation_pass P mo (open_session d pr) of
      (Inr reps, s') \<Rightarrow> reconciliation_reports (committed s') = ?rs @ reps
    | (Inl e, s') \<Rightarrow> True"
    proof (cases "run_reconciliation_pass P mo (open_session d pr)")
      case (Pair r s')
      with pass show ?thesis by (cases r) (simp_all add: reports_are_def)
    qed
  qed
qed

lemma write_report_run:
  "write_report p r is ps dt s =
     (let d = working s; rep = \<lparr>rr_id = next_uuid d, rr_payment_intent_id = p, rr_result = r, rr_internal_status = is,
        rr_provider_status = ps, rr_details = dt, rr_created_at = now d\<rparr>;
          d' = d\<lparr>next_uuid := Suc (next_uuid d), reconciliation_reports := reconciliation_reports d @ [rep]\<rparr>
      in (Inr rep, s\<lparr>working := d', committed := d'\<rparr>))"
  by (simp add: write_report_def insert_report_def prog_defs Let_def)

text \<open>A provider whose answer names another amount or currency than the payment's is never
  believed: the payment stays UNKNOWN and of all tables only the report table grows, by the
  mismatch.\<close>

theorem mismatch_changes_nothing_but_the_report:
  assumes "pi_status i = UNKNOWN" and "pr_outcome res \<noteq> PO_UNKNOWN"
    and "amount_mismatch res i \<noteq> None \<or> currency_mismatch res i \<noteq> None"
    and "working s = committed s"
  shows "\<exists>rep s'. apply_answer nm res i s = (Inr rep, s') \<and> rr_result rep \<in> {AMOUNT_MISMATCH, CURRENCY_MISMATCH} \<and>
    rr_internal_status rep = UNKNOWN \<and> prov_state s' = prov_state s \<and>
    committed s' = (committed s)\<lparr>next_uuid := Suc (next_uuid (committed s)),
      reconciliation_reports := reconciliation_reports (committed s) @ [rep]\<rparr>"
proof -
  obtain r dt where r: "r \<in> {AMOUNT_MISMATCH, CURRENCY_MISMATCH}"
    and run: "apply_answer nm res i s = andthen (inc (''reconciliation_mismatches_total:'' @ reconciliation_result_value r))
      (andthen commit (write_report (pi_id i) r UNKNOWN (Some (pr_raw_status res)) dt)) s"
  proof (cases "amount_mismatch res i")
    case (Some j)
    with assms that [of AMOUNT_MISMATCH] show thesis by (simp add: apply_answer_def)
  next
    case None
    with assms(3) obtain j where "currency_mismatch res i = Some j" by blast
    with None assms that [of CURRENCY_MISMATCH] show thesis by (simp add: apply_answer_def)
  qed
  with assms(4) show ?thesis by (simp add: andthen_def bnd_def inc_def commit_def write_report_run Let_def)
qed

theorem mismatch_changes_nothing_but_the_report_witness:
  "\<exists>rep. fst (apply_answer ''mock'' \<lparr>pr_outcome = PO_SUCCEEDED, pr_provider_transaction_id = None, pr_raw_status = ''ok'',
       pr_raw_response = [(''amount_minor'', JInt 5)]\<rparr>
     \<lparr>pi_id = 0, pi_merchant_id = 7, pi_customer_id = None, pi_amount_minor = 9, pi_currency = ''USD'', pi_status = UNKNOWN,
       pi_merchant_reference = None, pi_version = 3, pi_created_at = 0, pi_updated_at = 0\<rparr> (open_session (empty_db 0) ())) = Inr rep \<and>
     rr_result rep \<in> {AMOUNT_MISMATCH, CURRENCY_MISMATCH}"
proof -
  let ?res = "\<lparr>pr_outcome = PO_SUCCEEDED, pr_provider_transaction_id = None, pr_raw_status = ''ok'',
       pr_raw_response = [(''amount_minor'', JInt 5)]\<rparr>"
  let ?i = "\<lparr>pi_id = 0, pi_merchant_id = 7, pi_customer_id = None, pi_amount_minor = 9, pi_currency = ''USD'', pi_status = UNKNOWN,
       pi_merchant_reference = None, pi_version = 3, pi_created_at = 0, pi_updated_at = 0\<rparr>"
  have "amount_mismatch ?res ?i \<noteq> None" by (simp add: amount_mismatch_def reported_def dict_get_def)
  with mismatch_changes_nothing_but_the_report [of ?i ?res "open_session (empty_db 0) ()" "''mock''"]
  show ?thesis by (fastforce simp: open_session_def)
qed

end
