(* ===== verification/Books.thy ===== *)
theory Books
  imports Reconciliation
begin

text \<open>
  Money. Three invariants of the stored rows, each an interpretation of the contracts of
  \<open>Invariants\<close>, \<open>Webhooks\<close>, \<open>Outbox\<close> and \<open>Reconciliation\<close>: every ledger transaction balances
  (all services); the refunds reserved or paid never exceed the payment (all services); and the
  books of a payment agree with its status, to the minor unit (payment services and
  reconciliation, the webhook path excepted, which can settle a payment a second time).
\<close>

section \<open>The statements that concern money\<close>

text \<open>What an outbox row says, and the rows that speak of payments.\<close>

definition message :: "outbox_event \<Rightarrow> string \<times> string \<times> uuid \<times> (string \<times> json) list" where
  "message e = (ob_aggregate_type e, ob_event_type e, ob_aggregate_id e, ob_payload e)"

definition payment_messages :: "db \<Rightarrow> (string \<times> string \<times> uuid \<times> (string \<times> json) list) list" where
  "payment_messages d = filter (\<lambda>m. fst m = ''payment_intent'') (map message (outbox_events d))"

text \<open>A step that leaves payments, their events and messages, refunds and ledger alone.\<close>

definition unrelated :: "db \<Rightarrow> db \<Rightarrow> bool" where
  "unrelated d d' \<longleftrightarrow>
     payment_intents d' = payment_intents d \<and> payment_events d' = payment_events d \<and>
     payment_messages d' = payment_messages d \<and> refunds d' = refunds d \<and>
     ledger_entries d' = ledger_entries d \<and> next_uuid d \<le> next_uuid d'"

lemma unrelated_statements:
  "next_uuid d \<le> n \<Longrightarrow> unrelated d (d\<lparr>next_uuid := n, idempotency_keys := ks\<rparr>)"
  "unrelated d (insert_audit_log mo x y z d)"
  "insert_payment_attempt p nm oc cl no d = Inr (att, d') \<Longrightarrow> unrelated d d'"
  "insert_provider_transaction aid nm ptx rs rr d = Inr (u, d') \<Longrightarrow> unrelated d d'"
  "unrelated d (snd (insert_webhook_event pn pe et pl sg d))"
  "unrelated d (insert_outbox_event ''webhook_event'' wid et pl d)"
  "unrelated d (d\<lparr>webhook_events := ws\<rparr>)"
  "unrelated d (set_clock tm d)"
  "unrelated d (snd (insert_report p2 r2 st ps ds d))"
  by (auto simp: unrelated_def payment_messages_def message_def insert_audit_log_def insert_webhook_event_def
      insert_outbox_event_def set_clock_def insert_report_def Let_def
      dest: insert_attempt_writes insert_ptx_writes)

lemma unrelated_outbox_row: "same_message f \<Longrightarrow> unrelated d (set_outbox_event eid f d)"
proof -
  assume "same_message f"
  then have "message (f e) = message e" for e by (simp add: same_message_def message_def)
  then have "map message (update_where q f es) = map message es" for q es by (simp add: map_update_where)
  then show ?thesis by (simp add: unrelated_def payment_messages_def set_outbox_event_def)
qed

locale money_invariant =
  fixes J :: "db \<Rightarrow> bool"
  assumes unrelated_step: "J d \<Longrightarrow> unrelated d d' \<Longrightarrow> J d'"
    and created_step: "schema_wf d \<Longrightarrow> J d \<Longrightarrow> created_rows rq d = Inr (i, d') \<Longrightarrow> J d'"
    and transition_step:
      "schema_wf d \<Longrightarrow> J d \<Longrightarrow> row \<in> set (payment_intents d) \<Longrightarrow>
         is_valid_payment_transition (pi_status row) t (Some a) \<Longrightarrow> \<not> settles (pi_status row) t \<Longrightarrow>
         J (move_row row t a e d)"
    and settlement_step:
      "schema_wf d \<Longrightarrow> J d \<Longrightarrow> row \<in> set (payment_intents d) \<Longrightarrow>
         is_valid_payment_transition (pi_status row) SUCCEEDED (Some a) \<Longrightarrow> settles (pi_status row) SUCCEEDED \<Longrightarrow>
         add_pair (\<lambda>txn. build_payment_settled_pair txn (pi_id row) (pi_amount_minor row)) (pi_amount_minor row)
           (move_row row SUCCEEDED a e d) = Inr (tx, d') \<Longrightarrow> J d'"
    and reservation_step:
      "schema_wf d \<Longrightarrow> J d \<Longrightarrow> row \<in> set (payment_intents d) \<Longrightarrow>
         pi_status row \<in> REFUNDABLE_SOURCE_STATUSES \<Longrightarrow>
         amt \<le> pi_amount_minor row - reserved_amount (pi_id row) d \<Longrightarrow>
         insert_refund (pi_id row) amt d = Inr (r, d') \<Longrightarrow> J d'"
    and refund_failed_step:
      "schema_wf d \<Longrightarrow> J d \<Longrightarrow> r \<in> set (refunds d) \<Longrightarrow> rf_status r = RF_PENDING \<Longrightarrow>
         J (set_refund_status (rf_id r) RF_FAILED d)"
    and refund_settled_step:
      "schema_wf d \<Longrightarrow> J d \<Longrightarrow> r \<in> set (refunds d) \<Longrightarrow> rf_status r = RF_PENDING \<Longrightarrow>
         add_pair (\<lambda>txn. build_refund_settled_pair txn (rf_payment_intent_id r) (rf_amount_minor r))
           (rf_amount_minor r) (set_refund_status (rf_id r) RF_SUCCEEDED d) = Inr (tx, d') \<Longrightarrow> J d'"
begin

sublocale rec: reconciliation_invariant J
  by unfold_locales
    (blast intro: unrelated_step unrelated_statements created_step transition_step settlement_step
      reservation_step refund_failed_step refund_settled_step)+

end

locale program_invariant = money_invariant J for J +
  assumes resettlement_step:
    "schema_wf d \<Longrightarrow> J d \<Longrightarrow> row \<in> set (payment_intents d) \<Longrightarrow>
       is_valid_payment_transition (pi_status row) SUCCEEDED (Some a) \<Longrightarrow> pi_status row = REFUND_PENDING \<Longrightarrow>
       add_pair (\<lambda>txn. build_payment_settled_pair txn (pi_id row) (pi_amount_minor row)) (pi_amount_minor row)
         (move_row row SUCCEEDED a e d) = Inr (tx, d') \<Longrightarrow> J d'"
begin

sublocale worker: worker_invariant J
  by unfold_locales
    (blast intro: unrelated_step unrelated_statements unrelated_outbox_row resettlement_step)+

end

section \<open>Every ledger transaction balances\<close>

lemma ledger_balanced_cong: "ledger_entries d' = ledger_entries d \<Longrightarrow> ledger_balanced d' = ledger_balanced d"
  by (simp add: ledger_balanced_def ledger_transaction_is_balanced_def sum_by_direction_def)

lemma move_row_writes:
  "ledger_entries (move_row row t a e d) = ledger_entries d" "refunds (move_row row t a e d) = refunds d"
  "payment_events (move_row row t a e d) =
     payment_events d @ [transition_event (pi_id row) (pi_status row) t a d]"
  "next_uuid (move_row row t a e d) = next_uuid d + 2"
  by (simp_all add: move_row_def transition_rows_writes)

lemma refund_status_writes:
  "ledger_entries (set_refund_status rid st d) = ledger_entries d"
  "payment_intents (set_refund_status rid st d) = payment_intents d"
  "payment_events (set_refund_status rid st d) = payment_events d"
  "outbox_events (set_refund_status rid st d) = outbox_events d"
  "next_uuid (set_refund_status rid st d) = next_uuid d"
  by (simp_all add: set_refund_status_def)

interpretation ledger: program_invariant ledger_balanced
proof
  fix d assume J: "ledger_balanced d"
  have same: "ledger_balanced d'" if "ledger_entries d' = ledger_entries d" for d'
    using J ledger_balanced_cong [OF that] by simp
  have pay: "ledger_balanced d'"
    if "add_pair (\<lambda>txn. build_payment_settled_pair txn p m) m (move_row row SUCCEEDED a e d) = Inr (tx, d')"
    for p m row a e tx d'
    by (rule add_pair_balanced [OF payment_pair_balanced same that]) (simp add: move_row_writes)
  show "ledger_balanced d'" if "unrelated d d'" for d'
    using that by (intro same) (simp add: unrelated_def)
  show "ledger_balanced d'" if "created_rows rq d = Inr (i, d')" for rq i d'
    by (rule same) (rule created_rows_writes(9) [OF that])
  show "ledger_balanced (move_row row t a e d)" for row t a e
    by (rule same) (rule move_row_writes)
  show "ledger_balanced d'"
    if "add_pair (\<lambda>txn. build_payment_settled_pair txn (pi_id row) (pi_amount_minor row)) (pi_amount_minor row)
      (move_row row SUCCEEDED a e d) = Inr (tx, d')" for row a e tx d'
    by (rule pay [OF that])
  show "ledger_balanced d'"
    if "add_pair (\<lambda>txn. build_payment_settled_pair txn (pi_id row) (pi_amount_minor row)) (pi_amount_minor row)
      (move_row row SUCCEEDED a e d) = Inr (tx, d')" for row a e tx d'
    by (rule pay [OF that])
  show "ledger_balanced d'" if "insert_refund p amt d = Inr (r, d')" for p amt r d'
    using insert_refund_writes [OF that] by (intro same) simp
  show "ledger_balanced (set_refund_status rid RF_FAILED d)" for rid
    by (rule same) (rule refund_status_writes)
  show "ledger_balanced d'"
    if "add_pair (\<lambda>txn. build_refund_settled_pair txn (rf_payment_intent_id r) (rf_amount_minor r))
      (rf_amount_minor r) (set_refund_status (rf_id r) RF_SUCCEEDED d) = Inr (tx, d')" for r tx d'
    by (rule add_pair_balanced [OF refund_pair_balanced same that]) (rule refund_status_writes)
qed

section \<open>Refunds stay within the payment\<close>

definition refunds_bounded :: "db \<Rightarrow> bool" where
  "refunds_bounded d \<longleftrightarrow>
     (\<forall>p \<in> set (payment_intents d). reserved_amount (pi_id p) d \<le> pi_amount_minor p)"

definition priced :: "payment_intent \<Rightarrow> uuid \<times> int" where
  "priced p = (pi_id p, pi_amount_minor p)"

lemma move_row_priced: "map priced (payment_intents (move_row row t a e d)) = map priced (payment_intents d)"
  by (simp add: move_row_def payments_of_transition map_update_where priced_def)

lemma refunds_bounded_cong:
  assumes "map priced (payment_intents d') = map priced (payment_intents d)" and "refunds d' = refunds d"
  shows "refunds_bounded d' = refunds_bounded d"
proof -
  have "refunds_bounded x \<longleftrightarrow> (\<forall>(p, m) \<in> set (map priced (payment_intents x)). reserved_amount p x \<le> m)" for x
    by (auto simp: refunds_bounded_def priced_def)
  moreover have "reserved_amount p d' = reserved_amount p d" for p using assms(2) by (simp add: reserved_amount_def)
  ultimately show ?thesis using assms(1) by (simp only:)
qed

lemma refund_row_unique:
  "schema_wf d \<Longrightarrow> r \<in> set (refunds d) \<Longrightarrow> x \<in> set (refunds d) \<Longrightarrow> rf_id x = rf_id r \<Longrightarrow> x = r"
  by (auto simp: schema_wf_def refunds_wf_def fresh_ids_def intro: distinct_map_inj_row)

lemma select_sum_update_drop:
  "(\<And>r. r \<in> set rows \<Longrightarrow> q r \<Longrightarrow> \<not> p (g r) \<and> 0 \<le> f r) \<Longrightarrow> select_sum f p (update_where q g rows) \<le> select_sum f p rows"
proof (induction rows)
  case (Cons x rows)
  then have "select_sum f p (update_where q g rows) \<le> select_sum f p rows" by simp
  with Cons.prems [of x] show ?case by auto
qed simp

lemma reserved_after_failure:
  assumes "schema_wf d"
  shows "reserved_amount p (set_refund_status rid RF_FAILED d) \<le> reserved_amount p d"
  unfolding reserved_amount_def set_refund_status_def
  using assms by (simp, intro select_sum_update_drop) (auto simp: schema_wf_def refunds_wf_def less_imp_le)

lemma reserved_after_success:
  assumes "schema_wf d" and "r \<in> set (refunds d)" and "rf_status r = RF_PENDING"
  shows "reserved_amount p (set_refund_status (rf_id r) RF_SUCCEEDED d) = reserved_amount p d"
  unfolding reserved_amount_def set_refund_status_def
  using assms by (simp, intro select_sum_update_where) (auto dest: refund_row_unique)

lemma reserved_unknown_payment:
  "schema_wf d \<Longrightarrow> p \<notin> pi_id ` set (payment_intents d) \<Longrightarrow> reserved_amount p d = 0"
  unfolding reserved_amount_def by (rule select_sum_none) (auto simp: schema_wf_def refunds_wf_def)

lemma new_payment_unknown: "schema_wf d \<Longrightarrow> next_uuid d \<notin> pi_id ` set (payment_intents d)"
  by (auto simp: schema_wf_def payments_wf_def fresh_ids_def)

lemma refund_payment_old: "schema_wf d \<Longrightarrow> r \<in> set (refunds d) \<Longrightarrow> rf_payment_intent_id r < next_uuid d"
proof -
  assume wf: "schema_wf d" and "r \<in> set (refunds d)"
  then have "rf_payment_intent_id r \<in> pi_id ` set (payment_intents d)" by (simp add: schema_wf_def refunds_wf_def)
  with wf show ?thesis by (auto simp: schema_wf_def payments_wf_def fresh_ids_def)
qed

interpretation bounded: program_invariant refunds_bounded
proof
  fix d assume wf: "schema_wf d" and J: "refunds_bounded d"
  show "refunds_bounded d'" if "created_rows rq d = Inr (i, d')" for rq i d'
  proof -
    note w = created_rows_writes [OF that]
    have "reserved_amount p d' = reserved_amount p d" for p using w by (simp add: reserved_amount_def)
    moreover have "reserved_amount (pi_id i) d = 0"
      using wf w(1) by (intro reserved_unknown_payment) (simp_all add: new_payment_unknown)
    ultimately show ?thesis using J w(4,5) by (auto simp: refunds_bounded_def)
  qed
  show "refunds_bounded d'"
    if "row \<in> set (payment_intents d)" and "amt \<le> pi_amount_minor row - reserved_amount (pi_id row) d"
      and "insert_refund (pi_id row) amt d = Inr (r, d')" for row amt r d'
  proof -
    note w = insert_refund_writes [OF that(3)]
    have res: "reserved_amount p d' = reserved_amount p d + (if p = pi_id row then amt else 0)" for p
      using w by (auto simp: reserved_amount_def)
    have "reserved_amount (pi_id p) d' \<le> pi_amount_minor p" if p: "p \<in> set (payment_intents d)" for p
    proof (cases "pi_id p = pi_id row")
      case True
      then have "p = row" using p \<open>row \<in> _\<close> wf by (metis payment_row_unique)
      with res that show ?thesis using \<open>amt \<le> _\<close> by simp
    next
      case False
      with J p res show ?thesis by (simp add: refunds_bounded_def)
    qed
    with w show ?thesis by (simp add: refunds_bounded_def)
  qed
  show "refunds_bounded (set_refund_status (rf_id r) RF_FAILED d)" for r
    unfolding refunds_bounded_def refund_status_writes
    using J [unfolded refunds_bounded_def] reserved_after_failure [OF wf] by (blast intro: order_trans)
  show "refunds_bounded d'" if "r \<in> set (refunds d)" and "rf_status r = RF_PENDING"
    and "add_pair (\<lambda>txn. build_refund_settled_pair txn (rf_payment_intent_id r) (rf_amount_minor r))
      (rf_amount_minor r) (set_refund_status (rf_id r) RF_SUCCEEDED d) = Inr (tx, d')" for r tx d'
  proof -
    have "reserved_amount p d' = reserved_amount p d" for p
      using add_pair_writes [OF that(3)] reserved_after_success [OF wf that(1,2)] by (simp add: reserved_amount_def)
    with J add_pair_writes [OF that(3)] show ?thesis by (simp add: refunds_bounded_def refund_status_writes)
  qed
next
  fix d assume J: "refunds_bounded d"
  have same: "refunds_bounded d'"
    if "map priced (payment_intents d') = map priced (payment_intents d)" "refunds d' = refunds d" for d'
    using J refunds_bounded_cong [OF that] by simp
  have pay: "refunds_bounded d'"
    if "add_pair b m (move_row row t a e d) = Inr (tx, d')" for b m row t a e tx d'
    using add_pair_writes [OF that] by (intro same) (simp_all add: move_row_priced move_row_writes)
  show "refunds_bounded d'" if "unrelated d d'" for d'
    using that by (intro same) (simp_all add: unrelated_def)
  show "refunds_bounded (move_row row t a e d)" for row t a e
    by (rule same) (simp_all add: move_row_priced move_row_writes)
  show "refunds_bounded d'"
    if "add_pair (\<lambda>txn. build_payment_settled_pair txn (pi_id row) (pi_amount_minor row)) (pi_amount_minor row)
      (move_row row SUCCEEDED a e d) = Inr (tx, d')" for row a e tx d'
    by (rule pay [OF that])
  show "refunds_bounded d'"
    if "add_pair (\<lambda>txn. build_payment_settled_pair txn (pi_id row) (pi_amount_minor row)) (pi_amount_minor row)
      (move_row row SUCCEEDED a e d) = Inr (tx, d')" for row a e tx d'
    by (rule pay [OF that])
qed

section \<open>The books of a payment\<close>

definition SETTLED :: "payment_status set" where
  "SETTLED = {SUCCEEDED, REFUND_PENDING, REFUNDED, REFUND_FAILED}"

definition settled_amount :: "payment_intent \<Rightarrow> int" where
  "settled_amount p = (if pi_status p \<in> SETTLED then pi_amount_minor p else 0)"

definition books_match :: "db \<Rightarrow> payment_intent \<Rightarrow> bool" where
  "books_match d p \<longleftrightarrow>
     account_balance PAYMENT_CLEARING (pi_id p) d = - settled_amount p \<and>
     account_balance REFUND_LIABILITY (pi_id p) d = refunded_amount (pi_id p) d \<and>
     account_balance MERCHANT_RECEIVABLE (pi_id p) d = settled_amount p - refunded_amount (pi_id p) d"

definition books_ok :: "db \<Rightarrow> bool" where
  "books_ok d \<longleftrightarrow>
     (\<forall>e \<in> set (ledger_entries d). le_payment_intent_id e < next_uuid d) \<and>
     (\<forall>r \<in> set (refunds d). \<forall>p \<in> set (payment_intents d).
        pi_id p = rf_payment_intent_id r \<longrightarrow> pi_status p \<in> SETTLED) \<and>
     (\<forall>p \<in> set (payment_intents d). books_match d p)"

lemma account_balance_cong: "ledger_entries d' = ledger_entries d \<Longrightarrow> account_balance ac p d' = account_balance ac p d"
  by (simp add: account_balance_def)

lemma refunded_amount_cong: "refunds d' = refunds d \<Longrightarrow> refunded_amount p d' = refunded_amount p d"
  by (simp add: refunded_amount_def)

lemmas account_names = MERCHANT_RECEIVABLE_def PAYMENT_CLEARING_def REFUND_LIABILITY_def

lemma balance_payment_pair:
  assumes "add_pair (\<lambda>txn. build_payment_settled_pair txn q m) m d = Inr (tx, d')"
  shows "account_balance ac p d' = account_balance ac p d +
     (if p \<noteq> q then 0 else if ac = MERCHANT_RECEIVABLE then m else if ac = PAYMENT_CLEARING then - m else 0)"
  using add_pair_writes [OF assms]
  by (auto simp: account_balance_def build_payment_settled_pair_def entry_def account_names)

lemma balance_refund_pair:
  assumes "add_pair (\<lambda>txn. build_refund_settled_pair txn q m) m d = Inr (tx, d')"
  shows "account_balance ac p d' = account_balance ac p d +
     (if p \<noteq> q then 0 else if ac = REFUND_LIABILITY then m else if ac = MERCHANT_RECEIVABLE then - m else 0)"
  using add_pair_writes [OF assms]
  by (auto simp: account_balance_def build_refund_settled_pair_def entry_def account_names)

lemma balance_unused: "(\<And>e. e \<in> set (ledger_entries d) \<Longrightarrow> le_payment_intent_id e \<noteq> p) \<Longrightarrow> account_balance ac p d = 0"
  unfolding account_balance_def by (subst (1 2) select_sum_none) auto

lemma settled_transition:
  "is_valid_payment_transition f t a \<Longrightarrow> \<not> settles f t \<Longrightarrow> t \<in> SETTLED \<longleftrightarrow> f \<in> SETTLED"
  by (cases f) (auto simp: is_valid_payment_transition_def SETTLED_def settles_def split: if_splits)

lemma settled_settlement:
  "is_valid_payment_transition f SUCCEEDED a \<Longrightarrow> settles f SUCCEEDED \<Longrightarrow> f \<notin> SETTLED"
  by (cases f) (auto simp: is_valid_payment_transition_def SETTLED_def settles_def split: if_splits)

text \<open>The payments after a transition: the moved one, and the others as they were.\<close>

lemma payments_after_move:
  assumes "schema_wf d" and "row \<in> set (payment_intents d)" and "p \<in> set (payment_intents (move_row row t a e d))"
  obtains "p \<in> set (payment_intents d)" and "pi_id p \<noteq> pi_id row"
  | "p = row\<lparr>pi_status := t, pi_version := pi_version row + 1, pi_updated_at := now d\<rparr>"
proof -
  from assms(3) obtain x where x: "x \<in> set (payment_intents d)"
    "p = (if pi_id x = pi_id row then x\<lparr>pi_status := (if t \<noteq> pi_status row then t else pi_status x),
       pi_version := pi_version row + 1, pi_updated_at := now d\<rparr> else x)"
    by (auto simp: move_row_def payments_of_transition set_update_where)
  show thesis
  proof (cases "pi_id x = pi_id row")
    case True
    then have "x = row" using assms(1,2) x(1) by (metis payment_row_unique)
    with x(2) show thesis by (intro that(2)) auto
  next
    case False
    with x show thesis by (intro that(1)) simp_all
  qed
qed

lemma select_sum_update_gain:
  assumes "distinct (map key rows)" and "r \<in> set rows" and "\<not> p r" and "p (g r)" and "f (g r) = f r"
  shows "select_sum f p (update_where (\<lambda>x. key x = key r) g rows) = select_sum f p rows + f r"
  using assms
proof (induction rows)
  case (Cons x rows)
  show ?case
  proof (cases "x = r")
    case True
    with Cons.prems(1) have "update_where (\<lambda>x. key x = key r) g rows = rows"
      by (intro update_where_none) (metis distinct.simps(2) image_eqI list.set_map list.simps(9))
    with True Cons.prems show ?thesis by simp
  next
    case False
    with Cons.prems have "key x \<noteq> key r" by auto
    with False Cons show ?thesis by simp
  qed
qed simp

lemma refunded_after_success:
  assumes "schema_wf d" and "r \<in> set (refunds d)" and "rf_status r = RF_PENDING"
  shows "refunded_amount p (set_refund_status (rf_id r) RF_SUCCEEDED d) =
     refunded_amount p d + (if p = rf_payment_intent_id r then rf_amount_minor r else 0)"
proof (cases "p = rf_payment_intent_id r")
  case True
  have "distinct (map rf_id (refunds d))" using assms(1) by (simp add: schema_wf_def refunds_wf_def fresh_ids_def)
  with True assms(2,3) show ?thesis
    by (simp add: refunded_amount_def set_refund_status_def select_sum_update_gain)
next
  case False
  with refund_row_unique [OF assms(1,2)] show ?thesis
    unfolding refunded_amount_def set_refund_status_def
    by (simp, intro select_sum_update_where) fastforce
qed

lemma refunded_after_failure:
  assumes "schema_wf d" and "r \<in> set (refunds d)" and "rf_status r = RF_PENDING"
  shows "refunded_amount p (set_refund_status (rf_id r) RF_FAILED d) = refunded_amount p d"
  unfolding refunded_amount_def set_refund_status_def
  using refund_row_unique [OF assms(1,2)] assms(3) by (simp, intro select_sum_update_where) fastforce

interpretation books: money_invariant books_ok
proof
  fix d d' assume J: "books_ok d" and "unrelated d d'"
  then show "books_ok d'"
    by (auto simp: unrelated_def books_ok_def books_match_def account_balance_def refunded_amount_def intro: less_le_trans)
next
  fix d rq i d' assume wf: "schema_wf d" and J: "books_ok d" and run: "created_rows rq d = Inr (i, d')"
  note w = created_rows_writes [OF run]
  have match: "books_match d' p \<longleftrightarrow> books_match d p" for p
    using w(8,9) by (simp add: books_match_def account_balance_def refunded_amount_def)
  have "account_balance ac (pi_id i) d = 0" for ac
    using J w(1) by (intro balance_unused) (auto simp: books_ok_def)
  moreover have "refunded_amount (pi_id i) d = 0"
    unfolding refunded_amount_def w(1)
    by (rule select_sum_none) (metis less_irrefl refund_payment_old [OF wf])
  ultimately have "books_match d i" using w(2) by (simp add: books_match_def settled_amount_def SETTLED_def)
  moreover have "pi_id i \<noteq> rf_payment_intent_id r" if "r \<in> set (refunds d)" for r
    using refund_payment_old [OF wf that] w(1) by simp
  ultimately show "books_ok d'"
    using J w by (auto simp: books_ok_def match intro: less_le_trans)
next
  fix d row t a e
  assume wf: "schema_wf d" and J: "books_ok d" and row: "row \<in> set (payment_intents d)"
    and v: "is_valid_payment_transition (pi_status row) t (Some a)" and n: "\<not> settles (pi_status row) t"
  let ?d = "move_row row t a e d"
  have st: "t \<in> SETTLED \<longleftrightarrow> pi_status row \<in> SETTLED" by (rule settled_transition [OF v n])
  have match: "books_match ?d p \<longleftrightarrow> books_match d p" for p
    by (simp add: books_match_def account_balance_def refunded_amount_def move_row_writes)
  have "books_match ?d p \<and> (\<forall>r \<in> set (refunds d). pi_id p = rf_payment_intent_id r \<longrightarrow> pi_status p \<in> SETTLED)"
    if "p \<in> set (payment_intents ?d)" for p
    using wf row that
  proof (cases rule: payments_after_move)
    case 1
    with J show ?thesis by (auto simp: books_ok_def match)
  next
    case 2
    moreover from J row have "books_match d row" by (simp add: books_ok_def)
    ultimately have "books_match d p" using st by (simp add: books_match_def settled_amount_def)
    with 2 J row st show ?thesis by (auto simp: match books_ok_def)
  qed
  with J show "books_ok ?d" by (auto simp: books_ok_def move_row_writes intro: less_le_trans)
next
  fix d row a e tx d'
  assume wf: "schema_wf d" and J: "books_ok d" and row: "row \<in> set (payment_intents d)"
    and v: "is_valid_payment_transition (pi_status row) SUCCEEDED (Some a)" and n: "settles (pi_status row) SUCCEEDED"
    and pair: "add_pair (\<lambda>txn. build_payment_settled_pair txn (pi_id row) (pi_amount_minor row)) (pi_amount_minor row)
      (move_row row SUCCEEDED a e d) = Inr (tx, d')"
  let ?d = "move_row row SUCCEEDED a e d"
  have st: "pi_status row \<notin> SETTLED" by (rule settled_settlement [OF v n])
  note w = add_pair_writes [OF pair]
  have bal: "account_balance ac p d' = account_balance ac p d +
     (if p \<noteq> pi_id row then 0 else if ac = MERCHANT_RECEIVABLE then pi_amount_minor row
      else if ac = PAYMENT_CLEARING then - pi_amount_minor row else 0)" for ac p
    unfolding balance_payment_pair [OF pair] by (simp add: account_balance_def move_row_writes)
  have ref: "refunded_amount p d' = refunded_amount p d" for p
    using w by (simp add: refunded_amount_def move_row_writes)
  have "books_match d' p \<and> (\<forall>r \<in> set (refunds d). pi_id p = rf_payment_intent_id r \<longrightarrow> pi_status p \<in> SETTLED)"
    if "p \<in> set (payment_intents ?d)" for p
    using wf row that
  proof (cases rule: payments_after_move)
    case 1
    with J show ?thesis by (auto simp: books_ok_def books_match_def bal ref)
  next
    case 2
    moreover from J row have "books_match d row" by (simp add: books_ok_def)
    ultimately show ?thesis
      using st by (simp add: books_match_def settled_amount_def bal ref account_names SETTLED_def)
  qed
  moreover have "pi_id row < next_uuid d" using wf row by (auto simp: schema_wf_def payments_wf_def fresh_ids_def)
  ultimately show "books_ok d'"
    using J w by (auto simp: books_ok_def move_row_writes build_payment_settled_pair_def entry_def intro: less_le_trans)
next
  fix d row amt r d'
  assume wf: "schema_wf d" and J: "books_ok d" and row: "row \<in> set (payment_intents d)"
    and st: "pi_status row \<in> REFUNDABLE_SOURCE_STATUSES" and run: "insert_refund (pi_id row) amt d = Inr (r, d')"
  note w = insert_refund_writes [OF run]
  have match: "books_match d' p \<longleftrightarrow> books_match d p" for p
    using w by (auto simp: books_match_def account_balance_def refunded_amount_def)
  have "pi_status p \<in> SETTLED" if "p \<in> set (payment_intents d)" "pi_id p = pi_id row" for p
    using payment_row_unique [OF wf that(1) row that(2)] st
    by (auto simp: SETTLED_def REFUNDABLE_SOURCE_STATUSES_def)
  moreover have "payment_intents d' = payment_intents d" "refunds d' = refunds d @ [r]"
    "ledger_entries d' = ledger_entries d" "next_uuid d' = Suc (next_uuid d)" "rf_payment_intent_id r = pi_id row"
    using w by simp_all
  ultimately show "books_ok d'" using J by (auto simp: books_ok_def match intro: less_SucI)
next
  fix d r assume wf: "schema_wf d" and J: "books_ok d" and r: "r \<in> set (refunds d)" "rf_status r = RF_PENDING"
  have "books_match (set_refund_status (rf_id r) RF_FAILED d) p \<longleftrightarrow> books_match d p" for p
    by (simp add: books_match_def account_balance_def refunded_after_failure [OF wf r] refund_status_writes)
  with J show "books_ok (set_refund_status (rf_id r) RF_FAILED d)"
    by (auto simp: books_ok_def refund_status_writes set_refund_status_def set_update_where)
next
  fix d r tx d' assume wf: "schema_wf d" and J: "books_ok d" and r: "r \<in> set (refunds d)" "rf_status r = RF_PENDING"
    and pair: "add_pair (\<lambda>txn. build_refund_settled_pair txn (rf_payment_intent_id r) (rf_amount_minor r))
      (rf_amount_minor r) (set_refund_status (rf_id r) RF_SUCCEEDED d) = Inr (tx, d')"
  note w = add_pair_writes [OF pair]
  have bal: "account_balance ac p d' = account_balance ac p d +
     (if p \<noteq> rf_payment_intent_id r then 0 else if ac = REFUND_LIABILITY then rf_amount_minor r
      else if ac = MERCHANT_RECEIVABLE then - rf_amount_minor r else 0)" for ac p
    unfolding balance_refund_pair [OF pair] by (simp add: account_balance_def refund_status_writes)
  have ref: "refunded_amount p d' = refunded_amount p d + (if p = rf_payment_intent_id r then rf_amount_minor r else 0)" for p
    using w refunded_after_success [OF wf r] by (simp add: refunded_amount_def)
  have "books_match d' p \<longleftrightarrow> books_match d p" for p
    by (auto simp: books_match_def bal ref account_names)
  moreover have "rf_payment_intent_id r < next_uuid d" by (rule refund_payment_old [OF wf r(1)])
  ultimately show "books_ok d'"
    using J w
    by (auto simp: books_ok_def refund_status_writes build_refund_settled_pair_def entry_def set_refund_status_def
        set_update_where intro: less_le_trans)
qed

end
