(* ===== verification/Histories.thy ===== *)
theory Histories
  imports Books
begin

text \<open>
  What the event table records of a payment: its history is a path of the state machine from
  its creation to the status it has now, one event per version of the row, every move made by
  an actor the transition table allows; and every recorded event has its outbox message, in the
  same order. Both are invariants of all services.
\<close>

section \<open>Histories\<close>

definition events_of :: "uuid \<Rightarrow> db \<Rightarrow> payment_event list" where
  "events_of p d = filter (\<lambda>e. pe_payment_intent_id e = p) (payment_events d)"

definition lawful_move :: "payment_status option \<Rightarrow> payment_event \<Rightarrow> bool" where
  "lawful_move cur e \<longleftrightarrow> pe_from_status e = cur \<and>
     (case cur of
        None \<Rightarrow> pe_to_status e = CREATED
      | Some f \<Rightarrow> is_valid_payment_transition f (pe_to_status e) (Some (pe_actor e)))"

fun lawful :: "payment_status option \<Rightarrow> payment_event list \<Rightarrow> bool" where
  "lawful cur [] = True"
| "lawful cur (e # es) = (lawful_move cur e \<and> lawful (Some (pe_to_status e)) es)"

definition history_matches :: "db \<Rightarrow> payment_intent \<Rightarrow> bool" where
  "history_matches d p \<longleftrightarrow>
     (let es = events_of (pi_id p) d in
      es \<noteq> [] \<and> lawful None es \<and> pe_to_status (last es) = pi_status p \<and> pi_version p = int (length es))"

definition history_ok :: "db \<Rightarrow> bool" where
  "history_ok d \<longleftrightarrow>
     (\<forall>e \<in> set (payment_events d). pe_payment_intent_id e < next_uuid d) \<and>
     (\<forall>p \<in> set (payment_intents d). history_matches d p)"

lemma lawful_snoc:
  "es \<noteq> [] \<Longrightarrow> lawful cur (es @ [e]) \<longleftrightarrow> lawful cur es \<and> lawful_move (Some (pe_to_status (last es))) e"
  by (induction cur es rule: lawful.induct) auto

text \<open>No lawful history goes on after a terminal status.\<close>

lemma lawful_terminal_last:
  "lawful cur es \<Longrightarrow> e \<in> set es \<Longrightarrow> pe_to_status e \<in> TERMINAL_PAYMENT_STATUSES \<Longrightarrow> e = last es"
proof (induction cur es rule: lawful.induct)
  case (2 cur x xs)
  show ?case
  proof (cases "e = x")
    case True
    have "xs = []"
    proof (cases xs)
      case (Cons y ys)
      with 2 True have "is_valid_payment_transition (pe_to_status e) (pe_to_status y) (Some (pe_actor y))"
        by (simp add: lawful_move_def)
      with 2(4) show ?thesis by (simp add: payment_terminal_iff)
    qed simp
    with True show ?thesis by simp
  next
    case False
    with 2 show ?thesis by auto
  qed
qed simp

lemma lawful_unknown_actor:
  "lawful cur es \<Longrightarrow> e \<in> set es \<Longrightarrow> pe_from_status e = Some UNKNOWN \<Longrightarrow> pe_actor e = RECONCILIATION"
  by (induction cur es rule: lawful.induct) (auto simp: lawful_move_def dest: unknown_exit_actor)

lemma history_matches_cong:
  "payment_events d' = payment_events d \<Longrightarrow> history_matches d' p = history_matches d p"
  by (simp add: history_matches_def events_of_def)

lemma history_move:
  assumes wf: "schema_wf d" and J: "history_ok d" and row: "row \<in> set (payment_intents d)"
    and v: "is_valid_payment_transition (pi_status row) t (Some a)"
  shows "history_ok (move_row row t a e d)"
proof -
  let ?d = "move_row row t a e d" and ?e = "transition_event (pi_id row) (pi_status row) t a d"
  have ev: "events_of p ?d = events_of p d @ (if p = pi_id row then [?e] else [])" for p
    by (simp add: events_of_def move_row_writes transition_event_def)
  have "history_matches ?d p" if "p \<in> set (payment_intents ?d)" for p
    using wf row that
  proof (cases rule: payments_after_move)
    case 1
    with J have "history_matches d p" by (simp add: history_ok_def)
    with 1 show ?thesis by (simp add: history_matches_def ev)
  next
    case 2
    from J row have "history_matches d row" by (simp add: history_ok_def)
    with 2 v show ?thesis
      by (simp add: history_matches_def ev Let_def lawful_snoc lawful_move_def transition_event_def)
  qed
  moreover have "pi_id row < next_uuid d" using wf row by (auto simp: schema_wf_def payments_wf_def fresh_ids_def)
  ultimately show ?thesis
    using J by (auto simp: history_ok_def move_row_writes transition_event_def intro: less_le_trans)
qed

lemma history_ok_cong:
  assumes "history_ok d" and "payment_events d' = payment_events d" and "payment_intents d' = payment_intents d"
    and "next_uuid d \<le> next_uuid d'"
  shows "history_ok d'"
proof -
  have "history_matches d' p = history_matches d p" for p by (rule history_matches_cong [OF assms(2)])
  with assms show ?thesis by (auto simp: history_ok_def)
qed

lemma history_ok_pair:
  assumes "history_ok d" and "add_pair b m d = Inr (tx, d')"
  shows "history_ok d'"
  using add_pair_writes [OF assms(2)] by - (rule history_ok_cong [OF assms(1)], simp_all)

interpretation history: program_invariant history_ok
proof
  fix d d' assume "history_ok d" and "unrelated d d'"
  then show "history_ok d'" by - (rule history_ok_cong [of d d'], simp_all add: unrelated_def)
next
  fix d rq i d' assume wf: "schema_wf d" and J: "history_ok d" and run: "created_rows rq d = Inr (i, d')"
  note w = created_rows_writes [OF run]
  have ev: "events_of p d' = events_of p d @ (if p = pi_id i then [created_event i d] else [])" for p
    using w(6) by (simp add: events_of_def created_event_def)
  have "events_of (pi_id i) d = []"
    using J w(1) by (auto simp: events_of_def filter_empty_conv history_ok_def)
  then have "history_matches d' i"
    using w(2,3) by (simp add: history_matches_def ev lawful_move_def created_event_def)
  moreover have "history_matches d' p" if "p \<in> set (payment_intents d)" for p
  proof -
    have "pi_id p \<noteq> pi_id i" using that new_payment_unknown [OF wf] w(1) by (metis image_eqI)
    with that J show ?thesis by (simp add: history_ok_def history_matches_def ev)
  qed
  ultimately show "history_ok d'"
    using J w by (auto simp: history_ok_def created_event_def intro: less_le_trans)
next
  fix d r assume "history_ok d"
  then show "history_ok (set_refund_status (rf_id r) RF_FAILED d)"
    by (rule history_ok_cong) (simp_all add: refund_status_writes)
next
  fix d r tx d' assume "history_ok d"
    and pair: "add_pair (\<lambda>txn. build_refund_settled_pair txn (rf_payment_intent_id r) (rf_amount_minor r))
      (rf_amount_minor r) (set_refund_status (rf_id r) RF_SUCCEEDED d) = Inr (tx, d')"
  then have "history_ok (set_refund_status (rf_id r) RF_SUCCEEDED d)"
    by - (rule history_ok_cong [of d], simp_all add: refund_status_writes)
  then show "history_ok d'" using pair by (rule history_ok_pair)
next
  fix d row amt r d' assume "history_ok d" and "insert_refund (pi_id row) amt d = Inr (r, d')"
  then show "history_ok d'"
    using insert_refund_writes [of "pi_id row" amt d r d'] by - (rule history_ok_cong [of d d'], simp_all)
qed (blast intro: history_move history_ok_pair)+

section \<open>The outbox tells it all\<close>

text \<open>The message of a creation names the payment; the message of a move names the payment and the
  status it moved to.\<close>

definition announces :: "payment_event \<Rightarrow> string \<times> string \<times> uuid \<times> (string \<times> json) list \<Rightarrow> bool" where
  "announces e m \<longleftrightarrow> (case m of (aggregate_type, event_type, aggregate_id, payload) \<Rightarrow>
     aggregate_id = pe_payment_intent_id e \<and>
     (if pe_from_status e = None
      then event_type = ''payment.created'' \<and> payload = [(''payment_id'', JStr (uuid_str aggregate_id))]
      else payload = [(''payment_id'', JStr (uuid_str aggregate_id)),
                      (''status'', JStr (payment_status_value (pe_to_status e)))]))"

definition outbox_complete :: "db \<Rightarrow> bool" where
  "outbox_complete d \<longleftrightarrow> list_all2 announces (payment_events d) (payment_messages d)"

lemma outbox_move: "outbox_complete d \<Longrightarrow> outbox_complete (move_row row t a e d)"
proof -
  assume J: "outbox_complete d"
  obtain o1 where o1: "outbox_events (move_row row t a e d) = outbox_events d @ [o1]"
    "ob_aggregate_type o1 = ''payment_intent''" "ob_aggregate_id o1 = pi_id row"
    "ob_payload o1 = [(''payment_id'', JStr (uuid_str (pi_id row))), (''status'', JStr (payment_status_value t))]"
    using transition_rows_writes(2) [of "pi_id row" "pi_status row" t "pi_version row + 1" a e d]
    by (auto simp: move_row_def)
  then have "payment_messages (move_row row t a e d) = payment_messages d @ [message o1]"
    by (simp add: payment_messages_def message_def)
  with J o1 show ?thesis
    by (simp add: outbox_complete_def move_row_writes list_all2_appendI announces_def message_def
        transition_event_def)
qed

lemma outbox_complete_cong:
  "payment_events d' = payment_events d \<Longrightarrow> outbox_events d' = outbox_events d \<Longrightarrow> outbox_complete d \<Longrightarrow> outbox_complete d'"
  by (simp add: outbox_complete_def payment_messages_def)

lemma outbox_complete_pair: "outbox_complete d \<Longrightarrow> add_pair b m d = Inr (tx, d') \<Longrightarrow> outbox_complete d'"
  using add_pair_writes [of b m d tx d'] by - (rule outbox_complete_cong [of d' d], simp_all)

interpretation outbox: program_invariant outbox_complete
proof
  fix d d' assume "outbox_complete d" and "unrelated d d'"
  then show "outbox_complete d'" by (simp add: unrelated_def outbox_complete_def)
next
  fix d rq i d' assume J: "outbox_complete d" and run: "created_rows rq d = Inr (i, d')"
  note w = created_rows_writes [OF run]
  from w(7) obtain o1 where o1: "outbox_events d' = outbox_events d @ [o1]"
    "ob_aggregate_type o1 = ''payment_intent''" "ob_aggregate_id o1 = pi_id i" "ob_event_type o1 = ''payment.created''"
    "ob_payload o1 = [(''payment_id'', JStr (uuid_str (pi_id i)))]" by blast
  then have "payment_messages d' = payment_messages d @ [message o1]"
    by (simp add: payment_messages_def message_def)
  with J o1 w(6) show "outbox_complete d'"
    by (simp add: outbox_complete_def list_all2_appendI announces_def message_def created_event_def)
next
  fix d row amt r d' assume "outbox_complete d" and "insert_refund (pi_id row) amt d = Inr (r, d')"
  then show "outbox_complete d'"
    using insert_refund_writes [of "pi_id row" amt d r d'] by - (rule outbox_complete_cong [of d' d], simp_all)
next
  fix d r tx d' assume "outbox_complete d"
    and pair: "add_pair (\<lambda>txn. build_refund_settled_pair txn (rf_payment_intent_id r) (rf_amount_minor r))
      (rf_amount_minor r) (set_refund_status (rf_id r) RF_SUCCEEDED d) = Inr (tx, d')"
  then have "outbox_complete (set_refund_status (rf_id r) RF_SUCCEEDED d)"
    by - (rule outbox_complete_cong [of _ d], simp_all add: refund_status_writes)
  then show "outbox_complete d'" using pair by (rule outbox_complete_pair)
next
  fix d r assume "outbox_complete d"
  then show "outbox_complete (set_refund_status (rf_id r) RF_FAILED d)"
    by - (rule outbox_complete_cong [of _ d], simp_all add: refund_status_writes)
qed (blast intro: outbox_move outbox_complete_pair)+

end
