(* ===== verification/Program.thy ===== *)
theory Program
  imports Histories
begin

text \<open>
  The program as a whole: what its entry points can be asked to do, one operation after
  another, each in a session of its own on the committed database (a request of the API, a
  delivery to the webhook endpoint, a turn of the worker, an operator's replay, a
  reconciliation pass). An invariant of the services is one of every reachable state.
\<close>

datatype operation =
    CreatePayment payment_request
  | CapturePayment uuid uuid string string
  | RefundPayment uuid uuid string string int
  | ReceiveWebhook string string string "(string \<times> json) list" string
  | WorkerTurn "nat \<Rightarrow> poll"
  | RequeueDeadLetter uuid
  | ReconcilePayment uuid uuid
  | ReconciliationPass "uuid option"

definition discard :: "('p, 'a) prog \<Rightarrow> ('p, unit) prog" where
  "discard m = bnd m (\<lambda>_. ret ())"

text \<open>\<open>env\<close> packs what the program takes from outside: the digest, the text of an exception,
  the payment provider.\<close>

record 'p env =
  env_sha256hex :: "string \<Rightarrow> string"
  env_exn_text :: "exn \<Rightarrow> string"
  env_provider :: "'p provider"

fun perform :: "'p env \<Rightarrow> operation \<Rightarrow> ('p, unit) prog" where
  "perform E (CreatePayment rq) = discard (create_payment (env_sha256hex E) (env_provider E) rq)"
| "perform E (CapturePayment m p k b) = discard (capture_payment (env_sha256hex E) (env_provider E) m p k b)"
| "perform E (RefundPayment m p k b amt) =
     discard (refund_payment (env_sha256hex E) (env_provider E) m p k b amt)"
| "perform E (ReceiveWebhook pn pe et pl sg) = receive_webhook pn pe et pl sg"
| "perform E (WorkerTurn ws) = discard (run_batch (env_exn_text E) webhook_effect_dispatch ws BATCH_SIZE)"
| "perform E (RequeueDeadLetter eid) = discard (requeue_dead_letter eid)"
| "perform E (ReconcilePayment p m) = discard (reconcile_payment p m (env_provider E))"
| "perform E (ReconciliationPass m) = discard (run_reconciliation_pass (env_provider E) m)"

text \<open>What remains when the operation's session closes: the committed rows and the provider.\<close>

definition run_operation :: "'p env \<Rightarrow> operation \<Rightarrow> instant \<Rightarrow> db \<times> 'p \<Rightarrow> db \<times> 'p" where
  "run_operation E op t sys =
     (let s = snd (perform E op (open_session (set_clock t (fst sys)) (snd sys)))
      in (committed s, prov_state s))"

definition initial_db :: "instant \<Rightarrow> merchant list \<Rightarrow> db" where
  "initial_db t ms = (empty_db t)\<lparr>next_uuid := Suc (Max (insert 0 (m_id ` set ms))), merchants := ms\<rparr>"

text \<open>The states the program reaches with operations that satisfy \<open>allowed\<close>.\<close>

inductive reachable :: "(operation \<Rightarrow> bool) \<Rightarrow> 'p env \<Rightarrow> db \<times> 'p \<Rightarrow> bool"
  for allowed :: "operation \<Rightarrow> bool" and E :: "'p env" where
  start: "reachable allowed E (initial_db t ms, p)"
| step: "reachable allowed E sys \<Longrightarrow> allowed op \<Longrightarrow> reachable allowed E (run_operation E op t sys)"

inductive_cases reachable_stepE: "reachable allowed E (run_operation E op t sys)"

text \<open>Everything but the worker, the only caller of the webhook effect.\<close>

fun not_worker :: "operation \<Rightarrow> bool" where
  "not_worker (WorkerTurn ws) = False"
| "not_worker (RequeueDeadLetter eid) = False"
| "not_worker (ReceiveWebhook pn pe et pl sg) = False"
| "not_worker _ = True"

section \<open>Invariants of the program\<close>

lemma keeps_discard: "keeps I m \<Longrightarrow> keeps I (discard m)"
  unfolding discard_def by (intro keeps_rules)

lemma schema_wf_initial: "schema_wf (initial_db t ms)"
  by (simp add: schema_wf_def payments_wf_def refunds_wf_def keys_wf_def attempts_wf_def transactions_wf_def
      webhooks_wf_def initial_db_def empty_db_def)

lemma run_operation_keeps:
  assumes "keeps (session_inv J) (perform E op)" and "schema_wf (fst sys)" and "J (set_clock t (fst sys))"
  shows "schema_wf (fst (run_operation E op t sys)) \<and> J (fst (run_operation E op t sys))"
proof -
  have "session_inv J (open_session (set_clock t (fst sys)) (snd sys))"
    using assms by (intro session_inv_open schema_wf_clock)
  with assms(1) have "session_inv J (snd (perform E op (open_session (set_clock t (fst sys)) (snd sys))))"
    by (simp add: keeps_def)
  then show ?thesis by (simp add: run_operation_def Let_def session_inv_committed)
qed

context money_invariant
begin

lemma perform_payments: "not_worker op \<Longrightarrow> keeps (session_inv J) (perform E op)"
  by (cases op)
    (auto intro!: keeps_discard rec.inv_create_payment rec.inv_capture_payment rec.inv_refund_payment
      rec.inv_reconcile_payment rec.inv_run_reconciliation_pass)

lemma J_set_clock: "J d \<Longrightarrow> J (set_clock t d)"
  using unrelated_step unrelated_statements(8) by blast

lemma reachable_payments:
  assumes "\<And>t ms. J (initial_db t ms)" and "reachable not_worker E sys"
  shows "schema_wf (fst sys) \<and> J (fst sys)"
  using assms(2)
proof induction
  case (step sys op t)
  then show ?case by (intro run_operation_keeps perform_payments) (auto intro: J_set_clock)
qed (simp add: assms(1) schema_wf_initial)

end

context program_invariant
begin

lemma perform_all: "keeps (session_inv J) (perform E op)"
  by (cases op)
    (auto intro!: keeps_discard rec.inv_create_payment rec.inv_capture_payment rec.inv_refund_payment
      rec.inv_reconcile_payment rec.inv_run_reconciliation_pass worker.inv_receive_webhook worker.inv_run_batch
      worker.inv_requeue)

lemma reachable_all:
  assumes "\<And>t ms. J (initial_db t ms)" and "reachable allowed E sys"
  shows "schema_wf (fst sys) \<and> J (fst sys)"
  using assms(2)
proof induction
  case (step sys op t)
  then show ?case by (intro run_operation_keeps perform_all) (auto intro: J_set_clock)
qed (simp add: assms(1) schema_wf_initial)

end

end
