(* ===== verification/Replay.thy ===== *)
theory Replay
  imports Program
begin

text \<open>
  What a client gets from an idempotency key. The locale \<open>claimed_service\<close> is the contract of
  the work a service does between its claim and its answer; from it follow, once for all three
  services, that a repeated request gets the first answer and does nothing, and that a request
  that failed can be sent again with the same key.
\<close>

section \<open>A service around its claim\<close>

definition serve :: "(uuid \<Rightarrow> ('p, response) prog) \<Rightarrow> uuid \<Rightarrow> string \<Rightarrow> string \<Rightarrow> ('p, response) prog" where
  "serve body m k f =
     bnd (claim_idempotency_key [] m k f DEFAULT_STALE_AFTER) (\<lambda>claim. on_claim claim body)"

text \<open>\<open>ks\<close> are the keys as the claim left them, \<open>k0\<close> as they were before it.\<close>

definition in_claim :: "idempotency_key list \<Rightarrow> idempotency_key list \<Rightarrow> 'p session \<Rightarrow> bool" where
  "in_claim k0 ks s \<longleftrightarrow> idempotency_keys (working s) = ks \<and> idempotency_keys (committed s) \<in> {k0, ks}"

definition completed :: "uuid \<Rightarrow> idempotency_key list \<Rightarrow> response \<Rightarrow> 'p session \<Rightarrow> bool" where
  "completed kid ks resp s \<longleftrightarrow>
     (\<exists>pid c b ro t. resp = (Some c, Some b) \<and> committed s = working s \<and>
        idempotency_keys (working s) = update_where (\<lambda>r. ik_id r = kid) (complete_row pid c b ro t) ks)"

definition abandoned :: "idempotency_key list \<Rightarrow> idempotency_key list \<Rightarrow> 'p session \<Rightarrow> bool" where
  "abandoned k0 ks s \<longleftrightarrow> idempotency_keys (committed s) \<in> {k0, ks}"

lemma in_claim_abandoned: "in_claim k0 ks s \<Longrightarrow> abandoned k0 ks s"
  by (simp add: in_claim_def abandoned_def)

section \<open>Statements that leave the keys alone\<close>

lemma in_claim_execute:
  "(\<And>d. idempotency_keys (f d) = idempotency_keys d) \<Longrightarrow> keeps (in_claim k0 ks) (execute f)"
  by (simp add: keeps_def in_claim_def execute_def)

lemma in_claim_execute_checked:
  "(\<And>d x d'. f d = Inr (x, d') \<Longrightarrow> idempotency_keys d' = idempotency_keys d) \<Longrightarrow> keeps (in_claim k0 ks) (execute_checked f)"
  by (fastforce simp: keeps_def in_claim_def execute_checked_def split: sum.splits)

lemma in_claim_quiet:
  "keeps (in_claim k0 ks) commit" "keeps (in_claim k0 ks) (inc n)" "keeps (in_claim k0 ks) (call_provider c)"
  "keeps (in_claim k0 ks) (remember i)" "keeps (in_claim k0 ks) (materialise row)"
  by (auto simp: keeps_def in_claim_def commit_def inc_def call_provider_def remember_def materialise_def Let_def
      split: prod.splits)

lemma in_claim_lock: "keeps (in_claim k0 ks) (lock_payment p m)"
  unfolding lock_payment_def by (intro keeps_rules in_claim_quiet)

lemma in_claim_relock: "keeps (in_claim k0 ks) (relock p m)"
  unfolding relock_def by (intro keeps_rules in_claim_lock)

lemma in_claim_transition: "keeps (in_claim k0 ks) (apply_transition i t a e)"
proof -
  have "keeps (in_claim k0 ks) (execute (transition_rows p f t v a e) :: ('p, unit) prog)" for p f v
    by (rule in_claim_execute)
      (simp add: transition_rows_def insert_outbox_event_def insert_payment_event_def write_transition_def)
  then show "keeps (in_claim k0 ks) (apply_transition i t a e :: ('p, payment_intent) prog)"
    unfolding apply_transition_def Let_def by (intro keeps_rules in_claim_quiet)
qed

lemma in_claim_inserts:
  "keeps (in_claim k0 ks) (execute_checked (created_rows rq))"
  "keeps (in_claim k0 ks) (execute_checked (insert_payment_attempt p nm oc cl n))"
  "keeps (in_claim k0 ks) (execute_checked (insert_provider_transaction aid nm ptx rs rr))"
  "keeps (in_claim k0 ks) (execute_checked (insert_refund p amt))"
  "keeps (in_claim k0 ks) (execute_checked (add_pair b amt))"
  "keeps (in_claim k0 ks) (execute (insert_audit_log mo x y z))"
  "keeps (in_claim k0 ks) (execute (set_refund_status rid st))"
  by (auto intro!: in_claim_execute in_claim_execute_checked
      simp: created_rows_def insert_payment_intent_def insert_outbox_event_def insert_payment_event_def
        insert_audit_log_def set_refund_status_def Let_def
      dest: insert_attempt_writes insert_ptx_writes insert_refund_writes add_pair_writes
      split: sum.splits prod.splits if_splits)

lemmas in_claim_rules = in_claim_quiet in_claim_lock in_claim_relock in_claim_transition in_claim_inserts

lemma in_claim_bnd:
  "keeps (in_claim k0 ks) m \<Longrightarrow> (\<And>x. triple (in_claim k0 ks) (g x) Q (abandoned k0 ks)) \<Longrightarrow>
     triple (in_claim k0 ks) (bnd m g) Q (abandoned k0 ks)"
  by (rule triple_bnd [where Q = "\<lambda>_. in_claim k0 ks"])
    (auto simp: keeps_triple intro: triple_weaken in_claim_abandoned)

lemma in_claim_andthen:
  "keeps (in_claim k0 ks) m \<Longrightarrow> triple (in_claim k0 ks) g Q (abandoned k0 ks) \<Longrightarrow>
     triple (in_claim k0 ks) (andthen m g) Q (abandoned k0 ks)"
  unfolding andthen_def by (rule in_claim_bnd)

lemma in_claim_raise: "triple (in_claim k0 ks) (raise e) Q (abandoned k0 ks)"
  by (simp add: triple_def raise_def in_claim_abandoned)

lemma respond_completes: "triple (in_claim k0 ks) (respond kid p r c b) (completed kid ks) (abandoned k0 ks)"
  by (fastforce simp: triple_def respond_def completed_def in_claim_def abandoned_def prog_defs
      complete_idempotency_key_def split: if_splits)

section \<open>What a claim finds\<close>

lemma claim_rows_claimed:
  assumes wf: "keys_wf d" and run: "claim_rows [] m k f st d = (Some c, d1)" and won: "outcome c = CLAIMED"
  shows "select_one (same_key m k) (idempotency_keys d1) = Some (key_row c)"
    and "ik_request_fingerprint (key_row c) = f" and "ik_status (key_row c) = IK_PENDING"
    and "\<And>e. select_one (same_key m k) (idempotency_keys d) = Some e \<Longrightarrow> ik_id (key_row c) = ik_id e"
proof -
  have "select_one (same_key m k) (idempotency_keys d1) = Some (key_row c) \<and>
      ik_request_fingerprint (key_row c) = f \<and> ik_status (key_row c) = IK_PENDING \<and>
      (\<forall>e. select_one (same_key m k) (idempotency_keys d) = Some e \<longrightarrow> ik_id (key_row c) = ik_id e)"
  proof (cases "select_one (same_key m k) (idempotency_keys d)")
    case None
    with insert_claim_new [OF None, of f] run show ?thesis
      by (auto simp: claim_rows_undisturbed select_one_append)
  next
    case (Some e)
    let ?t = "if ik_status e = IK_FAILED then None else Some (effective_locked_at e)"
    from Some run won have e: "ik_request_fingerprint e = f" "ik_status e \<noteq> IK_COMPLETED"
      and rec: "reclaim e (ik_status e) (now d) ?t d = (Some (key_row c), d1)"
      using reclaim_hits [of e d e "ik_status e" ?t "now d"] reclaimable_self [of e]
      by (cases "ik_status e"; auto simp: claim_rows_undisturbed split: if_splits prod.splits dest: select_one_Some)+
    have self: "reclaimable e (ik_status e) ?t e"
      using reclaimable_self [of e] e(2) by (cases "ik_status e") auto
    have "x = e" if "reclaimable e (ik_status e) ?t x" "x \<in> set (idempotency_keys d)" for x
      using that wf Some
      by (auto simp: reclaimable_def keys_wf_def fresh_ids_def dest!: select_one_Some intro: distinct_map_inj_row)
    then have "select_one (reclaimable e (ik_status e) ?t) (idempotency_keys d) = Some e"
      using self Some select_one_None [of "reclaimable e (ik_status e) ?t" "idempotency_keys d"]
      by (metis option.exhaust select_one_Some)
    then have "key_row c = reclaimed_row (now d) (now d) e" using rec by (auto simp: reclaim_def Let_def)
    moreover have "d1 = snd (reclaim e (ik_status e) (now d) ?t d)" using rec by simp
    ultimately show ?thesis
      using select_reclaim [of m k e "ik_status e" "now d" ?t d] Some self e(1) by (simp add: reclaimed_row_def)
  qed
  then show "select_one (same_key m k) (idempotency_keys d1) = Some (key_row c)"
    and "ik_request_fingerprint (key_row c) = f" and "ik_status (key_row c) = IK_PENDING"
    and "\<And>e. select_one (same_key m k) (idempotency_keys d) = Some e \<Longrightarrow> ik_id (key_row c) = ik_id e" by blast+
qed

lemma claim_rows_lost:
  "claim_rows [] m k f st d = (c, d1) \<Longrightarrow> c = None \<or> outcome (the c) \<noteq> CLAIMED \<Longrightarrow> d1 = d"
  by (auto simp: claim_rows_undisturbed split: option.splits if_splits prod.splits)

text \<open>A session that has written nothing yet.\<close>

definition idle :: "db \<Rightarrow> 'p session \<Rightarrow> bool" where
  "idle d s \<longleftrightarrow> working s = d \<and> committed s = d"

lemma idle_open [simp]: "idle d (open_session d p)"
  by (simp add: idle_def open_session_def)

lemma claim_replays:
  assumes "select_one (same_key m k) (idempotency_keys d) = Some r"
    and "ik_request_fingerprint r = f" and "ik_status r = IK_COMPLETED" and "idle d s"
  shows "serve body m k f s = (Inr (ik_response_status r, ik_response_body r), s)"
  using assms
  by (simp add: serve_def claim_idempotency_key_def prog_defs claim_rows_undisturbed on_claim_def idle_def)

text \<open>What \<open>fail_claim_and_raise\<close> makes of the keys, and when a key can be claimed again.\<close>

definition release :: "uuid \<Rightarrow> instant \<Rightarrow> idempotency_key list \<Rightarrow> idempotency_key list" where
  "release kid t ks =
     (case select_one (\<lambda>r. ik_id r = kid) ks of
        Some r \<Rightarrow>
          if ik_status r = IK_PENDING
          then update_where (\<lambda>r. ik_id r = kid) (\<lambda>r. r\<lparr>ik_status := IK_FAILED, ik_updated_at := t\<rparr>) ks
          else ks
      | None \<Rightarrow> ks)"

definition reclaimed_later :: "uuid \<Rightarrow> string \<Rightarrow> string \<Rightarrow> idempotency_key list \<Rightarrow> bool" where
  "reclaimed_later m k f ks \<longleftrightarrow>
     (case select_one (same_key m k) ks of
        None \<Rightarrow> True
      | Some r \<Rightarrow> ik_status r = IK_FAILED \<and> ik_request_fingerprint r = f)"

lemma select_by_id:
  "distinct (map ik_id ks) \<Longrightarrow> r \<in> set ks \<Longrightarrow> select_one (\<lambda>x. ik_id x = ik_id r) ks = Some r"
  by (induction ks) (auto simp: image_iff)

lemma release_claimed:
  assumes "distinct (map ik_id ks)" and "select_one (same_key m k) ks = Some r"
    and "ik_request_fingerprint r = f" and "ik_status r = IK_PENDING \<or> ik_status r = IK_FAILED"
  shows "reclaimed_later m k f (release (ik_id r) t ks)"
proof -
  from assms(2) have "r \<in> set ks" by (auto dest: select_one_Some)
  note sel = select_by_id [OF assms(1) this]
  show ?thesis
  proof (cases "ik_status r = IK_PENDING")
    case True
    have "select_one (same_key m k) (update_where (\<lambda>x. ik_id x = ik_id r) (\<lambda>x. x\<lparr>ik_status := IK_FAILED, ik_updated_at := t\<rparr>) ks) =
        Some (r\<lparr>ik_status := IK_FAILED, ik_updated_at := t\<rparr>)"
      using assms(2) by (subst select_one_update_where) (auto simp: same_key_def)
    with True sel assms(3) show ?thesis by (simp add: release_def reclaimed_later_def)
  next
    case False
    with sel assms show ?thesis by (simp add: release_def reclaimed_later_def)
  qed
qed

text \<open>The claim itself rolled back.\<close>

lemma release_before:
  assumes wf: "keys_wf d" and run: "claim_rows [] m k f st d = (Some c, d1)" and won: "outcome c = CLAIMED"
  shows "reclaimed_later m k f (release (ik_id (key_row c)) t (idempotency_keys d))"
proof (cases "select_one (same_key m k) (idempotency_keys d)")
  case None
  with run insert_claim_new [OF None, of f] have "ik_id (key_row c) = next_uuid d"
    by (auto simp: claim_rows_undisturbed)
  with wf have "select_one (\<lambda>r. ik_id r = ik_id (key_row c)) (idempotency_keys d) = None"
    by (auto simp: select_one_None keys_wf_def fresh_ids_def)
  with None show ?thesis by (simp add: release_def reclaimed_later_def)
next
  case (Some e)
  from Some run won have e: "ik_request_fingerprint e = f" "ik_status e \<noteq> IK_COMPLETED"
    by (auto simp: claim_rows_undisturbed split: if_splits prod.splits)
  have "ik_id (key_row c) = ik_id e" by (rule claim_rows_claimed(4) [OF wf run won Some])
  with e Some wf show ?thesis
    using release_claimed [of "idempotency_keys d" m k e f t] by (cases "ik_status e") (auto simp: keys_wf_def fresh_ids_def)
qed

section \<open>The contract of the claimed work\<close>

locale claimed_service =
  fixes body :: "uuid \<Rightarrow> ('p, response) prog"
  assumes body_completes: "triple (in_claim k0 ks) (body kid) (completed kid ks) (abandoned k0 ks)"
begin

text \<open>A call that returned leaves its key completed with the answer it gave.\<close>

lemma answered:
  assumes wf: "keys_wf d" and idle: "idle d s" and run: "serve body m k f s = (Inr resp, s')"
  obtains r where "select_one (same_key m k) (idempotency_keys (committed s')) = Some r"
    and "ik_request_fingerprint r = f" and "ik_status r = IK_COMPLETED"
    and "resp = (ik_response_status r, ik_response_body r)"
proof -
  obtain c d1 where claim: "claim_rows [] m k f DEFAULT_STALE_AFTER d = (c, d1)" by force
  with run idle obtain c' where c: "c = Some c'" and out: "outcome c' = CLAIMED \<or> outcome c' = REPLAY"
    by (cases c; cases "outcome (the c)")
      (auto simp: serve_def claim_idempotency_key_def on_claim_def prog_defs idle_def)
  show thesis
  proof (cases "outcome c' = CLAIMED")
    case True
    let ?s = "s\<lparr>working := d1\<rparr>"
    note won = claim_rows_claimed [OF wf claim [unfolded c] True]
    have "try_except (body (ik_id (key_row c'))) (fail_claim_and_raise (ik_id (key_row c'))) ?s = (Inr resp, s')"
      using run idle claim c True
      by (simp add: serve_def claim_idempotency_key_def on_claim_def prog_defs idle_def Let_def)
    then have "body (ik_id (key_row c')) ?s = (Inr resp, s')"
      by (auto simp: try_except_def fail_claim_and_raise_def prog_defs fail_idempotency_key_def
          split: prod.splits sum.splits option.splits if_splits)
    then have "completed (ik_id (key_row c')) (idempotency_keys d1) resp s'"
      by (rule tripleD(1) [OF body_completes [of "idempotency_keys d"], rotated])
        (use idle in \<open>simp add: in_claim_def idle_def\<close>)
    then obtain pid st b ro t where resp: "resp = (Some st, Some b)" "committed s' = working s'"
      and keys: "idempotency_keys (working s') =
        update_where (\<lambda>r. ik_id r = ik_id (key_row c')) (complete_row pid st b ro t) (idempotency_keys d1)"
      by (auto simp: completed_def)
    have "select_one (same_key m k) (idempotency_keys (working s')) = Some (complete_row pid st b ro t (key_row c'))"
      unfolding keys using won(1)
      by (subst select_one_update_where) (auto simp: same_key_def complete_row_def)
    with won(2) resp show thesis
      by (intro that [of "complete_row pid st b ro t (key_row c')"]) (simp_all add: complete_row_def)
  next
    case False
    with out have rep: "outcome c' = REPLAY" by blast
    with claim c have d1: "d1 = d" using claim_rows_lost [OF claim] by simp
    from claim c rep have "select_one (same_key m k) (idempotency_keys d) = Some (key_row c')"
      "ik_request_fingerprint (key_row c') = f" "ik_status (key_row c') = IK_COMPLETED"
      by (auto simp: claim_rows_undisturbed split: option.splits if_splits prod.splits)
    moreover have "resp = (ik_response_status (key_row c'), ik_response_body (key_row c')) \<and> committed s' = d"
      using run idle claim c rep d1
      by (auto simp: serve_def claim_idempotency_key_def on_claim_def prog_defs idle_def)
    ultimately show thesis by (intro that) auto
  qed
qed

text \<open>Sent again, at any later time, the request gets the same answer and changes nothing.\<close>

lemma replayed:
  assumes "keys_wf d" and "idle d s" and "serve body m k f s = (Inr resp, s')" and "idle (set_clock t (committed s')) s2"
  shows "serve body m k f s2 = (Inr resp, s2)"
proof -
  obtain r where "select_one (same_key m k) (idempotency_keys (committed s')) = Some r"
    "ik_request_fingerprint r = f" "ik_status r = IK_COMPLETED" "resp = (ik_response_status r, ik_response_body r)"
    using assms(1-3) by (rule answered)
  then show ?thesis using claim_replays [OF _ _ _ assms(4)] by (simp add: set_clock_def)
qed

text \<open>A call that won its claim and then failed leaves the key free: the same request can be
  sent again and wins its claim.\<close>

lemma failed_retries:
  assumes wf: "keys_wf d" and won: "fst (claim_once (m, k, f) d) = CLAIMED"
    and idle: "idle d s" and run: "serve body m k f s = (Inl e, s')"
  shows "fst (claim_once (m, k, f) (set_clock t (committed s'))) = CLAIMED"
proof -
  obtain c d1 where claim: "claim_rows [] m k f DEFAULT_STALE_AFTER d = (c, d1)" by force
  then obtain c' where c: "c = Some c'" and out: "outcome c' = CLAIMED"
    using won by (cases c) (auto simp: claim_once_def)
  let ?kid = "ik_id (key_row c')" and ?s = "s\<lparr>working := d1\<rparr>"
  note row = claim_rows_claimed [OF wf claim [unfolded c] out]
  have "try_except (body ?kid) (fail_claim_and_raise ?kid) ?s = (Inl e, s')"
    using run idle claim c out
    by (simp add: serve_def claim_idempotency_key_def on_claim_def prog_defs idle_def Let_def)
  then obtain e' s2 where body: "body ?kid ?s = (Inl e', s2)"
    and fail: "(fail_claim_and_raise ?kid e' s2 :: (exn + response) \<times> 'p session) = (Inl e, s')"
    by (auto simp: try_except_def split: prod.splits sum.splits)
  have "abandoned (idempotency_keys d) (idempotency_keys d1) s2"
    by (rule tripleD(2) [OF body_completes _ body]) (use idle in \<open>simp add: in_claim_def idle_def\<close>)
  then have keys: "idempotency_keys (committed s2) = idempotency_keys d \<or>
      idempotency_keys (committed s2) = idempotency_keys d1"
    by (simp add: abandoned_def)
  have after: "idempotency_keys (committed s') = release ?kid (now (committed s2)) (idempotency_keys (committed s2))"
    using fail by (auto simp: fail_claim_and_raise_def prog_defs find_key_row_def fail_idempotency_key_def
        release_def split: option.splits if_splits)
  have "reclaimed_later m k f (idempotency_keys (committed s'))"
    unfolding after using keys
  proof
    assume "idempotency_keys (committed s2) = idempotency_keys d1"
    with row show "reclaimed_later m k f (release ?kid (now (committed s2)) (idempotency_keys (committed s2)))"
      using claim_rows_keys_wf [OF wf, of m k f DEFAULT_STALE_AFTER] claim
      by (intro release_claimed) (auto simp: keys_wf_def fresh_ids_def)
  next
    assume "idempotency_keys (committed s2) = idempotency_keys d"
    then show "reclaimed_later m k f (release ?kid (now (committed s2)) (idempotency_keys (committed s2)))"
      using release_before [OF wf claim [unfolded c] out] by simp
  qed
  then show ?thesis by (auto simp: reclaimed_later_def fst_claim_once decide_def set_clock_def split: option.splits)
qed

end

lemma create_completes: "triple (in_claim k0 ks) (create_payment_claimed P rq kid) (completed kid ks) (abandoned k0 ks)"
  unfolding create_payment_claimed_def create_intent_def start_processing_def assess_and_audit_def block_payment_def
    record_authorization_def record_attempt_def
  by (intro in_claim_bnd in_claim_andthen triple_if respond_completes keeps_rules in_claim_rules)

lemma capture_completes: "triple (in_claim k0 ks) (capture_claimed P m p kid) (completed kid ks) (abandoned k0 ks)"
  unfolding capture_claimed_def capture_locked_def record_payment_settled_def
  by (intro in_claim_bnd triple_case_option in_claim_raise respond_completes keeps_rules in_claim_rules)

lemma refund_completes: "triple (in_claim k0 ks) (refund_claimed P m p k amt kid) (completed kid ks) (abandoned k0 ks)"
proof -
  have reserve: "keeps (in_claim k0 ks) (reserve_refund m p amt)"
    unfolding reserve_refund_def reserve_locked_def by (intro keeps_rules in_claim_rules)
  have "triple (in_claim k0 ks) (settle_refund m p r res kid) (completed kid ks) (abandoned k0 ks)" for r res
    unfolding settle_refund_def settle_refund_row_def settle_payment_status_def record_refund_settled_def Let_def
    by (intro in_claim_bnd in_claim_andthen respond_completes keeps_rules in_claim_rules)
  then show ?thesis
    unfolding refund_claimed_def
    by (intro in_claim_bnd reserve) (auto intro!: in_claim_bnd in_claim_quiet split: prod.split)
qed

interpretation create: claimed_service "create_payment_claimed P rq" for P rq
  by unfold_locales (rule create_completes)

interpretation capture: claimed_service "capture_claimed P m p" for P m p
  by unfold_locales (rule capture_completes)

interpretation refund: claimed_service "refund_claimed P m p k amt" for P m p k amt
  by unfold_locales (rule refund_completes)

end
