(* ===== verification/Permanence.thy ===== *)
theory Permanence
  imports Replay
begin

text \<open>
  A completed idempotency key is never touched again: no operation of the program changes or
  removes its row. With the replay lemmas this makes an answer permanent, whatever the program
  is asked to do in between.
\<close>

section \<open>Completed rows\<close>

definition completed_kept :: "idempotency_key list \<Rightarrow> idempotency_key list \<Rightarrow> bool" where
  "completed_kept k0 k1 \<longleftrightarrow> (\<forall>r \<in> set k0. ik_status r = IK_COMPLETED \<longrightarrow> r \<in> set k1)"

lemma completed_kept_refl [simp]: "completed_kept ks ks"
  by (simp add: completed_kept_def)

lemma completed_kept_trans: "completed_kept k0 k1 \<Longrightarrow> completed_kept k1 k2 \<Longrightarrow> completed_kept k0 k2"
  by (auto simp: completed_kept_def)

lemma completed_kept_update:
  "(\<And>r. r \<in> set ks \<Longrightarrow> P r \<Longrightarrow> ik_status r \<noteq> IK_COMPLETED) \<Longrightarrow> completed_kept ks (update_where P f ks)"
  by (auto simp: completed_kept_def set_update_where image_iff)

lemma claim_rows_kept:
  assumes "keys_wf d"
  shows "completed_kept (idempotency_keys d) (idempotency_keys (snd (claim_rows [] m k f st d)))"
proof (cases "select_one (same_key m k) (idempotency_keys d)")
  case None
  from insert_claim_new [OF None, of f] None show ?thesis
    by (auto simp: claim_rows_undisturbed completed_kept_def)
next
  case (Some e)
  let ?t = "if ik_status e = IK_FAILED then None else Some (effective_locked_at e)"
  have "completed_kept (idempotency_keys d) (idempotency_keys (snd (reclaim e (ik_status e) n ?t d)))"
    if "ik_status e \<noteq> IK_COMPLETED" for n
    using that by (auto simp: reclaim_def Let_def reclaimable_def intro!: completed_kept_update)
  with Some show ?thesis by (auto simp: claim_rows_undisturbed case_prod_beta)
qed

lemma release_kept: "distinct (map ik_id ks) \<Longrightarrow> completed_kept ks (release kid t ks)"
proof -
  assume dist: "distinct (map ik_id ks)"
  have "completed_kept ks (update_where (\<lambda>r. ik_id r = kid) f ks)"
    if "select_one (\<lambda>r. ik_id r = kid) ks = Some r" and "ik_status r = IK_PENDING" for r f
  proof (rule completed_kept_update)
    fix x assume "x \<in> set ks" "ik_id x = kid"
    with that dist have "x = r" by (auto dest!: select_one_Some intro: distinct_map_inj_row)
    with that show "ik_status x \<noteq> IK_COMPLETED" by simp
  qed
  then show ?thesis by (auto simp: release_def split: option.splits)
qed

context claimed_service
begin

lemma completed_rows_kept:
  assumes wf: "keys_wf d" and idle: "idle d s" and run: "serve body m k f s = (res, s')"
  shows "completed_kept (idempotency_keys d) (idempotency_keys (committed s'))"
proof -
  obtain c d1 where claim: "claim_rows [] m k f DEFAULT_STALE_AFTER d = (c, d1)" by force
  show ?thesis
  proof (cases "c = None \<or> outcome (the c) \<noteq> CLAIMED")
    case True
    with claim_rows_lost [OF claim] have "d1 = d" by blast
    with True run idle claim show ?thesis
      by (cases c; cases "outcome (the c)")
        (auto simp: serve_def claim_idempotency_key_def on_claim_def prog_defs idle_def)
  next
    case False
    then obtain c' where c: "c = Some c'" and out: "outcome c' = CLAIMED" by auto
    let ?kid = "ik_id (key_row c')" and ?s = "s\<lparr>working := d1\<rparr>" and ?ks = "idempotency_keys d1"
    note row = claim_rows_claimed [OF wf claim [unfolded c] out]
    have dist: "distinct (map ik_id ?ks)" "distinct (map ik_id (idempotency_keys d))"
      using claim_rows_keys_wf [OF wf, of m k f DEFAULT_STALE_AFTER] claim wf
      by (auto simp: keys_wf_def fresh_ids_def)
    have kept: "completed_kept (idempotency_keys d) ?ks" using claim_rows_kept [OF wf, of m k f DEFAULT_STALE_AFTER] claim by simp
    have ran: "try_except (body ?kid) (fail_claim_and_raise ?kid) ?s = (res, s')"
      using run idle claim c out
      by (simp add: serve_def claim_idempotency_key_def on_claim_def prog_defs idle_def Let_def)
    have start: "in_claim (idempotency_keys d) ?ks ?s" using idle by (simp add: in_claim_def idle_def)
    obtain res1 s2 where body: "body ?kid ?s = (res1, s2)" by force
    show ?thesis
    proof (cases res1)
      case (Inr resp)
      with ran body have "s' = s2" by (simp add: try_except_def)
      moreover have "completed ?kid ?ks resp s2" by (rule tripleD(1) [OF body_completes start body [unfolded Inr]])
      moreover have "completed_kept ?ks (update_where (\<lambda>r. ik_id r = ?kid) g ?ks)" for g
      proof (rule completed_kept_update)
        fix x assume "x \<in> set ?ks" "ik_id x = ?kid"
        with row(1) dist(1) have "x = key_row c'" by (auto dest!: select_one_Some intro: distinct_map_inj_row)
        with row(3) show "ik_status x \<noteq> IK_COMPLETED" by simp
      qed
      ultimately show ?thesis using completed_kept_trans [OF kept] by (auto simp: completed_def)
    next
      case (Inl e)
      have "abandoned (idempotency_keys d) ?ks s2" by (rule tripleD(2) [OF body_completes start body [unfolded Inl]])
      moreover have "idempotency_keys (committed s') = release ?kid (now (committed s2)) (idempotency_keys (committed s2))"
        using ran body Inl by (auto simp: try_except_def fail_claim_and_raise_def prog_defs find_key_row_def
            fail_idempotency_key_def release_def split: option.splits if_splits)
      ultimately show ?thesis
        using release_kept [OF dist(1)] release_kept [OF dist(2)] completed_kept_trans [OF kept] by (auto simp: abandoned_def)
    qed
  qed
qed

end

section \<open>Operations that leave the keys alone\<close>

lemma in_claim_rollback: "keeps (in_claim ks ks) rollback"
  by (simp add: keeps_def in_claim_def rollback_def)

lemma in_claim_keys_writes:
  "keeps (in_claim k0 ks) (set_webhook_status wid st)"
  "keeps (in_claim k0 ks) (execute (set_outbox_event eid f))"
  "keeps (in_claim k0 ks) (execute (set_clock t))"
  "keeps (in_claim k0 ks) (execute (insert_outbox_event ty ag oet pl))"
  "keeps (in_claim k0 ks) (execute_returning (insert_webhook_event pn pe et raw sg))"
  "keeps (in_claim k0 ks) (execute_returning (insert_report p r is ps dt))"
  unfolding set_webhook_status_def
  by (auto simp: keeps_def in_claim_def execute_def execute_returning_def set_outbox_event_def set_clock_def
      insert_outbox_event_def insert_webhook_event_def insert_report_def Let_def split: prod.splits)

lemmas key_frame = in_claim_rules in_claim_rollback in_claim_keys_writes

lemma keys_webhook_effect: "keeps (in_claim ks ks) (apply_webhook_event wid)"
  unfolding apply_webhook_event_def handle_payment_outcome_def settle_transaction_def settle_outcome_def record_payment_settled_def
  by (intro keeps_rules keeps_case_JStr key_frame)

lemma keys_dispatch: "keeps (in_claim ks ks) (webhook_effect_dispatch e)"
  unfolding webhook_effect_dispatch_def logging_dispatch_def by (intro keeps_rules keys_webhook_effect)

lemma keys_record_failure: "keeps (in_claim ks ks) (record_failure exn_text w e exc)"
  by (cases exc) (auto simp: record_failure_def Let_def intro!: keeps_rules key_frame)

lemma keys_process_next: "keeps (in_claim ks ks) (process_next exn_text webhook_effect_dispatch w)"
  unfolding process_next_def record_success_def
  by (intro keeps_rules keeps_dispatch_event keys_dispatch keys_record_failure key_frame)
    (unfold record_success_def, intro keeps_rules key_frame)

lemma keys_batch: "keeps (in_claim ks ks) (batch_rounds exn_text webhook_effect_dispatch ws i n k)"
  by (induction n arbitrary: i k) (auto intro!: keeps_rules keys_process_next)

lemma keys_requeue: "keeps (in_claim ks ks) (requeue_dead_letter eid)"
proof -
  have "keeps (in_claim ks ks) (execute (\<lambda>d. set_outbox_event eid (f d) d))" for f
    by (rule in_claim_execute) (simp add: set_outbox_event_def)
  then show ?thesis unfolding requeue_dead_letter_def by (intro keeps_rules key_frame)
qed

lemma keys_receive: "keeps (in_claim ks ks) (receive_webhook pn pe et raw sg)"
  unfolding receive_webhook_def by (intro keeps_rules key_frame)

lemma keys_report: "keeps (in_claim ks ks) (write_report p r is ps dt)"
  unfolding write_report_def by (intro keeps_rules key_frame)

lemma keys_reconcile: "keeps (in_claim ks ks) (reconcile_payment p m P)"
  unfolding reconcile_payment_def apply_answer_def resolve_succeeded_def resolve_failed_def record_payment_settled_def
  by (intro keeps_rules keys_report key_frame)

lemma keys_reconcile_all: "keeps (in_claim ks ks) (reconcile_all P is)"
  by (induction "is") (auto intro!: keeps_rules keys_reconcile)

lemma keys_materialise_all: "keeps (in_claim ks ks) (materialise_all is)"
  by (induction "is") (auto intro!: keeps_rules key_frame)

lemma keys_pass: "keeps (in_claim ks ks) (run_reconciliation_pass P m)"
  unfolding run_reconciliation_pass_def find_payments_needing_reconciliation_def
  by (intro keeps_rules keys_reconcile_all keys_materialise_all)

section \<open>No operation touches a completed key\<close>

lemma create_payment_serve: "create_payment sha P rq =
    andthen (inc ''payment_requests_total'') (serve (create_payment_claimed P rq) (rq_merchant_id rq) (rq_idempotency_key rq)
      (compute_fingerprint sha ''POST'' ''/v1/payments'' (rq_raw_body rq)))"
  by (simp add: create_payment_def serve_def)

lemma capture_payment_serve: "capture_payment sha P m p k b =
    serve (capture_claimed P m p) m k (compute_fingerprint sha ''POST'' (''/v1/payments/'' @ uuid_str p @ ''/capture'') b)"
  by (simp add: capture_payment_def serve_def)

lemma refund_payment_serve: "refund_payment sha P m p k b amt =
    serve (refund_claimed P m p k amt) m k (compute_fingerprint sha ''POST'' (''/v1/payments/'' @ uuid_str p @ ''/refunds'') b)"
  by (simp add: refund_payment_def serve_def)

lemmas services_serve = create_payment_serve capture_payment_serve refund_payment_serve

lemma inc_run: "inc n s = (Inr (), s\<lparr>metrics := metrics s @ [n]\<rparr>)"
  by (simp add: inc_def)

lemma idle_metrics [simp]: "idle d (s\<lparr>metrics := x\<rparr>) = idle d s"
  by (simp add: idle_def)

lemma snd_discard: "snd (discard m s) = snd (m s)"
  by (simp add: discard_def bnd_def ret_def split: prod.splits sum.splits)

text \<open>The operations that work under an idempotency key.\<close>

fun claims_key :: "operation \<Rightarrow> bool" where
  "claims_key (CreatePayment rq) = True"
| "claims_key (CapturePayment m p k b) = True"
| "claims_key (RefundPayment m p k b a) = True"
| "claims_key _ = False"

lemma keys_other_operations: "\<not> claims_key op \<Longrightarrow> keeps (in_claim ks ks) (perform E op)"
  by (cases op)
    (auto simp: run_batch_def intro!: keeps_discard keys_receive keys_batch keys_requeue keys_reconcile keys_pass)

lemma operation_kept:
  assumes wf: "keys_wf (fst sys)"
  shows "completed_kept (idempotency_keys (fst sys)) (idempotency_keys (fst (run_operation E op t sys)))"
proof -
  let ?s = "open_session (set_clock t (fst sys)) (snd sys)"
  have wf': "keys_wf (set_clock t (fst sys))" using wf by (simp add: keys_wf_def set_clock_def)
  have keys: "idempotency_keys (set_clock t (fst sys)) = idempotency_keys (fst sys)" by (simp add: set_clock_def)
  have "completed_kept (idempotency_keys (fst sys)) (idempotency_keys (committed (snd (perform E op ?s))))"
  proof (cases "claims_key op")
    case True
    then show ?thesis
      by (cases op)
        (auto simp: snd_discard services_serve andthen_def bnd_def inc_run
          intro!: create.completed_rows_kept [OF wf' _ prod.collapse [symmetric], unfolded keys]
            capture.completed_rows_kept [OF wf' _ prod.collapse [symmetric], unfolded keys]
            refund.completed_rows_kept [OF wf' _ prod.collapse [symmetric], unfolded keys])
  next
    case False
    then have "keeps (in_claim (idempotency_keys (fst sys)) (idempotency_keys (fst sys))) (perform E op)"
      by (rule keys_other_operations)
    then have "in_claim (idempotency_keys (fst sys)) (idempotency_keys (fst sys)) (snd (perform E op ?s))"
      unfolding keeps_def by (elim allE impE) (auto simp: in_claim_def open_session_def keys)
    then show ?thesis by (simp add: in_claim_def)
  qed
  then show ?thesis by (simp add: run_operation_def Let_def)
qed

text \<open>A sequence of operations, each at its own time.\<close>

fun run_operations :: "'p env \<Rightarrow> (operation \<times> instant) list \<Rightarrow> db \<times> 'p \<Rightarrow> db \<times> 'p" where
  "run_operations E [] sys = sys"
| "run_operations E ((op, t) # ops) sys = run_operations E ops (run_operation E op t sys)"

interpretation schema: program_invariant "\<lambda>_. True"
  by unfold_locales simp_all

lemma run_operation_wf: "schema_wf (fst sys) \<Longrightarrow> schema_wf (fst (run_operation E op t sys))"
  using run_operation_keeps [OF schema.perform_all] by blast

lemma run_operations_kept:
  "schema_wf (fst sys) \<Longrightarrow> schema_wf (fst (run_operations E ops sys)) \<and>
     completed_kept (idempotency_keys (fst sys)) (idempotency_keys (fst (run_operations E ops sys)))"
proof (induction ops arbitrary: sys)
  case (Cons x ops)
  obtain op t where x: "x = (op, t)" by force
  have "keys_wf (fst sys)" using Cons.prems by (simp add: schema_wf_def)
  then have "completed_kept (idempotency_keys (fst sys)) (idempotency_keys (fst (run_operation E op t sys)))"
    by (rule operation_kept)
  with Cons.IH [OF run_operation_wf [OF Cons.prems]] show ?case by (auto simp: x intro: completed_kept_trans)
qed simp

context claimed_service
begin

lemma answer_permanent:
  assumes "keys_wf d" and "idle d s" and "serve body m k f s = (Inr resp, s')"
    and kept: "completed_kept (idempotency_keys (committed s')) (idempotency_keys d2)"
    and wf2: "keys_wf d2" and "idle d2 s2"
  shows "serve body m k f s2 = (Inr resp, s2)"
proof -
  obtain r where r: "select_one (same_key m k) (idempotency_keys (committed s')) = Some r"
    "ik_request_fingerprint r = f" "ik_status r = IK_COMPLETED" "resp = (ik_response_status r, ik_response_body r)"
    using assms(1-3) by (rule answered)
  then have r2: "r \<in> set (idempotency_keys d2)" "same_key m k r"
    using kept by (auto simp: completed_kept_def dest: select_one_Some)
  have "x = r" if "x \<in> set (idempotency_keys d2)" "same_key m k x" for x
    using that r2 wf2 unfolding keys_wf_def
    by (auto simp: same_key_def intro: distinct_map_inj_row [of "\<lambda>r. (ik_merchant_id r, ik_idempotency_key r)"])
  with r2 have "select_one (same_key m k) (idempotency_keys d2) = Some r"
    using select_one_None [of "same_key m k" "idempotency_keys d2"] by (metis option.exhaust select_one_Some)
  with r show ?thesis using claim_replays [OF _ _ _ assms(6)] by simp
qed

end

text \<open>What a session committed, after any further operations, as a new session finds it.\<close>

lemma kept_later:
  assumes "schema_wf (committed s')"
  shows "completed_kept (idempotency_keys (committed s'))
      (idempotency_keys (set_clock t (fst (run_operations E ops (committed s', prov_state s')))))"
    and "keys_wf (set_clock t (fst (run_operations E ops (committed s', prov_state s'))))"
  using run_operations_kept [of "(committed s', prov_state s')" E ops] assms
  by (simp_all add: set_clock_def schema_wf_def keys_wf_def)

end
