(* ===== verification/Scenarios.thy ===== *)
theory Scenarios
  imports Permanence
begin

text \<open>
  Concrete runs of the program, on the mock provider, for the witnesses of the properties: a
  payment created, captured, and refunded in part.
\<close>

definition demo_env :: "mock_state env" where
  "demo_env = \<lparr>env_sha256hex = (\<lambda>_. ''digest''), env_exn_text = (\<lambda>_. ''error''), env_provider = MockProvider id\<rparr>"

definition demo_request :: payment_request where
  "demo_request = \<lparr>rq_merchant_id = 7, rq_idempotency_key = ''k1'', rq_raw_body = ''{}'', rq_amount_minor = 1000,
     rq_currency = ''USD'', rq_merchant_reference = None, rq_payment_token = ''tok'', rq_billing_country = None,
     rq_shipping_country = None, rq_customer_ip = None\<rparr>"

definition demo_start :: "db \<times> mock_state" where
  "demo_start = (initial_db 0 [], mock_init)"

definition demo_created :: "db \<times> mock_state" where
  "demo_created = run_operation demo_env (CreatePayment demo_request) 1000 demo_start"

definition demo_captured :: "db \<times> mock_state" where
  "demo_captured = run_operation demo_env (CapturePayment 7 2 ''k2'' ''{}'') 2000 demo_created"

definition demo_refunded :: "db \<times> mock_state" where
  "demo_refunded = run_operation demo_env (RefundPayment 7 2 ''k3'' ''{}'' 400) 3000 demo_captured"

lemmas session_defs = run_operation_def set_clock_def open_session_def initial_db_def empty_db_def discard_def prog_defs Let_def
lemmas claim_defs = claim_idempotency_key_def claim_rows_undisturbed insert_claim_def on_claim_def compute_fingerprint_def
  respond_def find_key_row_def complete_idempotency_key_def complete_row_def same_key_def
lemmas row_defs = created_rows_def insert_payment_intent_def bigint_def iso4217_shaped_def insert_payment_event_def
  insert_outbox_event_def transition_rows_def write_transition_def insert_audit_log_def insert_payment_attempt_def
  insert_provider_transaction_def insert_refund_def set_refund_status_def add_pair_def build_payment_settled_pair_def
  build_refund_settled_pair_def entry_def
lemmas payment_defs = create_payment_def create_payment_claimed_def create_intent_def start_processing_def assess_and_audit_def
  record_authorization_def record_attempt_def attempt_count_of_def capture_payment_def capture_claimed_def capture_locked_def
  refund_payment_def refund_claimed_def reserve_refund_def reserve_locked_def settle_refund_def settle_refund_row_def
  settle_payment_status_def record_payment_settled_def record_refund_settled_def
  remember_def relock_def lock_payment_def find_payment_def materialise_def apply_transition_run moved_def
  latest_successful_provider_transaction_def REFUNDABLE_SOURCE_STATUSES_def reserved_amount_def refunded_amount_def
  pending_refunds_def valid_payment_transition_cases select_count_def
lemmas risk_defs = assess_payment_risk_def amount_signal_def country_mismatch_signal_def high_risk_ip_signal_def
  velocity_signal_def repeated_failures_signal_def velocity_count_def declined_count_def level_for_score_def risk_constants
  truthy_def VELOCITY_WINDOW_def seconds_def
lemmas mock_defs = MockProvider_def mock_authorize_def mock_capture_def mock_refund_def mock_scenario_results_def
  authorized_result_def scenario_for_def SCENARIO_MARKERS_def mock_init_def
lemmas demo_defs = session_defs claim_defs row_defs payment_defs risk_defs mock_defs demo_env_def demo_request_def demo_start_def

text \<open>The payment as the run leaves it: captured for 10.00, 4.00 refunded.\<close>

definition demo_payment :: payment_intent where
  "demo_payment = \<lparr>pi_id = 2, pi_merchant_id = 7, pi_customer_id = None, pi_amount_minor = 1000, pi_currency = ''USD'',
     pi_status = SUCCEEDED, pi_merchant_reference = None, pi_version = 5, pi_created_at = 1000, pi_updated_at = 3000\<rparr>"

definition demo_refund :: refund where
  "demo_refund = \<lparr>rf_id = 17, rf_payment_intent_id = 2, rf_amount_minor = 400, rf_status = RF_SUCCEEDED, rf_created_at = 3000\<rparr>"

lemma demo_refunded_rows:
  "payment_intents (fst demo_refunded) = [demo_payment]"
  "map (\<lambda>r. (rf_amount_minor r, rf_status r)) (refunds (fst demo_refunded)) = [(400, RF_SUCCEEDED)]"
  "map pe_to_status (payment_events (fst demo_refunded)) =
     [CREATED, PROCESSING, SUCCEEDED, REFUND_PENDING, SUCCEEDED]"
  unfolding demo_refunded_def demo_captured_def demo_created_def by (simp_all add: demo_defs demo_payment_def)

lemma demo_create_answer:
  "fst (create_payment (env_sha256hex demo_env) (env_provider demo_env) demo_request
     (open_session (set_clock 1000 (fst demo_start)) (snd demo_start))) =
   Inr (Some 201, Some (JObj (serialize_payment (demo_payment\<lparr>pi_status := PROCESSING, pi_version := 2, pi_updated_at := 1000\<rparr>))))"
  by (simp add: demo_defs demo_payment_def serialize_payment_def numeral_2_eq_2)

lemma demo_refund_answer:
  "fst (refund_payment (env_sha256hex demo_env) (env_provider demo_env) 7 2 ''k3'' ''{}'' 400
     (open_session (set_clock 3000 (fst demo_captured)) (snd demo_captured))) =
   Inr (Some 201, Some (JObj (serialize_refund demo_refund)))"
  unfolding demo_captured_def demo_created_def by (simp add: demo_defs demo_refund_def serialize_refund_def numeral_2_eq_2)

text \<open>A capture of a payment that does not exist.\<close>

lemma demo_capture_nothing:
  "fst (capture_payment (env_sha256hex demo_env) (env_provider demo_env) 7 2 ''k2'' ''{}''
     (open_session (set_clock 1000 (fst demo_start)) (snd demo_start))) = Inl (payment_not_found 2)"
  by (simp add: demo_defs fail_claim_and_raise_def)

lemma demo_reachable: "al (CreatePayment demo_request) \<Longrightarrow> al (CapturePayment 7 2 ''k2'' ''{}'') \<Longrightarrow>
    al (RefundPayment 7 2 ''k3'' ''{}'' 400) \<Longrightarrow> reachable al demo_env demo_refunded"
  unfolding demo_refunded_def demo_captured_def demo_created_def demo_start_def by (intro reachable.intros)

text \<open>A payment the provider declines.\<close>

definition demo_declined :: "db \<times> mock_state" where
  "demo_declined = run_operation demo_env (CreatePayment (demo_request\<lparr>rq_payment_token := ''declined''\<rparr>)) 1000 demo_start"

definition demo_declined_payment :: payment_intent where
  "demo_declined_payment = demo_payment\<lparr>pi_status := FAILED, pi_version := 3, pi_updated_at := 1000\<rparr>"

definition demo_declined_event :: payment_event where
  "demo_declined_event = \<lparr>pe_id = 9, pe_payment_intent_id = 2, pe_from_status = Some PROCESSING, pe_to_status = FAILED,
     pe_actor = API, pe_created_at = 1000\<rparr>"

lemma demo_declined_rows:
  "payment_intents (fst demo_declined) = [demo_declined_payment]"
  "demo_declined_event \<in> set (events_of 2 (fst demo_declined))"
  "pi_id demo_declined_payment = 2"
  unfolding demo_declined_def
  by (simp_all add: demo_defs demo_declined_payment_def demo_declined_event_def demo_payment_def declined_result_def events_of_def)

lemma demo_declined_reachable: "reachable (\<lambda>_. True) demo_env demo_declined"
  unfolding demo_declined_def demo_start_def by (intro reachable.intros) simp

text \<open>A payment whose authorisation got no answer, resolved by a reconciliation pass.\<close>

definition demo_timeout :: "db \<times> mock_state" where
  "demo_timeout = run_operation demo_env (CreatePayment (demo_request\<lparr>rq_payment_token := ''timeout''\<rparr>)) 1000 demo_start"

definition demo_reconciled :: "db \<times> mock_state" where
  "demo_reconciled = run_operation demo_env (ReconciliationPass None) 2000 demo_timeout"

lemmas reconciliation_defs = run_reconciliation_pass_def find_payments_needing_reconciliation_def needs_reconciliation_def
  reconcile_payment_def apply_answer_def resolve_succeeded_def resolve_failed_def write_report_def insert_report_def
  original_idempotency_key_def next_attempt_number_def amount_mismatch_def currency_mismatch_def reported_def dict_get_def
  amount_response_def unknown_result_def mock_get_payment_status_by_idempotency_key_def

definition demo_resolved_payment :: payment_intent where
  "demo_resolved_payment = demo_payment\<lparr>pi_version := 4, pi_updated_at := 2000\<rparr>"

definition demo_resolved_event :: payment_event where
  "demo_resolved_event = \<lparr>pe_id = 13, pe_payment_intent_id = 2, pe_from_status = Some UNKNOWN, pe_to_status = SUCCEEDED,
     pe_actor = RECONCILIATION, pe_created_at = 2000\<rparr>"

lemma demo_reconciled_rows:
  "payment_intents (fst demo_reconciled) = [demo_resolved_payment]"
  "demo_resolved_event \<in> set (payment_events (fst demo_reconciled))"
  "demo_resolved_event \<in> set (events_of (pi_id demo_resolved_payment) (fst demo_reconciled))"
  unfolding demo_reconciled_def demo_timeout_def
  by (simp_all add: demo_defs reconciliation_defs demo_resolved_payment_def demo_resolved_event_def demo_payment_def events_of_def)

lemma demo_reconciled_reachable:
  "al (CreatePayment (demo_request\<lparr>rq_payment_token := ''timeout''\<rparr>)) \<Longrightarrow> al (ReconciliationPass None) \<Longrightarrow>
   reachable al demo_env demo_reconciled"
  unfolding demo_reconciled_def demo_timeout_def demo_start_def by (intro reachable.intros)

end
