(* ===== verification/Effects.thy ===== *)
theory Effects
  imports Scenarios
begin

text \<open>
  What single calls of the services do, branch by branch: requests that are rejected before
  anything is committed leave no trace, a blocked payment never reaches the provider, a
  successful capture settles the payment with one balanced pair of ledger entries.
\<close>

section \<open>Rejected requests\<close>

text \<open>A request under a new key whose work raises before its first commit: the rollback takes the
  claim with it, and there is no row left to mark as failed.\<close>

lemma serve_rejected:
  fixes p :: 'p
  assumes wf: "keys_wf d" and new: "select_one (same_key m k) (idempotency_keys d) = None"
    and raises: "\<And>kid d1 s1. keys_only d d1 \<Longrightarrow> working s1 = d1 \<Longrightarrow> committed s1 = d \<Longrightarrow> prov_state s1 = p \<Longrightarrow>
      identity_map s1 = Map.empty \<Longrightarrow>
      \<exists>s2. body kid s1 = (Inl e, s2) \<and> committed s2 = d \<and> prov_state s2 = p"
  shows "\<exists>s'. serve body m k f (open_session d p) = (Inl e, s') \<and> committed s' = d \<and> prov_state s' = p"
proof -
  from insert_claim_new [OF new, of f] obtain row where
    ins: "insert_claim m k f d = (Some row, d\<lparr>next_uuid := Suc (next_uuid d), idempotency_keys := idempotency_keys d @ [row]\<rparr>)"
    and id: "ik_id row = next_uuid d" by blast
  let ?d1 = "d\<lparr>next_uuid := Suc (next_uuid d), idempotency_keys := idempotency_keys d @ [row]\<rparr>"
  let ?s1 = "(open_session d p)\<lparr>working := ?d1\<rparr>"
  have claim: "claim_rows [] m k f DEFAULT_STALE_AFTER d = (Some \<lparr>outcome = CLAIMED, key_row = row\<rparr>, ?d1)"
    by (simp add: claim_rows_undisturbed new ins)
  have "keys_only d ?d1" by (auto simp: keys_only_def)
  from raises [OF this, of ?s1 "ik_id row"] obtain s2 where
    s2: "body (ik_id row) ?s1 = (Inl e, s2)" "committed s2 = d" "prov_state s2 = p" by (auto simp: open_session_def)
  have "find_key_row (ik_id row) d = None"
    using wf id by (auto simp: find_key_row_def select_one_None keys_wf_def fresh_ids_def)
  with s2 have "(fail_claim_and_raise (ik_id row) e :: ('p, response) prog) s2 =
      (Inl e, s2\<lparr>working := d, identity_map := Map.empty\<rparr>)"
    by (simp add: fail_claim_and_raise_def prog_defs)
  with s2 claim show ?thesis
    by (simp add: serve_def claim_idempotency_key_def prog_defs on_claim_def try_except_def open_session_def Let_def)
qed

text \<open>The same under a new key when the work succeeds.\<close>

lemma serve_new:
  assumes "select_one (same_key m k) (idempotency_keys d) = None"
    and "\<And>row s1. ik_id row = next_uuid d \<Longrightarrow> ik_status row = IK_PENDING \<Longrightarrow>
      s1 = (open_session d p)\<lparr>working := d\<lparr>next_uuid := Suc (next_uuid d), idempotency_keys := idempotency_keys d @ [row]\<rparr>\<rparr> \<Longrightarrow>
      \<exists>s'. body (ik_id row) s1 = (Inr resp, s') \<and> Q s'"
  shows "\<exists>s'. serve body m k f (open_session d p) = (Inr resp, s') \<and> Q s'"
proof -
  from insert_claim_new [OF assms(1), of f] obtain row where
    ins: "insert_claim m k f d = (Some row, d\<lparr>next_uuid := Suc (next_uuid d), idempotency_keys := idempotency_keys d @ [row]\<rparr>)"
    and row: "ik_id row = next_uuid d" "ik_status row = IK_PENDING" by blast
  from assms(2) [OF row refl] show ?thesis
    by (auto simp: serve_def claim_idempotency_key_def claim_rows_undisturbed assms(1) ins prog_defs on_claim_def Let_def
        open_session_def)
qed

lemma keys_only_find: "keys_only d d1 \<Longrightarrow> find_payment p m d1 = find_payment p m d"
  by (auto simp: keys_only_def find_payment_def)

lemma lock_run:
  "identity_map s = Map.empty \<Longrightarrow> lock_payment p m s =
     (case find_payment p m (working s) of
        None \<Rightarrow> (Inr None, s)
      | Some r \<Rightarrow> (Inr (Some r), s\<lparr>identity_map := [pi_id r \<mapsto> r]\<rparr>))"
  by (simp add: lock_payment_def materialise_def prog_defs Let_def split: option.splits)

text \<open>A payment of another merchant is as good as none: capturing or refunding a payment the
  merchant does not own answers PAYMENT_NOT_FOUND, without asking the provider and without a
  trace in the database, not even the claimed key.\<close>

theorem foreign_payment_not_found:
  assumes "keys_wf d" and "select_one (same_key m k) (idempotency_keys d) = None" and "find_payment pid m d = None"
  shows "(\<exists>s'. capture_payment sha P m pid k body (open_session d p) = (Inl (payment_not_found pid), s') \<and>
       committed s' = d \<and> prov_state s' = p) \<and>
    (\<exists>s'. refund_payment sha P m pid k body amt (open_session d p) = (Inl (payment_not_found pid), s') \<and>
       committed s' = d \<and> prov_state s' = p)"
  unfolding capture_payment_serve refund_payment_serve
  by (intro conjI serve_rejected assms(1,2))
    (simp_all add: capture_claimed_def refund_claimed_def reserve_refund_def bnd_def lock_run keys_only_find assms(3) raise_def)

theorem foreign_payment_not_found_witness:
  "\<exists>s'. capture_payment (\<lambda>_. ''h'') (MockProvider id) 8 2 ''k'' ''{}'' (open_session (empty_db 0) mock_init) =
     (Inl (payment_not_found 2), s') \<and> committed s' = empty_db 0"
  using foreign_payment_not_found [of "empty_db 0" 8 "''k''" 2 "\<lambda>_. ''h''" "MockProvider id" "''{}''" mock_init 0]
  by (auto simp: keys_wf_def empty_db_def find_payment_def)

lemma keys_only_reserved: "keys_only d d1 \<Longrightarrow> reserved_amount p d1 = reserved_amount p d"
  by (auto simp: keys_only_def reserved_amount_def)

text \<open>C22. Asking, under a key not used before, to refund more of a payment than is left of it, what
  is in flight counted as gone, is rejected before the provider is asked and without a trace: with
  REFUND_EXCEEDS_PAYMENT and the exact balance when the payment is in a refundable status, with
  INVALID_STATE_TRANSITION and the status otherwise.\<close>

theorem over_refund_rejected:
  assumes "keys_wf d" and "select_one (same_key m k) (idempotency_keys d) = None" and "find_payment pid m d = Some i"
    and "amt > pi_amount_minor i - reserved_amount pid d"
  shows "\<exists>s'. refund_payment sha P m pid k body amt (open_session d p) =
      (Inl (if pi_status i \<in> {SUCCEEDED, REFUND_FAILED, REFUND_PENDING}
            then PayGuardError ''REFUND_EXCEEDS_PAYMENT''
              (''Refund amount '' @ int_str amt @ '' exceeds the remaining refundable balance '' @
               int_str (pi_amount_minor i - reserved_amount pid d) @ ''.'')
            else PayGuardError ''INVALID_STATE_TRANSITION''
              (''Cannot refund a payment in status '' @ payment_status_value (pi_status i) @ ''.'')), s') \<and>
    committed s' = d \<and> prov_state s' = p"
proof -
  from assms(3) have id: "pi_id i = pid" by (auto dest: find_payment_Some)
  show ?thesis unfolding refund_payment_serve
    by (rule serve_rejected [OF assms(1,2)])
      (use assms(3,4) id in \<open>auto simp: refund_claimed_def reserve_refund_def reserve_locked_def bnd_def lock_run keys_only_find
        keys_only_reserved raise_def query_def Let_def REFUNDABLE_SOURCE_STATUSES_def\<close>)
qed

lemma demo_captured_rows:
  "payment_intents (fst demo_captured) = [demo_payment\<lparr>pi_version := 3, pi_updated_at := 2000\<rparr>]"
  "refunds (fst demo_captured) = []" "select_one (same_key 7 ''k9'') (idempotency_keys (fst demo_captured)) = None"
  unfolding demo_captured_def demo_created_def by (simp_all add: demo_defs demo_payment_def)

lemma demo_captured_wf: "schema_wf (fst demo_captured)"
  unfolding demo_captured_def demo_created_def demo_start_def
  by (intro run_operation_wf) (simp add: schema_wf_initial)

theorem over_refund_rejected_witness:
  "\<exists>s'. refund_payment (\<lambda>_. ''h'') (MockProvider id) 7 2 ''k9'' ''{}'' 1001 (open_session (fst demo_captured) mock_init) =
     (Inl (PayGuardError ''REFUND_EXCEEDS_PAYMENT'' (''Refund amount '' @ int_str 1001 @
        '' exceeds the remaining refundable balance '' @ int_str 1000 @ ''.'')), s') \<and> committed s' = fst demo_captured"
proof -
  have wf: "keys_wf (fst demo_captured)" using demo_captured_wf by (simp add: schema_wf_def)
  let ?i = "demo_payment\<lparr>pi_version := 3, pi_updated_at := 2000\<rparr>"
  have find: "find_payment 2 7 (fst demo_captured) = Some ?i"
    by (simp add: find_payment_def demo_captured_rows) (simp add: demo_payment_def)
  have "pi_status ?i = SUCCEEDED" "reserved_amount 2 (fst demo_captured) = 0" "pi_amount_minor ?i = 1000"
    by (simp_all add: demo_payment_def reserved_amount_def demo_captured_rows)
  with over_refund_rejected [OF wf demo_captured_rows(3) find, of 1001 "\<lambda>_. ''h''" "MockProvider id" "''{}''" mock_init]
  show ?thesis by auto
qed

section \<open>Blocked payments\<close>

text \<open>The provider and what was asked of it.\<close>

definition unasked :: "'p \<Rightarrow> payment_attempt list \<Rightarrow> 'p session \<Rightarrow> bool" where
  "unasked p as s \<longleftrightarrow> prov_state s = p \<and> payment_attempts (working s) = as \<and> payment_attempts (committed s) = as"

lemma unasked_execute:
  "(\<And>d. payment_attempts (f d) = payment_attempts d) \<Longrightarrow> keeps (unasked p as) (execute f)"
  by (simp add: keeps_def unasked_def execute_def)

lemma unasked_quiet:
  "keeps (unasked p as) commit" "keeps (unasked p as) rollback" "keeps (unasked p as) (inc n)"
  "keeps (unasked p as) (remember i)" "keeps (unasked p as) (materialise row)"
  "keeps (unasked p as) (execute_checked (created_rows rq))"
  "keeps (unasked p as) (execute (insert_audit_log mo x y z))"
  "keeps (unasked p as) (fail_idempotency_key kid)"
  "keeps (unasked p as) (complete_idempotency_key kid po rs rb ro)"
  by (auto simp: keeps_def unasked_def commit_def rollback_def inc_def remember_def materialise_def Let_def
      execute_checked_def execute_def created_rows_def insert_payment_intent_def insert_outbox_event_def insert_payment_event_def
      insert_audit_log_def fail_idempotency_key_def complete_idempotency_key_def split: sum.splits prod.splits)

lemma unasked_transition: "keeps (unasked (p :: 'p) as) (apply_transition i t a e)"
proof -
  have "keeps (unasked p as) (execute (transition_rows q f t v a e) :: ('p, unit) prog)" for q f v
    by (rule unasked_execute)
      (simp add: transition_rows_def insert_outbox_event_def insert_payment_event_def write_transition_def)
  then show "keeps (unasked p as) (apply_transition i t a e :: ('p, payment_intent) prog)"
    unfolding apply_transition_def Let_def by (intro keeps_rules unasked_quiet)
qed

lemma unasked_lock: "keeps (unasked p as) (relock q m)"
  unfolding relock_def lock_payment_def by (intro keeps_rules unasked_quiet)

lemma unasked_claim: "keeps (unasked (p :: 'p) as) (claim_idempotency_key [] m k f st)"
proof -
  have "payment_attempts (snd (claim_rows [] m k f st d)) = payment_attempts d" for d
    using claim_rows_writes [of d m k f st] by (auto simp: keys_only_def)
  then have "keeps (unasked p as) (execute_returning (claim_rows [] m k f st) :: ('p, claim_result option) prog)"
    by (simp add: keeps_def unasked_def execute_returning_def case_prod_beta)
  then show "keeps (unasked p as) (claim_idempotency_key [] m k f st :: ('p, claim_result) prog)"
    unfolding claim_idempotency_key_def by (intro keeps_rules unasked_quiet)
qed

lemma unasked_respond: "keeps (unasked p as) (respond kid q ro c b)"
  unfolding respond_def by (intro keeps_rules unasked_quiet)

lemma unasked_fail: "keeps (unasked p as) (fail_claim_and_raise kid e)"
  unfolding fail_claim_and_raise_def by (intro keeps_rules unasked_quiet)

lemma unasked_blocked:
  assumes block: "\<And>d. ra_level (assess_payment_risk (rq_merchant_id rq) (rq_amount_minor rq) (rq_billing_country rq)
      (rq_shipping_country rq) (rq_customer_ip rq) d) = BLOCK"
  shows "keeps (unasked p as) (create_payment_claimed P rq kid)"
proof -
  have assess: "triple (unasked p as) (assess_and_audit rq pid) (\<lambda>a s. unasked p as s \<and> ra_level a = BLOCK) (unasked p as)" for pid
    by (simp add: triple_def assess_and_audit_def prog_defs insert_audit_log_def unasked_def block)
  have blocked: "keeps (unasked p as) (block_payment pid m kid)" for pid m
    unfolding block_payment_def by (intro keeps_rules unasked_lock unasked_transition unasked_quiet unasked_respond)
  have rest: "keeps (unasked p as) (bnd (assess_and_audit rq pid) (\<lambda>a. if ra_level a = BLOCK then block_payment pid m kid else g a))" for pid m g
    unfolding keeps_triple
  proof (rule triple_bnd [OF assess])
    show "triple (\<lambda>s. unasked p as s \<and> ra_level a = BLOCK) (if ra_level a = BLOCK then block_payment pid m kid else g a)
        (\<lambda>_. unasked p as) (unasked p as)" for a
      using blocked [of pid m] unfolding keeps_triple by (cases "ra_level a = BLOCK") (auto simp: triple_def)
  qed
  have "keeps (unasked p as) (create_intent rq)" "keeps (unasked p as) (start_processing pid m)" for pid m
    unfolding create_intent_def start_processing_def by (intro keeps_rules unasked_lock unasked_transition unasked_quiet)+
  then show ?thesis
    unfolding create_payment_claimed_def by (intro keeps_bnd [of _ "create_intent rq"] keeps_bnd [of _ "start_processing _ _"] rest)
qed

text \<open>C23. A request whose own signals add up to a block (a very large amount, different countries,
  a high-risk address) never reaches the provider, whatever the merchant's history and whatever
  else goes wrong: the provider's state and the payment_attempts table stay as they were.\<close>

theorem blocked_request_never_reaches_provider:
  assumes "rq_amount_minor rq \<ge> 2000000"
    and "truthy (rq_billing_country rq)" and "truthy (rq_shipping_country rq)" and "rq_billing_country rq \<noteq> rq_shipping_country rq"
    and "truthy (rq_customer_ip rq)" and "list_ex (starts_with (the (rq_customer_ip rq))) HIGH_RISK_IP_PREFIXES"
  shows "prov_state (snd (create_payment sha P rq (open_session d p))) = p \<and>
    payment_attempts (committed (snd (create_payment sha P rq (open_session d p)))) = payment_attempts d"
proof -
  have "keeps (unasked p (payment_attempts d)) (create_payment sha P rq)"
    unfolding create_payment_def on_claim_def Let_def
    by (intro keeps_rules unasked_quiet unasked_claim unasked_fail unasked_blocked)
      (use assms in \<open>simp add: level_eq level_for_score_block score_eq weight_cases\<close>)
  moreover have "unasked p (payment_attempts d) (open_session d p)" by (simp add: unasked_def open_session_def)
  ultimately have "unasked p (payment_attempts d) (snd (create_payment sha P rq (open_session d p)))" by (simp add: keeps_def)
  then show ?thesis by (simp add: unasked_def)
qed

definition demo_blocked_request :: payment_request where
  "demo_blocked_request = demo_request\<lparr>rq_amount_minor := 3000000, rq_billing_country := Some ''US'',
     rq_shipping_country := Some ''FR'', rq_customer_ip := Some ''203.0.113.9''\<rparr>"

theorem blocked_request_never_reaches_provider_witness:
  "prov_state (snd (create_payment (\<lambda>_. ''h'') (MockProvider id) demo_blocked_request (open_session (empty_db 0) mock_init))) = mock_init"
  by (rule blocked_request_never_reaches_provider [THEN conjunct1])
    (simp_all add: demo_blocked_request_def truthy_def starts_with_def HIGH_RISK_IP_PREFIXES_def)

section \<open>Capture\<close>

lemma latest_transaction_cong:
  "payment_attempts d' = payment_attempts d \<Longrightarrow> provider_transactions d' = provider_transactions d \<Longrightarrow>
   latest_successful_provider_transaction p d' = latest_successful_provider_transaction p d"
  by (simp add: latest_successful_provider_transaction_def)

lemma add_pair_run:
  "0 < amt \<Longrightarrow> bigint amt \<Longrightarrow> add_pair (\<lambda>txn. build_payment_settled_pair txn pid amt) amt d =
     Inr (next_uuid d, d\<lparr>next_uuid := next_uuid d + 3, ledger_entries := ledger_entries d @
       [entry pid (next_uuid d) MERCHANT_RECEIVABLE DEBIT amt (next_uuid d + 1) (now d),
        entry pid (next_uuid d) PAYMENT_CLEARING CREDIT amt (next_uuid d + 2) (now d)]\<rparr>)"
  by (simp add: add_pair_def build_payment_settled_pair_def Let_def)

text \<open>What a successful capture leaves behind.\<close>

definition captured :: "payment_intent \<Rightarrow> db \<Rightarrow> 'p \<Rightarrow> 'p session \<Rightarrow> bool" where
  "captured i d p' s' \<longleftrightarrow> prov_state s' = p' \<and>
     payment_intents (committed s') = update_where (\<lambda>x. pi_id x = pi_id i)
       (\<lambda>x. x\<lparr>pi_status := SUCCEEDED, pi_version := pi_version i + 1, pi_updated_at := now d\<rparr>) (payment_intents d) \<and>
     refunds (committed s') = refunds d \<and>
     (\<exists>tx. ledger_entries (committed s') = ledger_entries d @
        [entry (pi_id i) tx MERCHANT_RECEIVABLE DEBIT (pi_amount_minor i) (tx + 1) (now d),
         entry (pi_id i) tx PAYMENT_CLEARING CREDIT (pi_amount_minor i) (tx + 2) (now d)])"

text \<open>C21. Capturing an authorised payment whose provider confirms answers 200 with the settled
  payment and commits, together, the status SUCCEEDED with the next version and one pair of
  ledger entries, debit the merchant's receivable and credit clearing, for the full amount.\<close>

theorem capture_settles_payment:
  assumes wf: "schema_wf d" and new: "select_one (same_key m k) (idempotency_keys d) = None"
    and i: "find_payment pid m d = Some i" "pi_status i = PROCESSING"
    and t: "latest_successful_provider_transaction pid d = Some t"
    and res: "prov_capture P (pt_provider_transaction_id t) (pi_amount_minor i) p = (Inr res, p')" "pr_outcome res = PO_SUCCEEDED"
  shows "\<exists>s'. capture_payment sha P m pid k body (open_session d p) =
      (Inr (Some 200, Some (JObj (serialize_payment (moved i SUCCEEDED)))), s') \<and> captured i d p' s'"
  unfolding capture_payment_serve
proof (rule serve_new [OF new])
  fix row s1 assume row: "ik_id row = next_uuid d" "ik_status row = IK_PENDING"
    and s1: "s1 = (open_session d p)\<lparr>working := d\<lparr>next_uuid := Suc (next_uuid d), idempotency_keys := idempotency_keys d @ [row]\<rparr>\<rparr>"
  from i(1) have row_i: "i \<in> set (payment_intents d)" "pi_id i = pid" by (auto dest: find_payment_Some)
  with wf have amt: "0 < pi_amount_minor i" "bigint (pi_amount_minor i)" by (auto simp: schema_wf_def payments_wf_def)
  have find: "find_payment pid m (working s1) = Some i" using i(1) by (simp add: s1 find_payment_def)
  have latest: "latest_successful_provider_transaction pid (d\<lparr>next_uuid := Suc (next_uuid d), idempotency_keys := idempotency_keys d @ [row]\<rparr>) = Some t"
    using t by (simp add: latest_successful_provider_transaction_def)
  have key: "select_one (\<lambda>r. ik_id r = next_uuid d) (idempotency_keys d @ [row]) \<noteq> None"
    using row by (auto simp: select_one_None)
  show "\<exists>s'. capture_claimed P m pid (ik_id row) s1 = (Inr (Some 200, Some (JObj (serialize_payment (moved i SUCCEEDED)))), s') \<and> captured i d p' s'"
    using find res i(2) row row_i(2) amt latest key
    by (simp add: capture_claimed_def capture_locked_def s1 open_session_def bnd_def lock_run query_def call_provider_def
        apply_transition_run valid_payment_transition_cases record_payment_settled_def execute_checked_def add_pair_run
        andthen_def ret_def respond_def find_key_row_def assert_that_def complete_idempotency_key_def execute_def commit_def
        transition_rows_def insert_outbox_event_def insert_payment_event_def write_transition_def captured_def moved_def)
      blast
qed

lemma demo_created_rows:
  "find_payment 2 7 (fst demo_created) = Some (demo_payment\<lparr>pi_status := PROCESSING, pi_version := 2, pi_updated_at := 1000\<rparr>)"
  "select_one (same_key 7 ''k2'') (idempotency_keys (fst demo_created)) = None"
  "\<exists>t. latest_successful_provider_transaction 2 (fst demo_created) = Some t"
  unfolding demo_created_def by (simp_all add: demo_defs demo_payment_def)

theorem capture_settles_payment_witness:
  "\<exists>s'. capture_payment (\<lambda>_. ''h'') (MockProvider id) 7 2 ''k2'' ''{}'' (open_session (fst demo_created) mock_init) =
     (Inr (Some 200, Some (JObj (serialize_payment (moved (demo_payment\<lparr>pi_status := PROCESSING, pi_version := 2, pi_updated_at := 1000\<rparr>) SUCCEEDED)))), s') \<and>
     captured (demo_payment\<lparr>pi_status := PROCESSING, pi_version := 2, pi_updated_at := 1000\<rparr>) (fst demo_created) mock_init s'"
proof -
  have wf: "schema_wf (fst demo_created)"
    unfolding demo_created_def demo_start_def by (intro run_operation_wf) (simp add: schema_wf_initial)
  obtain t where t: "latest_successful_provider_transaction 2 (fst demo_created) = Some t" using demo_created_rows(3) by blast
  obtain res where res: "prov_capture (MockProvider id) (pt_provider_transaction_id t) a mock_init = (Inr (res a), mock_init)"
    "pr_outcome (res a) = PO_SUCCEEDED" for a
    by (simp add: MockProvider_def mock_capture_def)
  show ?thesis by (rule capture_settles_payment [OF wf demo_created_rows(2,1) _ t res]) simp
qed

end
