(* ===== verification/Incidents.thy ===== *)
theory Incidents
  imports Effects
begin

text \<open>
  Runs of the program that end where its comments and documents say it cannot end: each is a
  concrete, reachable history, evaluated on the model.
\<close>

section \<open>A webhook that settles twice\<close>

text \<open>A provider whose refund call raises, as an adapter does when the connection breaks.\<close>

definition raising_refund :: "mock_state env" where
  "raising_refund = demo_env\<lparr>env_provider := (MockProvider id)\<lparr>prov_refund := \<lambda>ptx a k m. (Inl (ProviderError ''timeout''), m)\<rparr>\<rparr>"

definition stuck_refund :: "db \<times> mock_state" where
  "stuck_refund = run_operation raising_refund (RefundPayment 7 2 ''k3'' ''{}'' 400) 3000
     (run_operation raising_refund (CapturePayment 7 2 ''k2'' ''{}'') 2000
       (run_operation raising_refund (CreatePayment demo_request) 1000 demo_start))"

lemma stuck_refund_rows:
  "map pi_status (payment_intents (fst stuck_refund)) = [REFUND_PENDING]"
  "map rf_status (refunds (fst stuck_refund)) = [RF_PENDING]"
  "map ik_status (idempotency_keys (fst stuck_refund)) = [IK_COMPLETED, IK_COMPLETED, IK_FAILED]"
  unfolding stuck_refund_def
  by (simp_all add: demo_defs raising_refund_def fail_claim_and_raise_def fail_idempotency_key_def)

lemma batch_rounds_pos:
  "0 < n \<Longrightarrow> batch_rounds exn_text dispatch ws i n k =
     bnd (process_next exn_text dispatch (ws i)) (\<lambda>result.
     if result = None then ret k else batch_rounds exn_text dispatch ws (Suc i) (n - 1) (k + 1))"
  by (cases n) (simp_all cong: if_cong)

lemma provider_txn_id_nonempty: "provider_txn_id u \<noteq> []"
  by (simp add: provider_txn_id_def)

lemmas worker_defs = run_batch_def BATCH_SIZE_def batch_rounds_pos process_next_def claim_one_def due_def dispatch_event_def
  webhook_effect_dispatch_def logging_dispatch_def payload_webhook_id_def dict_get_def apply_webhook_event_def EVENT_HANDLERS_def
  handle_payment_outcome_def payload_transaction_id_def settle_transaction_def find_by_provider_transaction_def settle_outcome_def
  set_webhook_status_def record_success_def set_outbox_event_def receive_webhook_def insert_webhook_event_def uuid_of_str_uuid_str provider_txn_id_nonempty

text \<open>The provider then confirms the payment by webhook, and the worker applies it.\<close>

definition resettled :: "db \<times> mock_state" where
  "resettled = run_operation raising_refund (WorkerTurn (\<lambda>_. \<lparr>poll_now = 5000, poll_locked = (\<lambda>i. i \<noteq> 21), poll_random = 0\<rparr>)) 5000
     (run_operation raising_refund (ReceiveWebhook ''mock'' ''evt_1'' ''payment.succeeded''
       [(''data'', JObj [(''provider_transaction_id'', JStr (provider_txn_id 0))])] ''sig'') 4000 stuck_refund)"

lemma resettled_rows:
  "map (\<lambda>p. (pi_id p, pi_amount_minor p, pi_status p)) (payment_intents (fst resettled)) = [(2, 1000, SUCCEEDED)]"
  "account_balance PAYMENT_CLEARING 2 (fst resettled) = - 2000"
  unfolding resettled_def stuck_refund_def
  by (simp_all add: demo_defs raising_refund_def fail_claim_and_raise_def fail_idempotency_key_def worker_defs account_balance_def
      MERCHANT_RECEIVABLE_def PAYMENT_CLEARING_def REFUND_LIABILITY_def)

text \<open>C37. A payment can be settled twice. A refund whose provider call breaks leaves the payment in
  REFUND_PENDING; a late \<open>payment.succeeded\<close> webhook is then a valid transition back to
  SUCCEEDED and records the settlement again: the state is reachable and clearing carries twice
  the amount of the payment.\<close>

theorem late_webhook_settles_twice:
  "reachable (\<lambda>_. True) raising_refund resettled \<and>
   map (\<lambda>p. (pi_id p, pi_amount_minor p, pi_status p)) (payment_intents (fst resettled)) = [(2, 1000, SUCCEEDED)] \<and>
   account_balance PAYMENT_CLEARING 2 (fst resettled) = - 2000"
proof -
  have "reachable (\<lambda>_. True) raising_refund resettled"
    unfolding resettled_def stuck_refund_def demo_start_def by (intro reachable.intros) simp_all
  with resettled_rows show ?thesis by simp
qed

section \<open>A payment reconciliation cannot resolve\<close>

text \<open>A provider that authorises, and whose answer to the capture is lost.\<close>

definition lost_capture :: "mock_state env" where
  "lost_capture = demo_env\<lparr>env_provider := (MockProvider id)\<lparr>prov_capture := \<lambda>ptx a m. (Inr (unknown_result (Some ptx) ''no_response_received''), m)\<rparr>\<rparr>"

definition unresolved :: "db \<times> mock_state" where
  "unresolved = run_operation lost_capture (CapturePayment 7 2 ''k2'' ''{}'') 2000
     (run_operation lost_capture (CreatePayment demo_request) 1000 demo_start)"

lemmas unresolved_defs = unresolved_def lost_capture_def demo_defs reconciliation_defs

text \<open>C40. A capture whose answer was lost is never resolved. Reconciliation learns from the provider
  that the payment succeeded and inserts the provider transaction the authorisation already
  recorded: the unique constraint rejects it, the pass raises, nothing is committed, and the
  next pass finds the same payment UNKNOWN.\<close>

theorem lost_capture_blocks_reconciliation:
  "reachable (\<lambda>_. True) lost_capture unresolved \<and>
   map pi_status (payment_intents (fst unresolved)) = [UNKNOWN] \<and>
   fst (run_reconciliation_pass (env_provider lost_capture) None (open_session (set_clock t (fst unresolved)) (snd unresolved))) =
     Inl (IntegrityError ''uq_provider_transactions_provider_txn'') \<and>
   fst (run_operation lost_capture (ReconciliationPass None) t unresolved) = set_clock t (fst unresolved)"
proof -
  have "reachable (\<lambda>_. True) lost_capture unresolved"
    unfolding unresolved_def demo_start_def by (intro reachable.intros) simp_all
  moreover have "map pi_status (payment_intents (fst unresolved)) = [UNKNOWN]" by (simp add: unresolved_defs)
  moreover have "fst (run_reconciliation_pass (env_provider lost_capture) None (open_session (set_clock t (fst unresolved)) (snd unresolved))) =
     Inl (IntegrityError ''uq_provider_transactions_provider_txn'')" by (simp add: unresolved_defs)
  moreover have "fst (run_operation lost_capture (ReconciliationPass None) t unresolved) = set_clock t (fst unresolved)"
    by (simp add: unresolved_defs)
  ultimately show ?thesis by simp
qed

section \<open>One key, two merchants\<close>

definition second_merchant :: payment_request where
  "second_merchant = demo_request\<lparr>rq_merchant_id := 8\<rparr>"

lemmas collision_defs = demo_created_def second_merchant_def demo_defs fail_claim_and_raise_def fail_idempotency_key_def

text \<open>Idempotency keys are scoped to a merchant here and not at the provider, which is given the
  bare key: when a second merchant uses a key the first has used, the provider replays the first
  merchant's authorisation, recording its transaction violates the unique constraint, and the
  second merchant's payment is left in PROCESSING behind a failed request.\<close>

theorem shared_key_collides_at_provider:
  "fst (create_payment (env_sha256hex demo_env) (env_provider demo_env) second_merchant
     (open_session (set_clock 2000 (fst demo_created)) (snd demo_created))) =
     Inl (IntegrityError ''uq_provider_transactions_provider_txn'') \<and>
   map (\<lambda>p. (pi_merchant_id p, pi_status p))
     (payment_intents (fst (run_operation demo_env (CreatePayment second_merchant) 2000 demo_created))) =
     [(7, PROCESSING), (8, PROCESSING)]"
proof -
  have "fst (create_payment (env_sha256hex demo_env) (env_provider demo_env) second_merchant
      (open_session (set_clock 2000 (fst demo_created)) (snd demo_created))) =
      Inl (IntegrityError ''uq_provider_transactions_provider_txn'')" by (simp add: collision_defs)
  moreover have "map (\<lambda>p. (pi_merchant_id p, pi_status p))
      (payment_intents (fst (run_operation demo_env (CreatePayment second_merchant) 2000 demo_created))) =
      [(7, PROCESSING), (8, PROCESSING)]" by (simp add: collision_defs)
  ultimately show ?thesis by simp
qed

section \<open>A transient failure that is final\<close>

definition unavailable_run :: "db \<times> mock_state" where
  "unavailable_run = run_operation demo_env (CreatePayment (demo_request\<lparr>rq_payment_token := ''temp_fail''\<rparr>)) 1000 demo_start"

lemmas unavailable_defs = unavailable_run_def demo_defs unavailable_result_def fail_claim_and_raise_def

text \<open>A payment whose authorisation met a temporary failure is counted as a success, stays in
  PROCESSING, and cannot go on: it has no authorisation to capture, and reconciliation looks at
  UNKNOWN payments only.\<close>

theorem transient_failure_is_stranded:
  "last (metrics (snd (create_payment (env_sha256hex demo_env) (env_provider demo_env)
       (demo_request\<lparr>rq_payment_token := ''temp_fail''\<rparr>) (open_session (set_clock 1000 (fst demo_start)) (snd demo_start))))) =
     ''payment_success_total'' \<and>
   map pi_status (payment_intents (fst unavailable_run)) = [PROCESSING] \<and>
   fst (capture_payment (env_sha256hex demo_env) (env_provider demo_env) 7 2 ''k2'' ''{}''
       (open_session (set_clock 2000 (fst unavailable_run)) (snd unavailable_run))) =
     Inl (PayGuardError ''INVALID_STATE_TRANSITION'' ''This payment has no successful authorization to capture.'') \<and>
   fst (run_reconciliation_pass (env_provider demo_env) None (open_session (fst unavailable_run) (snd unavailable_run))) = Inr []"
proof -
  have "last (metrics (snd (create_payment (env_sha256hex demo_env) (env_provider demo_env)
       (demo_request\<lparr>rq_payment_token := ''temp_fail''\<rparr>) (open_session (set_clock 1000 (fst demo_start)) (snd demo_start))))) =
     ''payment_success_total''" by (simp add: unavailable_defs)
  moreover have "map pi_status (payment_intents (fst unavailable_run)) = [PROCESSING]" by (simp add: unavailable_defs)
  moreover have "fst (capture_payment (env_sha256hex demo_env) (env_provider demo_env) 7 2 ''k2'' ''{}''
       (open_session (set_clock 2000 (fst unavailable_run)) (snd unavailable_run))) =
     Inl (PayGuardError ''INVALID_STATE_TRANSITION'' ''This payment has no successful authorization to capture.'')"
    by (simp add: unavailable_defs)
  moreover have "fst (run_reconciliation_pass (env_provider demo_env) None (open_session (fst unavailable_run) (snd unavailable_run))) = Inr []"
    by (simp add: unavailable_defs reconciliation_defs)
  ultimately show ?thesis by simp
qed

end
