(* ===== verification/RefundRace.thy ===== *)
theory RefundRace
  imports Incidents
begin

text \<open>
  Refunds that race. \<open>refund_payment\<close> commits its reservation, releases the payment's lock and
  calls the provider before it locks the payment again, so other requests run in between. Here
  a refund is two transactions with the provider's answer between them, and any number of
  refunds are in flight at once, interleaved with each other, with crashes and with whole
  operations of the program. The session of a refund in flight keeps the payment object it
  loaded (\<open>expire_on_commit=False\<close>), which \<open>lock_payment\<close> does not refresh.
\<close>

section \<open>A refund in two transactions\<close>

text \<open>Up to the first commit: the response of an early return, or the reservation.\<close>

definition begin_refund ::
    "(string \<Rightarrow> string) \<Rightarrow> uuid \<Rightarrow> uuid \<Rightarrow> string \<Rightarrow> string \<Rightarrow> int \<Rightarrow>
       ('p, response + uuid \<times> refund \<times> provider_transaction) prog" where
  "begin_refund sha256hex merchant_id payment_id idempotency_key raw_body amount_minor =
     bnd (claim_idempotency_key [] merchant_id idempotency_key
            (compute_fingerprint sha256hex ''POST''
               (''/v1/payments/'' @ uuid_str payment_id @ ''/refunds'') raw_body)
            DEFAULT_STALE_AFTER) (\<lambda>claim.
     if outcome claim \<in> {CONFLICT, IN_PROGRESS, REPLAY}
     then bnd (on_claim claim (\<lambda>_. raise AssertionError)) (\<lambda>resp. ret (Inl resp))
     else (let key_row_id = ik_id (key_row claim)
           in try_except
                (bnd (reserve_refund merchant_id payment_id amount_minor) (\<lambda>(refund, txn).
                 ret (Inr (key_row_id, refund, txn))))
                (fail_claim_and_raise key_row_id)))"

text \<open>From the provider's answer on; a provider call that raised is caught like any exception.\<close>

definition finish_refund ::
    "uuid \<Rightarrow> uuid \<Rightarrow> uuid \<Rightarrow> refund \<Rightarrow> exn + provider_result \<Rightarrow> ('p, response) prog" where
  "finish_refund merchant_id payment_id key_row_id refund answer =
     try_except
       (bnd (lift_result answer) (\<lambda>result. settle_refund merchant_id payment_id refund result key_row_id))
       (fail_claim_and_raise key_row_id)"

text \<open>\<open>result = await provider.refund(\<dots>)\<close>, its exception as a value.\<close>

definition ask_refund ::
    "'p provider \<Rightarrow> provider_transaction \<Rightarrow> int \<Rightarrow> string \<Rightarrow> ('p, exn + provider_result) prog" where
  "ask_refund provider txn amount_minor idempotency_key s =
     (case call_provider (prov_refund provider (pt_provider_transaction_id txn) amount_minor idempotency_key) s of
        (r, s') \<Rightarrow> (Inr r, s'))"

section \<open>Refunds in flight\<close>

record flight =
  fl_merchant_id :: uuid
  fl_payment_id :: uuid
  fl_idempotency_key :: string
  fl_key_row_id :: uuid
  fl_refund :: refund
  fl_provider_txn :: provider_transaction
  fl_answer :: "(exn + provider_result) option"
  fl_objects :: "uuid \<rightharpoonup> payment_intent"

record 'p race =
  rc_db :: db
  rc_provider :: 'p
  rc_flights :: "flight list"

text \<open>The session of a refund in flight, back at work on what is committed by then.\<close>

definition resume_session :: "(uuid \<rightharpoonup> payment_intent) \<Rightarrow> db \<Rightarrow> 'p \<Rightarrow> 'p session" where
  "resume_session objects d p = (open_session d p)\<lparr>identity_map := objects\<rparr>"

definition begin_step ::
    "'p env \<Rightarrow> uuid \<Rightarrow> uuid \<Rightarrow> string \<Rightarrow> string \<Rightarrow> int \<Rightarrow> instant \<Rightarrow> 'p race \<Rightarrow> 'p race" where
  "begin_step E m p k b amt t r =
     (case begin_refund (env_sha256hex E) m p k b amt (open_session (set_clock t (rc_db r)) (rc_provider r)) of
        (res, s) \<Rightarrow>
          r\<lparr>rc_db := committed s,
            rc_flights := (case res of
               Inr (Inr (kid, refund, txn)) \<Rightarrow>
                 \<lparr>fl_merchant_id = m, fl_payment_id = p, fl_idempotency_key = k, fl_key_row_id = kid, fl_refund = refund,
                  fl_provider_txn = txn, fl_answer = None, fl_objects = identity_map s\<rparr> # rc_flights r
             | _ \<Rightarrow> rc_flights r)\<rparr>)"

definition answer_step :: "'p env \<Rightarrow> nat \<Rightarrow> 'p race \<Rightarrow> 'p race" where
  "answer_step E i r =
     (let f = rc_flights r ! i in
      case ask_refund (env_provider E) (fl_provider_txn f) (rf_amount_minor (fl_refund f)) (fl_idempotency_key f)
             (open_session (rc_db r) (rc_provider r)) of
        (res, s) \<Rightarrow>
          r\<lparr>rc_provider := prov_state s,
            rc_flights := (rc_flights r)[i := f\<lparr>fl_answer := (case res of Inr a \<Rightarrow> Some a | Inl _ \<Rightarrow> None)\<rparr>]\<rparr>)"

definition land :: "nat \<Rightarrow> 'a list \<Rightarrow> 'a list" where
  "land i fs = take i fs @ drop (Suc i) fs"

definition finish_step :: "nat \<Rightarrow> exn + provider_result \<Rightarrow> instant \<Rightarrow> 'p race \<Rightarrow> 'p race" where
  "finish_step i a t r =
     (let f = rc_flights r ! i;
          s = snd (finish_refund (fl_merchant_id f) (fl_payment_id f) (fl_key_row_id f) (fl_refund f) a
                 (resume_session (fl_objects f) (set_clock t (rc_db r)) (rc_provider r)))
      in r\<lparr>rc_db := committed s, rc_flights := land i (rc_flights r)\<rparr>)"

definition operate_step :: "'p env \<Rightarrow> operation \<Rightarrow> instant \<Rightarrow> 'p race \<Rightarrow> 'p race" where
  "operate_step E op t r =
     (case run_operation E op t (rc_db r, rc_provider r) of (d, p) \<Rightarrow> r\<lparr>rc_db := d, rc_provider := p\<rparr>)"

text \<open>A refund in flight is undisturbed while its reservation is pending and its payment is as the
  session last saw it.\<close>

definition airborne :: "db \<Rightarrow> flight \<Rightarrow> bool" where
  "airborne d f \<longleftrightarrow> owns (fl_payment_id f) (fl_refund f) d \<and>
     (\<exists>obj. fl_objects f = [fl_payment_id f \<mapsto> obj] \<and> pi_id obj = fl_payment_id f \<and> pi_status obj = REFUND_PENDING \<and>
        (\<exists>row \<in> set (payment_intents d). agrees obj row))"

text \<open>The races from a state \<open>sys\<close>. Whole operations that satisfy \<open>allowed\<close> run in between, as long
  as they leave the refunds in flight undisturbed.\<close>

inductive racing :: "(operation \<Rightarrow> bool) \<Rightarrow> 'p env \<Rightarrow> db \<times> 'p \<Rightarrow> 'p race \<Rightarrow> bool"
  for allowed :: "operation \<Rightarrow> bool" and E :: "'p env" and sys :: "db \<times> 'p" where
  start: "racing allowed E sys \<lparr>rc_db = fst sys, rc_provider = snd sys, rc_flights = []\<rparr>"
| begins: "racing allowed E sys r \<Longrightarrow> racing allowed E sys (begin_step E m p k b amt t r)"
| answers: "racing allowed E sys r \<Longrightarrow> i < length (rc_flights r) \<Longrightarrow> racing allowed E sys (answer_step E i r)"
| finishes: "racing allowed E sys r \<Longrightarrow> i < length (rc_flights r) \<Longrightarrow> fl_answer (rc_flights r ! i) = Some a \<Longrightarrow>
    racing allowed E sys (finish_step i a t r)"
| crashes: "racing allowed E sys r \<Longrightarrow> i < length (rc_flights r) \<Longrightarrow>
    racing allowed E sys (r\<lparr>rc_flights := land i (rc_flights r)\<rparr>)"
| operates: "racing allowed E sys r \<Longrightarrow> allowed op \<Longrightarrow> list_all (airborne (rc_db (operate_step E op t r))) (rc_flights r) \<Longrightarrow>
    racing allowed E sys (operate_step E op t r)"

section \<open>The two transactions are the refund\<close>

lemma failed_claim_is_raise: "\<exists>s'. (fail_claim_and_raise k e s :: (exn + 'a) \<times> 'p session) = (Inl e, s')"
  by (simp add: fail_claim_and_raise_def fail_idempotency_key_def prog_defs split: option.splits)

lemma try_bnd_split:
  assumes "\<And>e s. \<exists>s'. h e s = (Inl e, s') \<and> h' e s = (Inl e, s')"
  shows "try_except (bnd m k) h = bnd (try_except m h') (\<lambda>x. try_except (k x) h)"
proof
  fix s
  show "try_except (bnd m k) h s = bnd (try_except m h') (\<lambda>x. try_except (k x) h) s"
  proof (cases "m s")
    case (Pair res s1)
    then show ?thesis
    proof (cases res)
      case (Inl e)
      obtain s' where "h e s1 = (Inl e, s')" "h' e s1 = (Inl e, s')" using assms by blast
      with Pair Inl show ?thesis by (simp add: try_except_def bnd_def)
    qed (simp add: try_except_def bnd_def)
  qed
qed

lemma failed_claim_same:
  "\<exists>s'. (fail_claim_and_raise k e s :: (exn + 'a) \<times> 'p session) = (Inl e, s') \<and>
        (fail_claim_and_raise k e s :: (exn + 'b) \<times> 'p session) = (Inl e, s')"
  by (simp add: fail_claim_and_raise_def fail_idempotency_key_def prog_defs split: option.splits)

lemma claimed_refund_split:
  "try_except (refund_claimed P m p k amt kid) (fail_claim_and_raise kid) =
     bnd (try_except (bnd (reserve_refund m p amt) (\<lambda>(refund, txn). ret (Inr (kid, refund, txn)))) (fail_claim_and_raise kid))
       (\<lambda>x. case x of Inl resp \<Rightarrow> ret resp
          | Inr (kid, refund, txn) \<Rightarrow> bnd (ask_refund P txn amt k) (finish_refund m p kid refund))"
    (is "_ = bnd ?begin ?rest")
proof -
  let ?ask = "\<lambda>(refund, txn). bnd (call_provider (prov_refund P (pt_provider_transaction_id txn) amt k))
    (\<lambda>result. settle_refund m p refund result kid)"
  have call: "try_except (?ask (refund, txn)) (fail_claim_and_raise kid) = bnd (ask_refund P txn amt k) (finish_refund m p kid refund)"
    for refund txn
    by (auto simp: fun_eq_iff try_except_def bnd_def ask_refund_def finish_refund_def lift_result_def split: prod.splits sum.splits)
  have "try_except (refund_claimed P m p k amt kid) (fail_claim_and_raise kid) =
      bnd (try_except (reserve_refund m p amt) (fail_claim_and_raise kid)) (\<lambda>x. try_except (?ask x) (fail_claim_and_raise kid))"
    unfolding refund_claimed_def by (rule try_bnd_split) (rule failed_claim_same)
  also have "\<dots> = bnd ?begin ?rest"
    unfolding try_bnd_split [OF failed_claim_same] bnd_assoc
    by (rule arg_cong2 [where f = bnd]) (auto simp: fun_eq_iff call [symmetric] try_except_def ret_def bnd_def split: prod.splits)
  finally show ?thesis .
qed

text \<open>A refund whose two transactions and provider call run one after the other, with nothing in
  between, is \<open>refund_payment\<close>, on every path: early answers, failures and provider errors
  included.\<close>

lemma refund_is_two_transactions:
  "refund_payment H P m p k b amt =
     bnd (begin_refund H m p k b amt) (\<lambda>x. case x of
       Inl resp \<Rightarrow> ret resp
     | Inr (kid, refund, txn) \<Rightarrow> bnd (ask_refund P txn amt k) (finish_refund m p kid refund))"
proof -
  let ?rest = "\<lambda>x. case x of Inl resp \<Rightarrow> ret resp
     | Inr (kid, refund, txn) \<Rightarrow> bnd (ask_refund P txn amt k) (finish_refund m p kid refund)"
  have early: "on_claim c (refund_claimed P m p k amt) = bnd (bnd (on_claim c (\<lambda>_. raise AssertionError)) (\<lambda>resp. ret (Inl resp))) ?rest"
    if "outcome c \<in> {CONFLICT, IN_PROGRESS, REPLAY}" for c
    using that by (auto simp: on_claim_def fun_eq_iff prog_defs)
  have claimed: "on_claim c (refund_claimed P m p k amt) = bnd (try_except
      (bnd (reserve_refund m p amt) (\<lambda>(refund, txn). ret (Inr (ik_id (key_row c), refund, txn))))
      (fail_claim_and_raise (ik_id (key_row c)))) ?rest"
    if "outcome c \<notin> {CONFLICT, IN_PROGRESS, REPLAY}" for c
    unfolding claimed_refund_split [symmetric] using that by (simp add: on_claim_def Let_def)
  show ?thesis
    unfolding refund_payment_def begin_refund_def Let_def bnd_assoc
    by (rule arg_cong2 [where f = bnd]) (auto simp: fun_eq_iff early claimed simp del: bnd_assoc)
qed

section \<open>What the second transaction commits\<close>

lemma keys_only_rows:
  "keys_only d d' \<Longrightarrow> payment_intents d' = payment_intents d \<and> refunds d' = refunds d \<and> next_uuid d \<le> next_uuid d'"
  by (auto simp: keys_only_def)

lemma keys_only_update: "keys_only d (d\<lparr>idempotency_keys := ks\<rparr>)"
  unfolding keys_only_def by (intro exI [of _ "next_uuid d"] exI [of _ ks]) simp

lemma fail_claim_commits: "keys_only (committed s) (committed (snd (fail_claim_and_raise k e s)))"
  by (simp add: fail_claim_and_raise_def fail_idempotency_key_def prog_defs keys_only_refl keys_only_update split: option.split)

lemma respond_commits:
  "case respond k p ro c b s of
     (Inl e, s') \<Rightarrow> committed s' = committed s
   | (Inr x, s') \<Rightarrow> keys_only (working s) (committed s')"
  by (simp add: respond_def complete_idempotency_key_def prog_defs keys_only_update split: option.split)

lemma settle_row_run:
  assumes "0 < rf_amount_minor r" and "bigint (rf_amount_minor r)"
  obtains st d' ms where "st \<in> {RF_SUCCEEDED, RF_FAILED}" and "st = RF_SUCCEEDED \<longleftrightarrow> oc = PO_SUCCEEDED"
    and "settle_refund_row p r oc s = (Inr (r\<lparr>rf_status := st\<rparr>), s\<lparr>working := d', metrics := ms\<rparr>)"
    and "refunds d' = refunds (set_refund_status (rf_id r) st (working s))"
    and "payment_intents d' = payment_intents (working s)"
proof (cases "oc = PO_SUCCEEDED")
  case True
  let ?d = "set_refund_status (rf_id r) RF_SUCCEEDED (working s)"
  obtain tx d' where pair:
    "add_pair (\<lambda>txn. build_refund_settled_pair txn p (rf_amount_minor r)) (rf_amount_minor r) ?d = Inr (tx, d')"
    using assms by (auto simp: add_pair_def Let_def build_refund_settled_pair_def)
  show thesis
    by (rule that [where st = RF_SUCCEEDED and d' = d' and ms = "metrics s @ [''refund_total'']"])
      (use True pair add_pair_writes [OF pair] in
        \<open>simp_all add: settle_refund_row_def prog_defs record_refund_settled_def refund_status_writes\<close>)
next
  case False
  show thesis
    by (rule that [where st = RF_FAILED and d' = "set_refund_status (rf_id r) RF_FAILED (working s)" and ms = "metrics s @ [''refund_failures_total'']"])
      (use False in \<open>simp_all add: settle_refund_row_def prog_defs refund_status_writes\<close>)
qed

text \<open>The payment's row after the refunds that are no longer pending have been counted.\<close>

definition settled_row :: "payment_intent \<Rightarrow> payment_intent list \<Rightarrow> payment_intent list \<Rightarrow> bool" where
  "settled_row row ps ps' \<longleftrightarrow> (\<exists>t \<in> {REFUNDED, SUCCEEDED, REFUND_FAILED}. \<exists>tm.
     ps' = update_where (\<lambda>x. pi_id x = pi_id row)
       (\<lambda>x. x\<lparr>pi_status := t, pi_version := pi_version row + 1, pi_updated_at := tm\<rparr>) ps)"

lemma settle_status_run:
  assumes "pi_status i = REFUND_PENDING"
  obtains i' s' where "settle_payment_status i s = (Inr i', s')" and "pi_id i' = pi_id i" and "committed s' = committed s"
    and "refunds (working s') = refunds (working s)"
    and "if pending_refunds (pi_id i) (working s) = 0
         then settled_row i (payment_intents (working s)) (payment_intents (working s'))
         else payment_intents (working s') = payment_intents (working s)"
proof (cases "pending_refunds (pi_id i) (working s) = 0")
  case False
  show thesis
    by (rule that [of i s]) (use assms False in \<open>simp_all add: settle_payment_status_def bnd_def query_def ret_def\<close>)
next
  case True
  define t where "t = (if pi_amount_minor i \<le> refunded_amount (pi_id i) (working s) then REFUNDED
    else if 0 < refunded_amount (pi_id i) (working s) then SUCCEEDED else REFUND_FAILED)"
  define e where "e = (if pi_amount_minor i \<le> refunded_amount (pi_id i) (working s) then ''payment.refunded''
    else if 0 < refunded_amount (pi_id i) (working s) then ''payment.partially_refunded'' else ''refund.failed'')"
  have run: "settle_payment_status i s = apply_transition i t API e s"
    using assms True by (simp add: settle_payment_status_def bnd_def query_def t_def e_def)
  have t: "t \<in> {REFUNDED, SUCCEEDED, REFUND_FAILED}" by (simp add: t_def)
  with assms have valid: "is_valid_payment_transition (pi_status i) t (Some API)"
    by (auto simp: valid_payment_transition_cases)
  have "settled_row i (payment_intents (working s))
      (payment_intents (transition_rows (pi_id i) (pi_status i) t (pi_version i + 1) API e (working s)))"
    unfolding settled_row_def payments_of_transition
    by (rule bexI [OF _ t], rule exI [of _ "now (working s)"]) (use t assms in auto)
  with True show thesis
    by (intro that [OF run [unfolded apply_transition_run if_P [OF valid]]])
      (simp_all add: moved_def transition_rows_writes)
qed


definition landed :: "flight \<Rightarrow> db \<Rightarrow> db \<Rightarrow> bool" where
  "landed f d d' \<longleftrightarrow> (\<exists>st \<in> {RF_SUCCEEDED, RF_FAILED}. \<exists>row \<in> set (payment_intents d).
     refunds d' = refunds (set_refund_status (rf_id (fl_refund f)) st d) \<and>
     pi_id row = fl_payment_id f \<and> pi_status row = REFUND_PENDING \<and>
     (if pending_refunds (fl_payment_id f) d' = 0
      then settled_row row (payment_intents d) (payment_intents d')
      else payment_intents d' = payment_intents d))"

lemma pending_refunds_cong: "refunds d' = refunds d \<Longrightarrow> pending_refunds p d' = pending_refunds p d"
  by (simp add: pending_refunds_def)

lemma airborne_relock:
  assumes wf: "schema_wf d" and air: "airborne d f"
  shows "relock (fl_payment_id f) m (resume_session (fl_objects f) d P) = (Inl AssertionError, resume_session (fl_objects f) d P) \<or>
    (\<exists>row \<in> set (payment_intents d). pi_id row = fl_payment_id f \<and> pi_status row = REFUND_PENDING \<and>
       relock (fl_payment_id f) m (resume_session (fl_objects f) d P) = (Inr row, resume_session [fl_payment_id f \<mapsto> row] d P))"
proof (cases "find_payment (fl_payment_id f) m d")
  case None
  then show ?thesis
    by (simp add: relock_def lock_payment_def prog_defs resume_session_def open_session_def)
next
  case (Some row)
  from air obtain obj row' where obj: "fl_objects f = [fl_payment_id f \<mapsto> obj]" "pi_id obj = fl_payment_id f"
    "pi_status obj = REFUND_PENDING" and row': "row' \<in> set (payment_intents d)" "agrees obj row'"
    by (auto simp: airborne_def)
  from Some have row: "row \<in> set (payment_intents d)" "pi_id row = fl_payment_id f" by (auto dest: find_payment_Some)
  have "row' = row"
    using payment_row_unique [OF wf row'(1) row(1)] agrees_fields [OF row'(2)] row(2) obj(2) by simp
  with row' obj have "obj\<lparr>pi_updated_at := pi_updated_at row\<rparr> = row" "pi_status row = REFUND_PENDING"
    using agrees_fields [OF row'(2)] by (simp_all add: agrees_def)
  with Some row obj show ?thesis
    by (intro disjI2 bexI [of _ row])
      (simp_all add: relock_def lock_payment_def materialise_def prog_defs resume_session_def open_session_def)
qed

lemma settle_commits:
  assumes wf: "schema_wf d" and air: "airborne d f"
  shows "case settle_refund m (fl_payment_id f) (fl_refund f) res k (resume_session (fl_objects f) d P) of
      (Inl e, s') \<Rightarrow> committed s' = d
    | (Inr x, s') \<Rightarrow> landed f d (committed s')"
    (is "case ?run of (Inl e, s') \<Rightarrow> committed s' = d | (Inr x, s') \<Rightarrow> _ s'")
proof -
  let ?r = "fl_refund f" and ?p = "fl_payment_id f"
  have own: "?r \<in> set (refunds d)" "rf_payment_intent_id ?r = ?p" using air by (auto simp: airborne_def owns_def)
  consider (gone) "relock ?p m (resume_session (fl_objects f) d P) = (Inl AssertionError, resume_session (fl_objects f) d P)"
    | (row) row where "row \<in> set (payment_intents d)" "pi_id row = ?p" "pi_status row = REFUND_PENDING"
        "relock ?p m (resume_session (fl_objects f) d P) = (Inr row, resume_session [?p \<mapsto> row] d P)"
    using airborne_relock [OF wf air, of m P] by blast
  then show ?thesis
  proof cases
    case gone
    then show ?thesis by (simp add: settle_refund_def bnd_def resume_session_def open_session_def)
  next
    case row
    let ?s = "resume_session [?p \<mapsto> row] d P"
    have s: "working ?s = d" "committed ?s = d" by (simp_all add: resume_session_def open_session_def)
    have "0 < rf_amount_minor ?r" "bigint (rf_amount_minor ?r)"
      using wf own(1) by (auto simp: schema_wf_def refunds_wf_def)
    then obtain st d1 ms where st: "st \<in> {RF_SUCCEEDED, RF_FAILED}"
      and run1: "settle_refund_row ?p ?r (pr_outcome res) ?s = (Inr (?r\<lparr>rf_status := st\<rparr>), ?s\<lparr>working := d1, metrics := ms\<rparr>)"
      and d1: "refunds d1 = refunds (set_refund_status (rf_id ?r) st d)" "payment_intents d1 = payment_intents d"
      by (rule settle_row_run [where oc = "pr_outcome res" and p = ?p and s = ?s]) (simp only: s)
    obtain i' s2 where run2: "settle_payment_status row (?s\<lparr>working := d1, metrics := ms\<rparr>) = (Inr i', s2)"
      and s2: "pi_id i' = ?p" "committed s2 = d" "refunds (working s2) = refunds d1"
        "if pending_refunds ?p d1 = 0 then settled_row row (payment_intents d1) (payment_intents (working s2))
         else payment_intents (working s2) = payment_intents d1"
      by (rule settle_status_run [OF row(3), where s = "?s\<lparr>working := d1, metrics := ms\<rparr>"]) (simp add: s row(2) cong: if_cong)
    let ?body = "JObj (serialize_refund (?r\<lparr>rf_status := st\<rparr>))"
    let ?respond = "respond k ?p (Some (rf_id ?r)) 201 ?body"
    note R = respond_commits [where s = s2 and k = k and p = ?p and ro = "Some (rf_id ?r)" and c = 201 and b = ?body]
    have "?run = (if select_one (\<lambda>r. rf_id r = rf_id ?r) (refunds d) = None then (Inl AssertionError, ?s) else ?respond s2)"
      using row run1 run2 s2(1)
      by (simp add: settle_refund_def bnd_def andthen_def assert_that_def query_def ret_def raise_def s)
    moreover have "landed f d (committed s')" if "?respond s2 = (Inr x, s')" for x s'
    proof -
      have "keys_only (working s2) (committed s')" using R that by (auto split: prod.splits)
      then have "payment_intents (committed s') = payment_intents (working s2)" "refunds (committed s') = refunds d1"
        by (simp_all add: keys_only_rows s2)
      with st row(1-3) d1 s2(4) pending_refunds_cong [of "committed s'" d1 ?p] show ?thesis
        unfolding landed_def by (intro bexI [of _ st] bexI [of _ row]) (simp_all split: if_splits)
    qed
    ultimately show ?thesis
      using R s s2(2) by (auto split: prod.splits sum.splits)
  qed
qed

lemma finish_commits:
  fixes P :: 'p
  assumes wf: "schema_wf d" and air: "airborne d f"
    and d'_def: "d' = committed (snd (finish_refund m (fl_payment_id f) k (fl_refund f) a (resume_session (fl_objects f) d P)))"
  shows "keys_only d d' \<or> landed f d d'"
proof -
  let ?s = "resume_session (fl_objects f) d P" and ?fail = "fail_claim_and_raise k :: exn \<Rightarrow> ('p, response) prog"
  have fail: "keys_only d (committed (snd (?fail e s)))" if "committed s = d" for e s
    using fail_claim_commits [where s = s and k = k and e = e] that by simp
  show ?thesis
  proof (cases a)
    case (Inl e)
    then show ?thesis
      unfolding d'_def by (simp add: finish_refund_def try_except_def bnd_def lift_result_def fail resume_session_def open_session_def)
  next
    case (Inr res)
    obtain x s' where run: "settle_refund m (fl_payment_id f) (fl_refund f) res k ?s = (x, s')" by fastforce
    with settle_commits [OF wf air, of m res k P] have "case x of Inl e \<Rightarrow> committed s' = d | Inr _ \<Rightarrow> landed f d (committed s')"
      by simp
    with Inr run show ?thesis
      unfolding d'_def
      by (cases x) (simp_all add: finish_refund_def try_except_def bnd_def lift_result_def fail)
  qed
qed


section \<open>What the first transaction commits\<close>

definition departed :: "uuid \<Rightarrow> refund \<Rightarrow> (uuid \<rightharpoonup> payment_intent) \<Rightarrow> db \<Rightarrow> db \<Rightarrow> bool" where
  "departed p r objects d d' \<longleftrightarrow>
     refunds d' = refunds d @ [r] \<and> rf_payment_intent_id r = p \<and> rf_status r = RF_PENDING \<and> next_uuid d \<le> rf_id r \<and>
     (\<exists>obj row. objects = [p \<mapsto> obj] \<and> pi_id obj = p \<and> pi_status obj = REFUND_PENDING \<and>
        row \<in> set (payment_intents d') \<and> agrees obj row) \<and>
     (\<forall>row \<in> set (payment_intents d). pi_status row = REFUND_PENDING \<longrightarrow> row \<in> set (payment_intents d')) \<and>
     (\<forall>row \<in> set (payment_intents d'). if pi_id row = p then pi_status row = REFUND_PENDING else row \<in> set (payment_intents d))"

lemma reserve_locked_commits:
  assumes "schema_wf (working s)" and row: "row \<in> set (payment_intents (working s))" and "identity_map s = [pi_id row \<mapsto> row]"
  shows "case reserve_locked row amt s of
      (Inl e, s') \<Rightarrow> committed s' = committed s
    | (Inr (r, t), s') \<Rightarrow> s' = s\<lparr>identity_map := identity_map s', working := working s', committed := working s'\<rparr> \<and>
        departed (pi_id row) r (identity_map s') (working s) (working s')"
proof -
  have keep: "x \<in> set (payment_intents (transition_rows (pi_id row) (pi_status row) REFUND_PENDING v a e d'))"
    if "pi_status row \<noteq> REFUND_PENDING" "x \<in> set (payment_intents (working s))" "pi_status x = REFUND_PENDING"
      "payment_intents d' = payment_intents (working s)" for x v a e d'
  proof -
    have "pi_id x \<noteq> pi_id row" using that payment_row_unique [OF assms(1) that(2) row] by auto
    with that show ?thesis by (auto simp: payments_of_transition set_update_where image_iff)
  qed
  have new: "\<exists>y \<in> set (payment_intents (transition_rows (pi_id row) (pi_status row) REFUND_PENDING (pi_version row + 1) a e d')).
      agrees (moved row REFUND_PENDING) y"
    if "pi_status row \<noteq> REFUND_PENDING" "payment_intents d' = payment_intents (working s)" for a e d'
    using that row
    by (intro bexI [of _ "row\<lparr>pi_status := REFUND_PENDING, pi_version := pi_version row + 1, pi_updated_at := now d'\<rparr>"])
      (auto simp: payments_of_transition set_update_where agrees_def moved_def)
  show ?thesis
  proof (cases "pi_status row \<in> REFUNDABLE_SOURCE_STATUSES \<and> amt \<le> pi_amount_minor row - reserved_amount (pi_id row) (working s) \<and>
      latest_successful_provider_transaction (pi_id row) (working s) \<noteq> None")
    case False
    then show ?thesis by (auto simp: reserve_locked_def prog_defs Let_def)
  next
    case True
    then obtain t where t: "latest_successful_provider_transaction (pi_id row) (working s) = Some t" by auto
    show ?thesis
    proof (cases "insert_refund (pi_id row) amt (working s)")
      case (Inl e)
      with True t show ?thesis by (simp add: reserve_locked_def prog_defs Let_def)
    next
      case (Inr x)
      then obtain r d1 where ins: "insert_refund (pi_id row) amt (working s) = Inr (r, d1)" by (cases x) auto
      note w = insert_refund_writes [OF ins]
      have d1: "payment_intents d1 = payment_intents (working s)" "refunds d1 = refunds (working s) @ [r]" using w by simp_all
      show ?thesis
      proof (cases "pi_status row = REFUND_PENDING")
        case st: True
        with True t ins have "reserve_locked row amt s = (Inr (r, t), s\<lparr>working := d1, committed := d1\<rparr>)"
          by (simp add: reserve_locked_def prog_defs Let_def)
        moreover have "x = row" if "x \<in> set (payment_intents (working s))" "pi_id x = pi_id row" for x
          using payment_row_unique [OF assms(1) that(1) row that(2)] .
        ultimately show ?thesis using st w row assms(3) by (auto simp: departed_def intro: agrees_refl)
      next
        case st: False
        then have valid: "is_valid_payment_transition (pi_status row) REFUND_PENDING (Some API)"
          using True by (auto simp: valid_payment_transition_cases REFUNDABLE_SOURCE_STATUSES_def)
        let ?d2 = "transition_rows (pi_id row) (pi_status row) REFUND_PENDING (pi_version row + 1) API ''refund.pending'' d1"
        have run: "reserve_locked row amt s =
            (Inr (r, t), s\<lparr>identity_map := [pi_id row \<mapsto> moved row REFUND_PENDING], working := ?d2, committed := ?d2\<rparr>)"
          using True t ins st valid assms(3) by (simp add: reserve_locked_def prog_defs Let_def apply_transition_run)
        have obj: "pi_id (moved row REFUND_PENDING) = pi_id row" "pi_status (moved row REFUND_PENDING) = REFUND_PENDING"
          by (simp_all add: moved_def)
        obtain y where y: "y \<in> set (payment_intents ?d2)" "agrees (moved row REFUND_PENDING) y"
          using new [OF st d1(1)] by blast
        have rows: "if pi_id x = pi_id row then pi_status x = REFUND_PENDING else x \<in> set (payment_intents (working s))"
          if "x \<in> set (payment_intents ?d2)" for x
          using that st d1(1) by (auto simp: payments_of_transition set_update_where)
        have r: "refunds ?d2 = refunds (working s) @ [r]" using d1(2) by (simp add: transition_rows_writes)
        have "departed (pi_id row) r [pi_id row \<mapsto> moved row REFUND_PENDING] (working s) ?d2"
          unfolding departed_def
        proof (intro conjI r)
          show "\<exists>obj x. [pi_id row \<mapsto> moved row REFUND_PENDING] = [pi_id row \<mapsto> obj] \<and> pi_id obj = pi_id row \<and>
              pi_status obj = REFUND_PENDING \<and> x \<in> set (payment_intents ?d2) \<and> agrees obj x"
            using obj y by blast
          show "\<forall>x \<in> set (payment_intents (working s)). pi_status x = REFUND_PENDING \<longrightarrow> x \<in> set (payment_intents ?d2)"
            using keep [OF st _ _ d1(1)] by blast
          show "\<forall>x \<in> set (payment_intents ?d2). if pi_id x = pi_id row then pi_status x = REFUND_PENDING else x \<in> set (payment_intents (working s))"
            using rows by blast
        qed (simp_all add: w)
        with run show ?thesis by simp
      qed
    qed
  qed
qed


lemma reserve_commits:
  assumes "schema_wf (working s)" and "identity_map s = Map.empty"
  shows "case reserve_refund m p amt s of
      (Inl e, s') \<Rightarrow> committed s' = committed s
    | (Inr (r, t), s') \<Rightarrow> s' = s\<lparr>identity_map := identity_map s', working := working s', committed := working s'\<rparr> \<and>
        departed p r (identity_map s') (working s) (working s')"
proof (cases "find_payment p m (working s)")
  case None
  then show ?thesis by (simp add: reserve_refund_def lock_payment_def prog_defs)
next
  case (Some row)
  then have row: "row \<in> set (payment_intents (working s))" "pi_id row = p" by (auto dest: find_payment_Some)
  have "reserve_refund m p amt s = reserve_locked row amt (s\<lparr>identity_map := [p \<mapsto> row]\<rparr>)"
    using Some row assms(2) by (simp add: reserve_refund_def lock_payment_def materialise_def prog_defs)
  with reserve_locked_commits [of "s\<lparr>identity_map := [p \<mapsto> row]\<rparr>" row amt] assms row show ?thesis
    by (auto split: prod.splits sum.splits)
qed

lemma begin_commits:
  fixes P :: 'p
  assumes wf: "schema_wf d" and run: "begin_refund H m p k b amt (open_session d P) = (res, s')"
  shows "case res of
      Inr (Inr (kid, r, t)) \<Rightarrow>
        s' = resume_session (identity_map s') (committed s') P \<and> departed p r (identity_map s') d (committed s')
    | _ \<Rightarrow> keys_only d (committed s')"
proof -
  let ?f = "compute_fingerprint H ''POST'' (''/v1/payments/'' @ uuid_str p @ ''/refunds'') b"
  obtain c d1 where rows: "claim_rows [] m k ?f DEFAULT_STALE_AFTER d = (c, d1)" by fastforce
  have keys: "keys_only d d1" using claim_rows_writes [of d m k ?f DEFAULT_STALE_AFTER] rows by simp
  have wf1: "schema_wf d1" using schema_wf_claim [OF wf, of m k ?f DEFAULT_STALE_AFTER] rows by simp
  show ?thesis
  proof (cases c)
    case None
    with run rows show ?thesis
      by (auto simp: begin_refund_def claim_idempotency_key_def prog_defs open_session_def keys_only_refl)
  next
    case (Some claim)
    define ms where "ms = (if outcome claim = CONFLICT then [''idempotency_conflicts_total''] else [])"
    let ?s = "(open_session d P)\<lparr>working := d1, metrics := ms\<rparr>"
    have claimed: "claim_idempotency_key [] m k ?f DEFAULT_STALE_AFTER (open_session d P) = (Inr claim, ?s)"
      using rows Some by (simp add: claim_idempotency_key_def prog_defs open_session_def ms_def)
    show ?thesis
    proof (cases "outcome claim \<in> {CONFLICT, IN_PROGRESS, REPLAY}")
      case True
      with run claimed keys show ?thesis
        by (auto simp: begin_refund_def on_claim_def bnd_def andthen_def commit_def raise_def ret_def split: if_splits)
    next
      case False
      let ?kid = "ik_id (key_row claim)"
      obtain x s2 where res: "reserve_refund m p amt ?s = (x, s2)" by fastforce
      have C: "case x of Inl e \<Rightarrow> committed s2 = d
          | Inr (r, t) \<Rightarrow> s2 = ?s\<lparr>identity_map := identity_map s2, working := working s2, committed := working s2\<rparr> \<and>
              departed p r (identity_map s2) d1 (working s2)"
        using reserve_commits [where s = ?s and m = m and p = p and amt = amt] res wf1
        by (auto simp: open_session_def split: sum.splits)
      show ?thesis
      proof (cases x)
        case (Inl e)
        let ?fail = "fail_claim_and_raise ?kid e s2 :: (exn + response + uuid \<times> refund \<times> provider_transaction) \<times> 'p session"
        obtain s3 where fail: "?fail = (Inl e, s3)" using failed_claim_is_raise by blast
        with Inl run claimed False res have "res = Inl e" "s' = s3"
          by (auto simp: begin_refund_def bnd_def try_except_def Let_def)
        moreover have "keys_only (committed s2) (committed (snd ?fail))" by (rule fail_claim_commits)
        with fail C Inl have "keys_only d (committed s3)" by simp
        ultimately show ?thesis by simp
      next
        case (Inr y)
        then obtain r t where y: "x = Inr (r, t)" by (cases y) auto
        with run claimed False res have "res = Inr (Inr (?kid, r, t))" "s' = s2"
          by (auto simp: begin_refund_def bnd_def try_except_def ret_def Let_def)
        moreover from C y have s2: "s2 = ?s\<lparr>identity_map := identity_map s2, working := working s2, committed := working s2\<rparr>"
          and D: "departed p r (identity_map s2) d1 (working s2)" by simp_all
        from False have "ms = []" by (simp add: ms_def)
        with s2 have "s2 = resume_session (identity_map s2) (working s2) P"
          by (simp add: resume_session_def open_session_def)
        moreover from s2 have "committed s2 = working s2" by (metis session.select_convs(2) session.surjective session.update_convs(2))
        moreover have "departed p r (identity_map s2) d (working s2)"
          using D keys_only_rows [OF keys] by (auto simp: departed_def)
        ultimately show ?thesis by simp
      qed
    qed
  qed
qed


section \<open>The race keeps its refunds airborne\<close>

lemma airborne_stays:
  assumes "airborne d f" and "fl_refund f \<in> set (refunds d')"
    and "\<And>row. row \<in> set (payment_intents d) \<Longrightarrow> pi_status row = REFUND_PENDING \<Longrightarrow> pi_id row = fl_payment_id f \<Longrightarrow>
      row \<in> set (payment_intents d')"
  shows "airborne d' f"
proof -
  from assms(1) obtain obj row where obj: "fl_objects f = [fl_payment_id f \<mapsto> obj]" "pi_id obj = fl_payment_id f"
    "pi_status obj = REFUND_PENDING" "row \<in> set (payment_intents d)" "agrees obj row"
    by (auto simp: airborne_def)
  with agrees_fields [OF obj(5)] have "row \<in> set (payment_intents d')" by (intro assms(3)) simp_all
  with assms(1,2) obj show ?thesis by (auto simp: airborne_def owns_def)
qed

lemma airborne_refund: "airborne d f \<Longrightarrow> fl_refund f \<in> set (refunds d)"
  by (simp add: airborne_def owns_def)

lemma airborne_clock: "airborne (set_clock t d) f = airborne d f"
  by (simp add: airborne_def owns_def set_clock_def)

lemma airborne_keys: "airborne d f \<Longrightarrow> keys_only d d' \<Longrightarrow> airborne d' f"
  by (rule airborne_stays, assumption) (use airborne_refund [of d f] keys_only_rows [of d d'] in auto)

lemma airborne_departure: "airborne d f \<Longrightarrow> departed p r objects d d' \<Longrightarrow> airborne d' f"
  by (rule airborne_stays, assumption) (auto simp: departed_def dest: airborne_refund)

lemma airborne_landing:
  assumes wf: "schema_wf d" and f: "airborne d f" and g: "airborne d g"
    and other: "rf_id (fl_refund g) \<noteq> rf_id (fl_refund f)" and land: "landed f d d'"
  shows "airborne d' g"
proof -
  from land obtain st row where L: "refunds d' = refunds (set_refund_status (rf_id (fl_refund f)) st d)"
    "pi_id row = fl_payment_id f"
    "if pending_refunds (fl_payment_id f) d' = 0 then settled_row row (payment_intents d) (payment_intents d')
     else payment_intents d' = payment_intents d"
    by (auto simp: landed_def)
  have r: "fl_refund g \<in> set (refunds d')"
    using g other unfolding L(1) by (auto simp: airborne_def owns_def set_refund_status_def set_update_where)
  have "pending_refunds (fl_payment_id g) d' \<noteq> 0"
    using r g by (auto simp: pending_refunds_def select_count_def airborne_def owns_def filter_empty_conv)
  then have "x \<in> set (payment_intents d')" if "x \<in> set (payment_intents d)" "pi_id x = fl_payment_id g" for x
    using that L(2,3) by (cases "fl_payment_id g = fl_payment_id f")
      (auto simp: settled_row_def set_update_where split: if_splits)
  with g r show ?thesis by (blast intro: airborne_stays)
qed

definition race_ok :: "(db \<Rightarrow> bool) \<Rightarrow> 'p race \<Rightarrow> bool" where
  "race_ok J r \<longleftrightarrow> schema_wf (rc_db r) \<and> J (rc_db r) \<and> distinct (map (rf_id \<circ> fl_refund) (rc_flights r)) \<and>
     list_all (airborne (rc_db r)) (rc_flights r)"

lemma land_flights:
  assumes "i < length fs" and "distinct (map g fs)"
  shows "set (land i fs) \<subseteq> set fs" and "distinct (map g (land i fs))" and "\<forall>x \<in> set (land i fs). g x \<noteq> g (fs ! i)"
proof -
  have "fs = take i fs @ fs ! i # drop (Suc i) fs" using assms(1) by (rule id_take_nth_drop)
  then obtain xs ys where fs: "fs = xs @ fs ! i # ys" "land i fs = xs @ ys" by (simp add: land_def)
  show "set (land i fs) \<subseteq> set fs" by (auto simp: land_def dest: in_set_takeD in_set_dropD)
  have D: "distinct (map g (xs @ fs ! i # ys))" unfolding fs(1) [symmetric] by (rule assms(2))
  show "distinct (map g (land i fs))" "\<forall>x \<in> set (land i fs). g x \<noteq> g (fs ! i)"
    using D unfolding fs(2) by (auto simp: image_iff)
qed


lemma race_ok_start: "schema_wf (fst sys) \<Longrightarrow> J (fst sys) \<Longrightarrow> race_ok J \<lparr>rc_db = fst sys, rc_provider = snd sys, rc_flights = []\<rparr>"
  by (simp add: race_ok_def)

lemma race_ok_land: "race_ok J r \<Longrightarrow> i < length (rc_flights r) \<Longrightarrow> race_ok J (r\<lparr>rc_flights := land i (rc_flights r)\<rparr>)"
  using land_flights [of i "rc_flights r" "rf_id \<circ> fl_refund"] by (auto simp: race_ok_def list_all_iff)

lemma race_ok_answer:
  assumes ok: "race_ok J r" and i: "i < length (rc_flights r)"
  shows "race_ok J (answer_step E i r)"
proof -
  let ?f = "rc_flights r ! i"
  obtain res s where ask: "ask_refund (env_provider E) (fl_provider_txn ?f) (rf_amount_minor (fl_refund ?f)) (fl_idempotency_key ?f)
      (open_session (rc_db r) (rc_provider r)) = (res, s)" by fastforce
  define a where "a = (case res of Inr a \<Rightarrow> Some a | Inl _ \<Rightarrow> None)"
  have step: "answer_step E i r = r\<lparr>rc_provider := prov_state s, rc_flights := (rc_flights r)[i := ?f\<lparr>fl_answer := a\<rparr>]\<rparr>"
    by (simp add: answer_step_def Let_def ask a_def)
  have "map (rf_id \<circ> fl_refund) ((rc_flights r)[i := ?f\<lparr>fl_answer := a\<rparr>]) = map (rf_id \<circ> fl_refund) (rc_flights r)"
    using i by (simp add: map_update list_update_same_conv)
  moreover have "airborne d (f\<lparr>fl_answer := a\<rparr>) = airborne d f" for d f by (simp add: airborne_def)
  with ok i have "list_all (airborne (rc_db r)) ((rc_flights r)[i := ?f\<lparr>fl_answer := a\<rparr>])"
    by (auto simp: race_ok_def list_all_iff dest!: set_update_subset_insert [THEN subsetD])
  ultimately show ?thesis using ok unfolding step by (simp add: race_ok_def)
qed

text \<open>The rows an in-flight session sees agree with what it holds.\<close>

lemma session_inv_resume:
  assumes "schema_wf d" and "J d" and "airborne d f"
  shows "session_inv J (resume_session (fl_objects f) d P)"
  using assms by (auto simp: inv_with_def stored_def coherent_def resume_session_def open_session_def airborne_def
      split: if_splits)

context money_invariant
begin

lemma inv_begin_refund: "keeps (session_inv J) (begin_refund H m p k b amt :: ('p, _) prog)"
proof -
  have "keeps (session_inv J) (reserve_refund m p amt :: ('p, _) prog)"
    unfolding keeps_triple by (rule triple_weaken [OF rec.inv_reserve]) auto
  then show ?thesis
    unfolding begin_refund_def by (intro keeps_rules rec.inv_claim_key rec.inv_on_claim rec.inv_fail_claim)
qed

lemma inv_finish_refund:
  fixes s :: "'p session"
  assumes "session_inv J s" and "owns p r (working s)"
  shows "session_inv J (snd (finish_refund m p k r a s))"
proof -
  have T: "triple (\<lambda>s. session_inv J s \<and> owns p r (working s))
      (bnd (lift_result a) (\<lambda>result. settle_refund m p r result k)) (\<lambda>_. session_inv J) (session_inv J)"
    by (rule triple_bnd [where Q = "\<lambda>_ s. session_inv J s \<and> owns p r (working s)"])
      (auto simp: triple_def [of _ "lift_result a"] lift_result_def intro: rec.inv_settle_refund split: sum.split)
  have pre: "session_inv J s \<and> owns p r (working s)" using assms by simp
  have settled: "session_inv J s'" if run: "bnd (lift_result a) (\<lambda>result. settle_refund m p r result k) s = (x, s')" for x s'
  proof (cases x)
    case (Inl e)
    show ?thesis by (rule tripleD(2) [OF T pre run [unfolded Inl]])
  next
    case (Inr y)
    show ?thesis by (rule tripleD(1) [OF T pre run [unfolded Inr]])
  qed
  have "session_inv J (snd (fail_claim_and_raise k e s' :: (exn + response) \<times> 'p session))" if "session_inv J s'" for e s'
    using rec.inv_fail_claim that by (auto simp: keeps_def)
  with settled show ?thesis
    by (auto simp: finish_refund_def try_except_def split: prod.splits sum.splits)
qed

lemma race_ok_finish:
  assumes ok: "race_ok J r" and i: "i < length (rc_flights r)"
  shows "race_ok J (finish_step i a t r)"
proof -
  let ?f = "rc_flights r ! i" and ?d = "set_clock t (rc_db r)" and ?fs = "land i (rc_flights r)"
  let ?s = "resume_session (fl_objects ?f) ?d (rc_provider r)"
  let ?s' = "snd (finish_refund (fl_merchant_id ?f) (fl_payment_id ?f) (fl_key_row_id ?f) (fl_refund ?f) a ?s)"
  have air: "airborne ?d g" if "g \<in> set (rc_flights r)" for g
    using ok that by (simp add: race_ok_def list_all_iff airborne_clock)
  have wf: "schema_wf ?d" "J ?d" using ok by (auto simp: race_ok_def intro: schema_wf_clock J_set_clock)
  have "distinct (map (rf_id \<circ> fl_refund) (rc_flights r))" using ok by (simp add: race_ok_def)
  note fs = land_flights [OF i this]
  have f: "airborne ?d ?f" using i by (intro air nth_mem)
  have "session_inv J ?s'"
    using session_inv_resume [where J = J, OF wf f] f
    by (intro inv_finish_refund) (simp_all add: airborne_def resume_session_def open_session_def)
  then have "schema_wf (committed ?s')" "J (committed ?s')" by (simp_all add: session_inv_committed)
  moreover have "airborne (committed ?s') g" if g: "g \<in> set ?fs" for g
  proof -
    have g': "airborne ?d g" using fs(1) g by (intro air) (rule subsetD)
    have other: "rf_id (fl_refund g) \<noteq> rf_id (fl_refund ?f)" using fs(3) g by simp
    from finish_commits [OF wf(1) f refl] show ?thesis
      by (rule disjE) (rule airborne_keys [OF g'], assumption, rule airborne_landing [OF wf(1) f g' other])
  qed
  ultimately show ?thesis
    using ok fs by (simp add: race_ok_def finish_step_def Let_def list_all_iff)
qed

lemma race_ok_begin:
  assumes ok: "race_ok J r"
  shows "race_ok J (begin_step E m p k b amt t r)"
proof -
  let ?d = "set_clock t (rc_db r)"
  have wf: "schema_wf ?d" "J ?d" using ok by (auto simp: race_ok_def intro: schema_wf_clock J_set_clock)
  obtain res s' where run: "begin_refund (env_sha256hex E) m p k b amt (open_session ?d (rc_provider r)) = (res, s')" by fastforce
  have "session_inv J s'"
    using inv_begin_refund [of "env_sha256hex E" m p k b amt] session_inv_open [where J = J, OF wf, of "rc_provider r"] run
    by (auto simp: keeps_def dest!: spec)
  then have J': "schema_wf (committed s')" "J (committed s')" by (simp_all add: session_inv_committed)
  have air: "list_all (airborne ?d) (rc_flights r)" using ok by (simp add: race_ok_def list_all_iff airborne_clock)
  note C = begin_commits [OF wf(1) run]
  show ?thesis
  proof (cases "\<exists>kid rf txn. res = Inr (Inr (kid, rf, txn))")
    case False
    with C have "keys_only ?d (committed s')" by (auto split: sum.splits)
    with air have "list_all (airborne (committed s')) (rc_flights r)" by (auto simp: list_all_iff intro: airborne_keys)
    with False J' ok run show ?thesis
      by (auto simp: race_ok_def begin_step_def split: sum.splits)
  next
    case True
    then obtain kid rf txn where res: "res = Inr (Inr (kid, rf, txn))" by blast
    with C have D: "departed p rf (identity_map s') ?d (committed s')" by simp
    have old: "rf_id (fl_refund g) < rf_id rf" if "g \<in> set (rc_flights r)" for g
    proof -
      have "fl_refund g \<in> set (refunds ?d)" using air that by (auto simp: list_all_iff dest: airborne_refund)
      with wf(1) have "rf_id (fl_refund g) < next_uuid ?d" by (auto simp: schema_wf_def refunds_wf_def fresh_ids_def)
      with D show ?thesis by (simp add: departed_def)
    qed
    let ?f = "\<lparr>fl_merchant_id = m, fl_payment_id = p, fl_idempotency_key = k, fl_key_row_id = kid, fl_refund = rf,
      fl_provider_txn = txn, fl_answer = None, fl_objects = identity_map s'\<rparr>"
    have "airborne (committed s') ?f" using D by (auto simp: airborne_def departed_def owns_def)
    moreover have "list_all (airborne (committed s')) (rc_flights r)"
      using air D by (auto simp: list_all_iff intro: airborne_departure)
    moreover have "rf_id rf \<notin> (rf_id \<circ> fl_refund) ` set (rc_flights r)" using old by fastforce
    ultimately show ?thesis
      using J' ok run res by (simp add: race_ok_def begin_step_def)
  qed
qed

lemma racing_keeps:
  assumes "schema_wf (fst sys) \<and> J (fst sys)"
    and ops: "\<And>op sys t. allowed op \<Longrightarrow> schema_wf (fst sys) \<Longrightarrow> J (fst sys) \<Longrightarrow>
      schema_wf (fst (run_operation E op t sys)) \<and> J (fst (run_operation E op t sys))"
    and "racing allowed E sys r"
  shows "race_ok J r"
  using assms(3)
proof induction
  case start
  then show ?case using assms(1) by (intro race_ok_start) auto
next
  case (operates r op t)
  with ops [OF operates.hyps(2), of "(rc_db r, rc_provider r)" t] show ?case
    by (simp add: race_ok_def operate_step_def split: prod.splits)
qed (simp_all add: race_ok_begin race_ok_answer race_ok_finish race_ok_land)

end

context program_invariant
begin

lemma racing_all:
  assumes "\<And>t ms. J (initial_db t ms)" and "reachable allowed E sys" and "racing allowed' E sys r"
  shows "race_ok J r"
proof (rule racing_keeps [OF _ _ assms(3)])
  show "schema_wf (fst sys) \<and> J (fst sys)"
    using assms(1,2) by (rule reachable_all)
  show "schema_wf (fst (run_operation E op t sys)) \<and> J (fst (run_operation E op t sys))"
    if "schema_wf (fst sys)" "J (fst sys)" for op sys t
    using that by (intro run_operation_keeps perform_all) (auto intro: J_set_clock)
qed

end

context money_invariant
begin

lemma racing_payments:
  assumes "\<And>t ms. J (initial_db t ms)" and "reachable not_worker E sys" and "racing not_worker E sys r"
  shows "race_ok J r"
proof (rule racing_keeps [OF _ _ assms(3)])
  show "schema_wf (fst sys) \<and> J (fst sys)"
    using assms(1,2) by (rule reachable_payments)
  show "schema_wf (fst (run_operation E op t sys)) \<and> J (fst (run_operation E op t sys))"
    if "not_worker op" "schema_wf (fst sys)" "J (fst sys)" for op sys t
    using that by (intro run_operation_keeps perform_payments) (auto intro: J_set_clock)
qed

end

section \<open>The last refund settles the payment\<close>

text \<open>A payment is in REFUND_PENDING exactly while one of its refunds is pending.\<close>

definition refund_statuses_ok :: "db \<Rightarrow> bool" where
  "refund_statuses_ok d \<longleftrightarrow> (\<forall>p \<in> set (payment_intents d). pi_status p = REFUND_PENDING \<longleftrightarrow> pending_refunds (pi_id p) d \<noteq> 0)"

lemma refund_statuses_keys: "refund_statuses_ok d \<Longrightarrow> keys_only d d' \<Longrightarrow> refund_statuses_ok d'"
  using keys_only_rows [of d d'] by (simp add: refund_statuses_ok_def pending_refunds_def)

lemma refund_statuses_clock: "refund_statuses_ok (set_clock t d) = refund_statuses_ok d"
  by (simp add: refund_statuses_ok_def pending_refunds_def set_clock_def)

lemma refund_statuses_departure:
  assumes "refund_statuses_ok d" and D: "departed p r objects d d'"
  shows "refund_statuses_ok d'"
proof -
  have "pending_refunds q d' = pending_refunds q d + (if q = p then 1 else 0)" for q
    using D by (auto simp: departed_def pending_refunds_def select_count_def)
  with assms show ?thesis by (auto simp: refund_statuses_ok_def departed_def split: if_splits)
qed

lemma refund_statuses_landing:
  assumes wf: "schema_wf d" and ok: "refund_statuses_ok d" and f: "airborne d f" and land: "landed f d d'"
  shows "refund_statuses_ok d'"
proof -
  let ?p = "fl_payment_id f"
  from land obtain st row where st: "st \<in> {RF_SUCCEEDED, RF_FAILED}" and row: "row \<in> set (payment_intents d)" "pi_id row = ?p" "pi_status row = REFUND_PENDING"
    and L: "refunds d' = refunds (set_refund_status (rf_id (fl_refund f)) st d)"
    "if pending_refunds ?p d' = 0 then settled_row row (payment_intents d) (payment_intents d')
     else payment_intents d' = payment_intents d"
    by (auto simp: landed_def)
  have "x = fl_refund f" if "x \<in> set (refunds d)" "rf_id x = rf_id (fl_refund f)" for x
    using refund_row_unique [OF wf airborne_refund [OF f]] that by blast
  then have keep: "pending_refunds q d' = pending_refunds q d" if "q \<noteq> ?p" for q
    using that f unfolding pending_refunds_cong [OF L(1)]
    by (auto simp: pending_refunds_def set_refund_status_def airborne_def owns_def intro!: select_count_update_where)
  have "pi_status x = REFUND_PENDING" if "x \<in> set (payment_intents d)" "pi_id x = ?p" for x
    using payment_row_unique [OF wf that(1) row(1)] row that by simp
  note pend = this
  have "pi_status x = REFUND_PENDING \<longleftrightarrow> pending_refunds (pi_id x) d' \<noteq> 0" if x: "x \<in> set (payment_intents d')" for x
  proof (cases "pending_refunds ?p d' = 0")
    case True
    then have "settled_row row (payment_intents d) (payment_intents d')" using L(2) by simp
    then have "if pi_id x = ?p then pi_status x \<noteq> REFUND_PENDING else x \<in> set (payment_intents d)"
      using x row by (auto simp: settled_row_def set_update_where)
    with True ok keep [of "pi_id x"] show ?thesis by (cases "pi_id x = ?p") (auto simp: refund_statuses_ok_def)
  next
    case False
    with L(2) x have "x \<in> set (payment_intents d)" by simp
    with False ok keep [of "pi_id x"] pend show ?thesis by (cases "pi_id x = ?p") (auto simp: refund_statuses_ok_def)
  qed
  then show ?thesis by (simp add: refund_statuses_ok_def)
qed


text \<open>Charging and reconciling neither enter nor leave REFUND_PENDING.\<close>

lemma refund_statuses_cong:
  "refund_statuses_ok d \<Longrightarrow> payment_intents d' = payment_intents d \<Longrightarrow> refunds d' = refunds d \<Longrightarrow> refund_statuses_ok d'"
  by (simp add: refund_statuses_ok_def pending_refunds_def)

lemma refund_statuses_unrelated: "refund_statuses_ok d \<Longrightarrow> unrelated d d' \<Longrightarrow> refund_statuses_ok d'"
  by (rule refund_statuses_cong) (simp_all add: unrelated_def)

lemma refund_statuses_move:
  assumes "schema_wf d" and ok: "refund_statuses_ok d" and row: "row \<in> set (payment_intents d)"
    and "pi_status row \<noteq> REFUND_PENDING" and "t \<noteq> REFUND_PENDING"
  shows "refund_statuses_ok (move_row row t a e d)"
  unfolding refund_statuses_ok_def
proof
  fix x assume "x \<in> set (payment_intents (move_row row t a e d))"
  moreover have "pending_refunds q (move_row row t a e d) = pending_refunds q d" for q
    by (rule pending_refunds_cong) (simp add: move_row_writes)
  moreover have "pending_refunds (pi_id row) d = 0" using ok row assms(4) by (auto simp: refund_statuses_ok_def)
  ultimately show "pi_status x = REFUND_PENDING \<longleftrightarrow> pending_refunds (pi_id x) (move_row row t a e d) \<noteq> 0"
    using assms(4,5) ok by (auto simp: move_row_def payments_of_transition set_update_where refund_statuses_ok_def split: if_splits)
qed

lemma refund_statuses_created:
  assumes wf: "schema_wf d" and ok: "refund_statuses_ok d" and run: "created_rows rq d = Inr (i, d')"
  shows "refund_statuses_ok d'"
proof -
  note w = created_rows_writes [OF run]
  have "pending_refunds (pi_id i) d = 0"
    using refund_payment_old [OF wf] w(1) by (fastforce simp: pending_refunds_def select_count_def filter_empty_conv)
  then show ?thesis
    using ok w pending_refunds_cong [OF w(8)] by (auto simp: refund_statuses_ok_def)
qed

interpretation statuses: inquiry_invariant refund_statuses_ok "{}"
proof
  fix d row t a e
  assume "schema_wf d" "refund_statuses_ok d" "row \<in> set (payment_intents d)"
    "is_valid_payment_transition (pi_status row) t (Some a)" "t \<in> {PROCESSING, FAILED, UNKNOWN} \<union> {}"
  then show "refund_statuses_ok (move_row row t a e d)"
    by (intro refund_statuses_move) (auto simp: valid_payment_transition_cases)
next
  fix d row a e tx d'
  assume J: "schema_wf d" "refund_statuses_ok d" "row \<in> set (payment_intents d)" "settles (pi_status row) SUCCEEDED"
    and pair: "add_pair (\<lambda>txn. build_payment_settled_pair txn (pi_id row) (pi_amount_minor row)) (pi_amount_minor row)
      (move_row row SUCCEEDED a e d) = Inr (tx, d')"
  have "refund_statuses_ok (move_row row SUCCEEDED a e d)"
    using J by (intro refund_statuses_move) (auto simp: settles_def)
  then show "refund_statuses_ok d'" by (rule refund_statuses_cong) (simp_all add: add_pair_writes [OF pair])
qed (blast intro: refund_statuses_created refund_statuses_unrelated unrelated_statements)+

text \<open>A whole refund is a departure and a landing.\<close>

lemma departed_airborne:
  assumes "departed p r objects d d'" and "fl_payment_id f = p" and "fl_refund f = r" and "fl_objects f = objects"
  shows "airborne d' f"
  using assms by (auto simp: airborne_def departed_def owns_def)

text \<open>Nor do payment requests and reconciliations touch a refund in flight: they move no payment that
  is in REFUND_PENDING, and another refund of the payment leaves it there.\<close>

lemma airborne_unrelated: "airborne d f \<Longrightarrow> payment_intents d' = payment_intents d \<Longrightarrow> refunds d' = refunds d \<Longrightarrow> airborne d' f"
  by (simp add: airborne_def owns_def)

lemma airborne_move:
  assumes wf: "schema_wf d" and air: "airborne d f" and row: "row \<in> set (payment_intents d)" "pi_status row \<noteq> REFUND_PENDING"
  shows "airborne (move_row row t a e d) f"
proof (rule airborne_stays [OF air])
  show "fl_refund f \<in> set (refunds (move_row row t a e d))" using airborne_refund [OF air] by (simp add: move_row_writes)
  fix x assume x: "x \<in> set (payment_intents d)" "pi_status x = REFUND_PENDING"
  with row payment_row_unique [OF wf x(1) row(1)] have "pi_id x \<noteq> pi_id row" by auto
  with x show "x \<in> set (payment_intents (move_row row t a e d))"
    by (auto simp: move_row_def payments_of_transition set_update_where image_iff)
qed

interpretation flying: inquiry_invariant "\<lambda>d. airborne d f" "{}" for f
proof
  fix d row t a e
  assume "schema_wf d" "airborne d f" "row \<in> set (payment_intents d)"
    "is_valid_payment_transition (pi_status row) t (Some a)" "t \<in> {PROCESSING, FAILED, UNKNOWN} \<union> {}"
  then show "airborne (move_row row t a e d) f"
    by (intro airborne_move) (auto simp: valid_payment_transition_cases)
next
  fix d row a e tx d'
  assume J: "schema_wf d" "airborne d f" "row \<in> set (payment_intents d)" "settles (pi_status row) SUCCEEDED"
    and pair: "add_pair (\<lambda>txn. build_payment_settled_pair txn (pi_id row) (pi_amount_minor row)) (pi_amount_minor row)
      (move_row row SUCCEEDED a e d) = Inr (tx, d')"
  have "airborne (move_row row SUCCEEDED a e d) f"
    using J by (intro airborne_move) (auto simp: settles_def)
  then show "airborne d' f" by (rule airborne_unrelated) (simp_all add: add_pair_writes [OF pair])
next
  fix d rq i d' assume air: "airborne d f" and run: "created_rows rq d = Inr (i, d')"
  show "airborne d' f"
    by (rule airborne_stays [OF air]) (use airborne_refund [OF air] in \<open>simp_all add: created_rows_writes [OF run]\<close>)
qed (auto elim!: airborne_unrelated simp: insert_audit_log_def insert_report_def Let_def dest!: insert_attempt_writes insert_ptx_writes)

lemma refund_run:
  fixes P :: 'p
  assumes "begin_refund H m p k b amt (open_session d P) = (res, s)"
  shows "\<nexists>kid r t. res = Inr (Inr (kid, r, t)) \<Longrightarrow>
      committed (snd (refund_payment H Q m p k b amt (open_session d P))) = committed s"
    and "res = Inr (Inr (kid, r, t)) \<Longrightarrow> s = resume_session objects d' P \<Longrightarrow>
      \<exists>a (P' :: 'p). committed (snd (refund_payment H Q m p k b amt (open_session d P))) =
        committed (snd (finish_refund m p kid r a (resume_session objects d' P')))"
  using assms
  by (auto simp: refund_is_two_transactions bnd_def ret_def ask_refund_def call_provider_def resume_session_def open_session_def
      split: sum.splits prod.splits)

text \<open>What holds of the rows before a whole refund, and survives idempotency keys, departures and
  landings, holds after it.\<close>

lemma refund_keeps:
  fixes P :: 'p
  assumes wf: "schema_wf d" and "K d"
    and keys: "\<And>d'. keys_only d d' \<Longrightarrow> K d'"
    and departs: "\<And>r objects d'. departed p r objects d d' \<Longrightarrow> K d'"
    and keys': "\<And>d' d''. K d' \<Longrightarrow> keys_only d' d'' \<Longrightarrow> K d''"
    and lands: "\<And>f d' d''. schema_wf d' \<Longrightarrow> K d' \<Longrightarrow> airborne d' f \<Longrightarrow> next_uuid d \<le> rf_id (fl_refund f) \<Longrightarrow> landed f d' d'' \<Longrightarrow> K d''"
  shows "K (committed (snd (refund_payment H Q m p k b amt (open_session d P))))"
proof -
  obtain res s where run: "begin_refund H m p k b amt (open_session d P) = (res, s)" by fastforce
  note C = begin_commits [OF wf run]
  show ?thesis
  proof (cases "\<exists>kid r t. res = Inr (Inr (kid, r, t))")
    case False
    with C have "keys_only d (committed s)" by (auto split: sum.splits)
    with keys refund_run(1) [OF run False] show ?thesis by simp
  next
    case True
    then obtain kid r t where res: "res = Inr (Inr (kid, r, t))" by blast
    with C have s: "s = resume_session (identity_map s) (committed s) P" and D: "departed p r (identity_map s) d (committed s)" by simp_all
    let ?f = "\<lparr>fl_merchant_id = m, fl_payment_id = p, fl_idempotency_key = k, fl_key_row_id = kid, fl_refund = r,
      fl_provider_txn = t, fl_answer = None, fl_objects = identity_map s\<rparr>"
    have wf': "schema_wf (committed s)"
      using keepsD [OF schema.inv_begin_refund session_inv_open [OF wf] run] by (simp add: session_inv_committed)
    have air: "airborne (committed s) ?f" using D by (rule departed_airborne) simp_all
    have K: "K (committed s)" by (rule departs [OF D])
    from refund_run(2) [OF run res s, of Q] obtain a and P' :: 'p where
      "committed (snd (refund_payment H Q m p k b amt (open_session d P))) =
        committed (snd (finish_refund m p kid r a (resume_session (identity_map s) (committed s) P')))" by blast
    moreover have "next_uuid d \<le> rf_id (fl_refund ?f)" using D by (simp add: departed_def)
    ultimately show ?thesis
      using finish_commits [OF wf' air refl, of m kid a P'] keys' [OF K] lands [OF wf' K air] by auto
  qed
qed

lemma refund_statuses_refund:
  assumes wf: "schema_wf d" and ok: "refund_statuses_ok d"
  shows "refund_statuses_ok (committed (snd (refund_payment H Q m p k b amt (open_session d P))))"
  by (rule refund_keeps [where K = refund_statuses_ok, OF wf ok])
    (blast intro: refund_statuses_keys refund_statuses_departure refund_statuses_landing wf ok)+

lemma airborne_refund_payment:
  assumes wf: "schema_wf d" and air: "airborne d f"
  shows "airborne (committed (snd (refund_payment H Q m p k b amt (open_session d P)))) f"
proof (rule refund_keeps [where K = "\<lambda>d. airborne d f", OF wf air])
  fix g d' d'' assume d': "schema_wf d'" "airborne d' f" "airborne d' g" "next_uuid d \<le> rf_id (fl_refund g)" "landed g d' d''"
  have "rf_id (fl_refund f) < next_uuid d"
    using wf airborne_refund [OF air] by (auto simp: schema_wf_def refunds_wf_def fresh_ids_def)
  with d'(4) have "rf_id (fl_refund f) \<noteq> rf_id (fl_refund g)" by simp
  then show "airborne d'' f" by (rule airborne_landing [OF d'(1,3,2) _ d'(5)])
qed (blast intro: airborne_keys airborne_departure air)+

lemma perform_refund_statuses:
  assumes "not_worker op" and "schema_wf (fst sys)" and "refund_statuses_ok (fst sys)"
  shows "refund_statuses_ok (fst (run_operation E op t sys))"
proof (cases "\<exists>m p k b amt. op = RefundPayment m p k b amt")
  case True
  then obtain m p k b amt where op: "op = RefundPayment m p k b amt" by blast
  have "schema_wf (set_clock t (fst sys))" "refund_statuses_ok (set_clock t (fst sys))"
    using assms(2,3) by (auto simp: refund_statuses_clock intro: schema_wf_clock)
  from refund_statuses_refund [OF this] show ?thesis
    by (simp add: run_operation_def op snd_discard Let_def)
next
  case False
  then have "keeps (session_inv refund_statuses_ok) (perform E op)"
    using assms(1) by (cases op)
      (auto intro!: keeps_discard statuses.inv_create_payment statuses.inv_capture_payment
        statuses.inv_reconcile_payment statuses.inv_run_reconciliation_pass)
  from run_operation_keeps [OF this assms(2)] assms(3) show ?thesis by (simp add: refund_statuses_clock)
qed

lemma perform_airborne:
  assumes "not_worker op" and "schema_wf (fst sys)" and "airborne (fst sys) f"
  shows "airborne (fst (run_operation E op t sys)) f"
proof (cases "\<exists>m p k b amt. op = RefundPayment m p k b amt")
  case True
  then obtain m p k b amt where op: "op = RefundPayment m p k b amt" by blast
  have "schema_wf (set_clock t (fst sys))" "airborne (set_clock t (fst sys)) f"
    using assms(2,3) by (auto simp: airborne_clock intro: schema_wf_clock)
  from airborne_refund_payment [OF this] show ?thesis
    by (simp add: run_operation_def op snd_discard Let_def)
next
  case False
  then have "keeps (session_inv (\<lambda>d. airborne d f)) (perform E op)"
    using assms(1) by (cases op)
      (auto intro!: keeps_discard flying.inv_create_payment flying.inv_capture_payment
        flying.inv_reconcile_payment flying.inv_run_reconciliation_pass)
  from run_operation_keeps [OF this assms(2)] assms(3) show ?thesis by (simp add: airborne_clock)
qed

lemma reachable_refund_statuses: "reachable not_worker E sys \<Longrightarrow> schema_wf (fst sys) \<and> refund_statuses_ok (fst sys)"
proof (induction rule: reachable.induct)
  case (start t ms p)
  then show ?case by (simp add: schema_wf_initial) (simp add: refund_statuses_ok_def initial_db_def empty_db_def)
next
  case (step sys op t)
  then show ?case by (blast intro: perform_refund_statuses run_operation_wf)
qed

text \<open>So the condition on operations between the steps of a race always holds of them.\<close>

lemma racing_operates:
  assumes "race_ok J r" and "racing not_worker E sys r" and "not_worker op"
  shows "racing not_worker E sys (operate_step E op t r)"
proof (rule racing.operates [OF assms(2,3)])
  have "airborne (fst (run_operation E op t (rc_db r, rc_provider r))) f" if "f \<in> set (rc_flights r)" for f
    using assms that by (intro perform_airborne) (simp_all add: race_ok_def list_all_iff)
  then show "list_all (airborne (rc_db (operate_step E op t r))) (rc_flights r)"
    by (simp add: list_all_iff operate_step_def case_prod_beta)
qed

text \<open>The steps of a race.\<close>

lemma refund_statuses_begin:
  assumes "race_ok J r" and "refund_statuses_ok (rc_db r)"
  shows "refund_statuses_ok (rc_db (begin_step E m p k b amt t r))"
proof -
  let ?d = "set_clock t (rc_db r)"
  obtain res s' where run: "begin_refund (env_sha256hex E) m p k b amt (open_session ?d (rc_provider r)) = (res, s')" by fastforce
  have "schema_wf ?d" "refund_statuses_ok ?d"
    using assms by (auto simp: race_ok_def refund_statuses_clock intro: schema_wf_clock)
  with begin_commits [OF _ run] have "refund_statuses_ok (committed s')"
    by (auto split: sum.splits prod.splits intro: refund_statuses_keys refund_statuses_departure)
  with run show ?thesis by (simp add: begin_step_def)
qed

lemma refund_statuses_finish:
  assumes ok: "race_ok J r" and "refund_statuses_ok (rc_db r)" and i: "i < length (rc_flights r)"
  shows "refund_statuses_ok (rc_db (finish_step i a t r))"
proof -
  let ?d = "set_clock t (rc_db r)" and ?f = "rc_flights r ! i"
  have d: "schema_wf ?d" "refund_statuses_ok ?d"
    using assms by (auto simp: race_ok_def refund_statuses_clock intro: schema_wf_clock)
  have f: "airborne ?d ?f" using ok i by (simp add: race_ok_def airborne_clock list_all_length)
  let ?s' = "snd (finish_refund (fl_merchant_id ?f) (fl_payment_id ?f) (fl_key_row_id ?f) (fl_refund ?f) a
    (resume_session (fl_objects ?f) ?d (rc_provider r)))"
  from finish_commits [OF d(1) f refl] have "refund_statuses_ok (committed ?s')"
    by (rule disjE) (rule refund_statuses_keys [OF d(2)], assumption, rule refund_statuses_landing [OF d f])
  then show ?thesis by (simp add: finish_step_def Let_def)
qed

lemma racing_refund_statuses:
  assumes "\<And>r. racing not_worker E sys r \<Longrightarrow> race_ok J r" and "refund_statuses_ok (fst sys)" and "racing not_worker E sys r"
  shows "refund_statuses_ok (rc_db r)"
  using assms(3)
proof induction
  case (answers r i)
  have "rc_db (answer_step E i r) = rc_db r" by (simp add: answer_step_def Let_def split: prod.splits)
  with answers show ?case by simp
next
  case (begins r m p k b amt t)
  then show ?case using assms(1) by (blast intro: refund_statuses_begin)
next
  case (finishes r i a t)
  then show ?case using assms(1) by (blast intro: refund_statuses_finish)
next
  case (operates r op t)
  have "schema_wf (rc_db r)" using assms(1) [OF operates.hyps(1)] by (simp add: race_ok_def)
  with operates have "refund_statuses_ok (fst (run_operation E op t (rc_db r, rc_provider r)))"
    by (intro perform_refund_statuses) simp_all
  then show ?case by (simp add: operate_step_def case_prod_beta)
qed (simp_all add: assms(2))

section \<open>Two refunds at once\<close>

text \<open>Two refunds of the captured payment: both reserve, the provider answers both, and the one
  that came second settles first.\<close>

definition demo_race :: "mock_state race" where
  "demo_race = begin_step demo_env 7 2 ''k4'' ''{}'' 600 3000 (begin_step demo_env 7 2 ''k3'' ''{}'' 400 3000
     \<lparr>rc_db = fst demo_captured, rc_provider = snd demo_captured, rc_flights = []\<rparr>)"

definition demo_answered :: "mock_state race" where
  "demo_answered = answer_step demo_env 1 (answer_step demo_env 0 demo_race)"

definition demo_answer :: "int \<Rightarrow> exn + provider_result" where
  "demo_answer amt = Inr \<lparr>pr_outcome = PO_SUCCEEDED, pr_provider_transaction_id = Some (provider_txn_id 0),
     pr_raw_status = ''refunded'', pr_raw_response = [(''amount_minor'', JInt amt)]\<rparr>"

definition demo_landed :: "mock_state race" where
  "demo_landed = finish_step 0 (demo_answer 400) 5000 (finish_step 0 (demo_answer 600) 4000 demo_answered)"

lemmas race_defs = operate_step_def begin_step_def answer_step_def finish_step_def begin_refund_def ask_refund_def finish_refund_def
  resume_session_def land_def DEFAULT_STALE_AFTER_def
lemmas demo_race_defs = demo_race_def demo_captured_def demo_created_def demo_defs race_defs

text \<open>What the runs below are asked about.\<close>

definition refund_view ::
    "uuid \<Rightarrow> db \<Rightarrow> (uuid \<times> int \<times> payment_status \<times> int) list \<times> (int \<times> refund_status) list \<times> (payment_status option \<times> payment_status \<times> actor) list" where
  "refund_view p d = (map (\<lambda>p. (pi_id p, pi_amount_minor p, pi_status p, pi_version p)) (payment_intents d),
     map (\<lambda>r. (rf_amount_minor r, rf_status r)) (refunds d),
     map (\<lambda>e. (pe_from_status e, pe_to_status e, pe_actor e)) (events_of p d))"

lemma demo_race_view:
  "refund_view 2 (rc_db demo_race) = ([(2, 1000, REFUND_PENDING, 4)], [(400, RF_PENDING), (600, RF_PENDING)],
     [(None, CREATED, API), (Some CREATED, PROCESSING, API), (Some PROCESSING, SUCCEEDED, API), (Some SUCCEEDED, REFUND_PENDING, API)])"
  by (simp add: demo_race_defs refund_view_def events_of_def)

lemma demo_answered_flights:
  "map fl_answer (rc_flights demo_answered) = [Some (demo_answer 600), Some (demo_answer 400)]"
  by (simp add: demo_answered_def demo_answer_def demo_race_defs)

lemma demo_landed_view:
  "refund_view 2 (rc_db demo_landed) = ([(2, 1000, REFUNDED, 5)], [(400, RF_SUCCEEDED), (600, RF_SUCCEEDED)],
     [(None, CREATED, API), (Some CREATED, PROCESSING, API), (Some PROCESSING, SUCCEEDED, API), (Some SUCCEEDED, REFUND_PENDING, API),
      (Some REFUND_PENDING, REFUNDED, API)])"
  by (simp add: demo_landed_def demo_answered_def demo_answer_def demo_race_defs refund_view_def events_of_def)

lemma demo_race_racing: "racing allowed demo_env demo_captured demo_race"
  unfolding demo_race_def by (intro racing.intros)

lemma demo_landed_racing: "racing allowed demo_env demo_captured demo_landed"
proof -
  have n: "length (rc_flights demo_answered) = 2" and a: "fl_answer (rc_flights demo_answered ! 0) = Some (demo_answer 600)"
      "fl_answer (rc_flights demo_answered ! 1) = Some (demo_answer 400)"
    using demo_answered_flights by (auto simp: map_eq_Cons_conv)
  have two: "length (rc_flights (answer_step E i r)) = length (rc_flights r)" for E i and r :: "mock_state race"
    by (simp add: answer_step_def Let_def split: prod.splits)
  with n have "length (rc_flights demo_race) = 2" by (simp add: demo_answered_def)
  then have "racing allowed demo_env demo_captured demo_answered"
    unfolding demo_answered_def by (intro racing.intros demo_race_racing) (simp_all add: two)
  moreover have "rc_flights (finish_step 0 x t demo_answered) = tl (rc_flights demo_answered)" for x t
    using n by (simp add: finish_step_def Let_def land_def drop_Suc)
  ultimately show ?thesis
    unfolding demo_landed_def using n a by (intro racing.intros) (simp_all add: nth_tl)
qed

lemma demo_captured_reachable: "reachable not_worker demo_env demo_captured"
  unfolding demo_captured_def demo_created_def demo_start_def by (intro reachable.intros) simp_all

section \<open>A stale payment object\<close>

text \<open>A refund is reserved; before it settles, the provider's \<open>payment.succeeded\<close> arrives and the
  worker applies it.\<close>

definition stale_reserved :: "mock_state race" where
  "stale_reserved = begin_step demo_env 7 2 ''k3'' ''{}'' 400 3000
     \<lparr>rc_db = fst demo_captured, rc_provider = snd demo_captured, rc_flights = []\<rparr>"

definition stale_disturbed :: "mock_state race" where
  "stale_disturbed = operate_step demo_env (WorkerTurn (\<lambda>_. \<lparr>poll_now = 5000, poll_locked = (\<lambda>i. i \<noteq> 21), poll_random = 0\<rparr>)) 5000
     (operate_step demo_env (ReceiveWebhook ''mock'' ''evt_1'' ''payment.succeeded''
       [(''data'', JObj [(''provider_transaction_id'', JStr (provider_txn_id 0))])] ''sig'') 4000 stale_reserved)"

definition stale_landed :: "mock_state race" where
  "stale_landed = finish_step 0 (demo_answer 400) 6000 stale_disturbed"

lemma stale_landed_view:
  "refund_view 2 (rc_db stale_landed) = ([(2, 1000, SUCCEEDED, 5)], [(400, RF_SUCCEEDED)],
     [(None, CREATED, API), (Some CREATED, PROCESSING, API), (Some PROCESSING, SUCCEEDED, API), (Some SUCCEEDED, REFUND_PENDING, API),
      (Some REFUND_PENDING, SUCCEEDED, WEBHOOK), (Some REFUND_PENDING, SUCCEEDED, API)])"
  by (simp add: stale_landed_def stale_disturbed_def stale_reserved_def demo_answer_def demo_race_defs worker_defs refund_view_def events_of_def)


text \<open>C38. The object a refund holds across the provider call is stale when a webhook moves the payment
  meanwhile. The refund was reserved in a regular race; the settlement still moves the payment
  from REFUND_PENDING, where it no longer is, and writes a version the payment already has: the
  events are no path of the state machine and the version misses one of them.\<close>

theorem stale_refund_forks_history:
  "racing (\<lambda>_. True) demo_env demo_captured stale_reserved \<and>
   refund_view 2 (rc_db stale_landed) = ([(2, 1000, SUCCEEDED, 5)], [(400, RF_SUCCEEDED)],
     [(None, CREATED, API), (Some CREATED, PROCESSING, API), (Some PROCESSING, SUCCEEDED, API), (Some SUCCEEDED, REFUND_PENDING, API),
      (Some REFUND_PENDING, SUCCEEDED, WEBHOOK), (Some REFUND_PENDING, SUCCEEDED, API)]) \<and>
   \<not> history_ok (rc_db stale_landed)"
proof -
  have "racing (\<lambda>_. True) demo_env demo_captured stale_reserved"
    unfolding stale_reserved_def by (intro racing.intros)
  moreover have "\<not> history_ok (rc_db stale_landed)"
  proof
    assume H: "history_ok (rc_db stale_landed)"
    from stale_landed_view obtain p where p: "payment_intents (rc_db stale_landed) = [p]" "pi_id p = 2" "pi_version p = 5"
      by (auto simp: refund_view_def)
    have "length (events_of 2 (rc_db stale_landed)) = 6"
      using stale_landed_view by (auto simp: refund_view_def)
    with H p show False by (simp add: history_ok_def history_matches_def Let_def)
  qed
  ultimately show ?thesis using stale_landed_view by simp
qed

end
