(* ===== verification/ReconcileRace.thy ===== *)
theory ReconcileRace
  imports RefundRace
begin

text \<open>
  Reconciliations that race. \<open>reconcile_payment\<close> commits before it asks the provider and locks
  the payment again to apply the answer; other requests run in between. As with refunds, a
  reconciliation here is two transactions with the answer between them, and any number of them, of
  different payments, are open at once among whole operations of the program; what happens to
  two of one payment is shown at the end. The second lock is meant to re-check the
  payment; it returns the object the session already holds, so the re-check sees what the first lock saw.
\<close>

section \<open>A reconciliation in two transactions\<close>

definition begin_reconciliation :: "uuid \<Rightarrow> uuid \<Rightarrow> ('p, reconciliation_report + string) prog" where
  "begin_reconciliation payment_id merchant_id =
     bnd (lock_payment payment_id merchant_id) (\<lambda>i.
     case i of
       None \<Rightarrow> raise (payment_not_found payment_id)
     | Some intent \<Rightarrow>
         if pi_status intent \<noteq> UNKNOWN then
           andthen commit
           (bnd (write_report (pi_id intent) MATCHED (pi_status intent) None
             [(''note'', JStr ''payment was not in UNKNOWN status at reconciliation time'')]) (\<lambda>report. ret (Inl report)))
         else
           bnd (query (original_idempotency_key (pi_id intent))) (\<lambda>idem_key.
           andthen commit
           (case idem_key of
              None \<Rightarrow>
                bnd (write_report (pi_id intent) MISSING_INTERNAL_TRANSACTION UNKNOWN None
                  [(''note'', JStr ''no idempotency key on record to ask the provider about'')]) (\<lambda>report. ret (Inl report))
            | Some k \<Rightarrow> ret (Inr k))))"

definition finish_reconciliation :: "string \<Rightarrow> uuid \<Rightarrow> uuid \<Rightarrow> provider_result \<Rightarrow> ('p, reconciliation_report) prog" where
  "finish_reconciliation provider_name payment_id merchant_id result =
     bnd (relock payment_id merchant_id) (apply_answer provider_name result)"

text \<open>Run one after the other, with nothing in between, they are \<open>reconcile_payment\<close>.\<close>

lemma reconciliation_is_two_transactions:
  "reconcile_payment p m (P :: 'p provider) =
     bnd (begin_reconciliation p m) (\<lambda>x. case x of
       Inl report \<Rightarrow> ret report
     | Inr k \<Rightarrow> bnd (call_provider (prov_get_payment_status_by_idempotency_key P k)) (finish_reconciliation (prov_name P) p m))"
proof
  fix s :: "'p session"
  obtain r s1 where lock: "lock_payment p m s = (r, s1)" by force
  note defs = reconcile_payment_def begin_reconciliation_def finish_reconciliation_def bnd_def andthen_def ret_def raise_def
    query_def commit_def write_report_run Let_def lock
  show "reconcile_payment p m P s = bnd (begin_reconciliation p m) (\<lambda>x. case x of
       Inl report \<Rightarrow> ret report
     | Inr k \<Rightarrow> bnd (call_provider (prov_get_payment_status_by_idempotency_key P k)) (finish_reconciliation (prov_name P) p m)) s"
  proof (cases r)
    case (Inr i)
    show ?thesis
    proof (cases i)
      case (Some intent)
      then show ?thesis
        by (cases "pi_status intent = UNKNOWN"; cases "original_idempotency_key (pi_id intent) (working s1)")
          (simp_all add: defs Inr split: prod.split sum.split)
    qed (simp add: defs Inr)
  qed (simp add: defs)
qed

section \<open>Reconciliations under way\<close>

record inquiry =
  iq_payment_id :: uuid
  iq_merchant_id :: uuid
  iq_idempotency_key :: string
  iq_answer :: "(exn + provider_result) option"
  iq_objects :: "uuid \<rightharpoonup> payment_intent"

record 'p inquiries =
  is_db :: db
  is_provider :: 'p
  is_open :: "inquiry list"

definition open_inquiry :: "uuid \<Rightarrow> uuid \<Rightarrow> instant \<Rightarrow> 'p inquiries \<Rightarrow> 'p inquiries" where
  "open_inquiry p m t r =
     (case begin_reconciliation p m (open_session (set_clock t (is_db r)) (is_provider r)) of
        (res, s) \<Rightarrow>
          r\<lparr>is_db := committed s,
            is_open := (case res of
               Inr (Inr k) \<Rightarrow>
                 \<lparr>iq_payment_id = p, iq_merchant_id = m, iq_idempotency_key = k, iq_answer = None,
                  iq_objects = identity_map s\<rparr> # is_open r
             | _ \<Rightarrow> is_open r)\<rparr>)"

definition answer_inquiry :: "'p env \<Rightarrow> nat \<Rightarrow> 'p inquiries \<Rightarrow> 'p inquiries" where
  "answer_inquiry E i r =
     (let q = is_open r ! i in
      case prov_get_payment_status_by_idempotency_key (env_provider E) (iq_idempotency_key q) (is_provider r) of
        (a, p') \<Rightarrow> r\<lparr>is_provider := p', is_open := (is_open r)[i := q\<lparr>iq_answer := Some a\<rparr>]\<rparr>)"

definition close_inquiry :: "'p env \<Rightarrow> nat \<Rightarrow> provider_result \<Rightarrow> instant \<Rightarrow> 'p inquiries \<Rightarrow> 'p inquiries" where
  "close_inquiry E i result t r =
     (let q = is_open r ! i;
          s = snd (finish_reconciliation (prov_name (env_provider E)) (iq_payment_id q) (iq_merchant_id q) result
                 (resume_session (iq_objects q) (set_clock t (is_db r)) (is_provider r)))
      in r\<lparr>is_db := committed s, is_open := land i (is_open r)\<rparr>)"

definition operate_beside :: "'p env \<Rightarrow> operation \<Rightarrow> instant \<Rightarrow> 'p inquiries \<Rightarrow> 'p inquiries" where
  "operate_beside E op t r =
     (case run_operation E op t (is_db r, is_provider r) of (d, p) \<Rightarrow> r\<lparr>is_db := d, is_provider := p\<rparr>)"

text \<open>An open reconciliation is undisturbed while the payments its session holds are as it saw
  them.\<close>

definition undisturbed :: "db \<Rightarrow> inquiry \<Rightarrow> bool" where
  "undisturbed d q \<longleftrightarrow>
     (\<forall>k obj. iq_objects q k = Some obj \<longrightarrow> pi_id obj = k \<and> (\<exists>row \<in> set (payment_intents d). agrees obj row))"

text \<open>The states with reconciliations of different payments open. They close in any order, each
  with the answer it got, whatever the others have done meanwhile; a whole operation must leave
  the payments they hold alone.\<close>

inductive reconciling :: "(operation \<Rightarrow> bool) \<Rightarrow> 'p env \<Rightarrow> db \<times> 'p \<Rightarrow> 'p inquiries \<Rightarrow> bool"
  for allowed :: "operation \<Rightarrow> bool" and E :: "'p env" and sys :: "db \<times> 'p" where
  start: "reconciling allowed E sys \<lparr>is_db = fst sys, is_provider = snd sys, is_open = []\<rparr>"
| opens: "reconciling allowed E sys r \<Longrightarrow> p \<notin> iq_payment_id ` set (is_open r) \<Longrightarrow> reconciling allowed E sys (open_inquiry p m t r)"
| answered: "reconciling allowed E sys r \<Longrightarrow> i < length (is_open r) \<Longrightarrow> reconciling allowed E sys (answer_inquiry E i r)"
| closes: "reconciling allowed E sys r \<Longrightarrow> i < length (is_open r) \<Longrightarrow> iq_answer (is_open r ! i) = Some (Inr a) \<Longrightarrow>
    reconciling allowed E sys (close_inquiry E i a t r)"
| abandoned: "reconciling allowed E sys r \<Longrightarrow> i < length (is_open r) \<Longrightarrow>
    reconciling allowed E sys (r\<lparr>is_open := land i (is_open r)\<rparr>)"
| operates: "reconciling allowed E sys r \<Longrightarrow> allowed op \<Longrightarrow> list_all (undisturbed (is_db (operate_beside E op t r))) (is_open r) \<Longrightarrow>
    reconciling allowed E sys (operate_beside E op t r)"

section \<open>Open reconciliations keep every invariant\<close>

lemma undisturbed_clock: "undisturbed (set_clock t d) q = undisturbed d q"
  by (simp add: undisturbed_def set_clock_def)

lemma undisturbed_cong: "payment_intents d' = payment_intents d \<Longrightarrow> undisturbed d' q = undisturbed d q"
  by (simp add: undisturbed_def)

lemma resumed_inv:
  assumes "schema_wf d" and "J d" and "undisturbed d q"
  shows "session_inv J (resume_session (iq_objects q) d P)"
  using assms by (simp add: inv_with_def coherent_def resume_session_def open_session_def stored_def undisturbed_def)

text \<open>The first transaction writes no payment.\<close>

definition payments_are :: "payment_intent list \<Rightarrow> 'p session \<Rightarrow> bool" where
  "payments_are ps s \<longleftrightarrow> payment_intents (working s) = ps \<and> payment_intents (committed s) = ps"

lemma payments_statements:
  "keeps (payments_are ps) commit" "keeps (payments_are ps) (materialise row)" "keeps (payments_are ps) (write_report p r st pst dt)"
  by (simp_all add: keeps_def payments_are_def commit_def materialise_def write_report_run Let_def)

lemma begin_payments: "keeps (payments_are ps) (begin_reconciliation p m)"
  unfolding begin_reconciliation_def lock_payment_def by (intro keeps_rules payments_statements)

text \<open>A session holds no payment but the one it reconciles, and its second transaction writes no
  other.\<close>

definition holds_only :: "uuid \<Rightarrow> 'p session \<Rightarrow> bool" where
  "holds_only p s \<longleftrightarrow> dom (identity_map s) \<subseteq> {p}"

lemma begin_holds_only: "keeps (holds_only p) (begin_reconciliation p m)"
proof -
  have lock: "keeps (holds_only p) (lock_payment p m)"
    by (auto simp: keeps_def holds_only_def lock_payment_def bnd_def query_def ret_def materialise_def Let_def
        dest!: find_payment_Some split: option.splits)
  moreover have "keeps (holds_only p) commit" "keeps (holds_only p) (write_report q r st pst dt)" for q r st pst dt
    by (simp_all add: keeps_def holds_only_def commit_def write_report_run Let_def)
  ultimately show ?thesis unfolding begin_reconciliation_def by (intro keeps_rules)
qed

definition rest_is :: "uuid \<Rightarrow> payment_intent list \<Rightarrow> 'p session \<Rightarrow> bool" where
  "rest_is p ps s \<longleftrightarrow> filter (\<lambda>x. pi_id x \<noteq> p) (payment_intents (working s)) = ps \<and>
     filter (\<lambda>x. pi_id x \<noteq> p) (payment_intents (committed s)) = ps"

lemma filter_update_other: "filter (\<lambda>x. pi_id x \<noteq> p) (update_where (\<lambda>x. pi_id x = p) f xs) = filter (\<lambda>x. pi_id x \<noteq> p) xs"
  if "\<And>x. pi_id (f x) = pi_id x"
  using that by (induction xs) auto

lemma rest_statements:
  "keeps (rest_is p ps) commit" "keeps (rest_is p ps) (inc n)" "keeps (rest_is p ps) (write_report q r st pst dt)"
  by (simp_all add: keeps_def rest_is_def commit_def inc_def write_report_run Let_def)

lemma rest_execute_checked:
  "(\<And>d x d'. f d = Inr (x, d') \<Longrightarrow> payment_intents d' = payment_intents d) \<Longrightarrow> keeps (rest_is p ps) (execute_checked f)"
  by (fastforce simp: keeps_def rest_is_def execute_checked_def split: sum.splits)

lemma rest_insert:
  "keeps (rest_is p ps) (execute_checked (insert_payment_attempt q nm oc cl n))"
  "keeps (rest_is p ps) (execute_checked (insert_provider_transaction aid nm ptx rs rr))"
  "keeps (rest_is p ps) (record_payment_settled q amt)"
  unfolding record_payment_settled_def
  by (rule rest_execute_checked; auto dest: insert_attempt_writes insert_ptx_writes add_pair_writes)+

lemma rest_transition: "keeps (rest_is (pi_id i) ps) (apply_transition i t a e)"
  by (simp add: keeps_def rest_is_def apply_transition_run payments_of_transition filter_update_other)

lemma rest_apply_answer: "keeps (rest_is (pi_id i) ps) (apply_answer nm res i)"
  unfolding apply_answer_def resolve_succeeded_def resolve_failed_def
  by (intro keeps_rules rest_statements rest_insert rest_transition)

lemma finish_rest:
  fixes s :: "'p session"
  assumes "\<And>obj. identity_map s p = Some obj \<Longrightarrow> pi_id obj = p" and "rest_is p ps s"
  shows "rest_is p ps (snd (finish_reconciliation nm p m a s))"
proof -
  have "case relock p m s of (Inl e, s') \<Rightarrow> rest_is p ps s' | (Inr i, s') \<Rightarrow> pi_id i = p \<and> rest_is p ps s'"
    using assms by (auto simp: relock_def lock_payment_def bnd_def query_def ret_def raise_def materialise_def Let_def rest_is_def
        dest!: find_payment_Some split: option.splits)
  moreover have "rest_is p ps (snd (apply_answer nm a i s'))" if "pi_id i = p" "rest_is p ps s'" for i and s' :: "'p session"
    using rest_apply_answer [of i ps nm a] that by (auto simp: keeps_def)
  ultimately show ?thesis
    unfolding finish_reconciliation_def by (auto simp: bnd_def split: prod.splits sum.splits)
qed

lemma undisturbed_rest:
  assumes "undisturbed d q" and "dom (iq_objects q) \<subseteq> {iq_payment_id q}" and "iq_payment_id q \<noteq> p"
    and "filter (\<lambda>x. pi_id x \<noteq> p) (payment_intents d') = filter (\<lambda>x. pi_id x \<noteq> p) (payment_intents d)"
  shows "undisturbed d' q"
  unfolding undisturbed_def
proof (intro allI impI)
  fix k obj assume obj: "iq_objects q k = Some obj"
  with assms(1) obtain row where row: "pi_id obj = k" "row \<in> set (payment_intents d)" "agrees obj row"
    by (auto simp: undisturbed_def)
  from obj assms(2,3) have "k \<noteq> p" by auto
  then have "row \<in> set (filter (\<lambda>x. pi_id x \<noteq> p) (payment_intents d))"
    using row agrees_fields [OF row(3)] by simp
  then have "row \<in> set (payment_intents d')" unfolding assms(4) [symmetric] by simp
  with row show "pi_id obj = k \<and> (\<exists>row \<in> set (payment_intents d'). agrees obj row)" by blast
qed

text \<open>What open reconciliations keep of each other.\<close>

definition inquiries_ok :: "'p inquiries \<Rightarrow> bool" where
  "inquiries_ok r \<longleftrightarrow> distinct (map iq_payment_id (is_open r)) \<and>
     list_all (\<lambda>q. undisturbed (is_db r) q \<and> dom (iq_objects q) \<subseteq> {iq_payment_id q}) (is_open r)"

lemma open_inquiry_run:
  assumes "schema_wf (is_db r)" and "J (set_clock t (is_db r))" and inv: "keeps (session_inv J) (begin_reconciliation p m :: ('p, _) prog)"
  shows "schema_wf (is_db (open_inquiry p m t r))" and "J (is_db (open_inquiry p m t (r :: 'p inquiries)))"
    and "payment_intents (is_db (open_inquiry p m t r)) = payment_intents (is_db r)"
    and "inquiries_ok r \<Longrightarrow> p \<notin> iq_payment_id ` set (is_open r) \<Longrightarrow> inquiries_ok (open_inquiry p m t r)"
proof -
  let ?s0 = "open_session (set_clock t (is_db r)) (is_provider r)"
  obtain res s where run: "begin_reconciliation p m ?s0 = (res, s)" by force
  have "session_inv J ?s0" using assms(1,2) by (intro session_inv_open schema_wf_clock)
  then have I: "session_inv J s" using keepsD [OF inv _ run] by blast
  have "payments_are (payment_intents (is_db r)) ?s0" by (simp add: payments_are_def open_session_def set_clock_def)
  then have same: "payments_are (payment_intents (is_db r)) s" using keepsD [OF begin_payments _ run] by blast
  have db: "is_db (open_inquiry p m t r) = committed s" by (simp add: open_inquiry_def run)
  show "schema_wf (is_db (open_inquiry p m t r))" "J (is_db (open_inquiry p m t r))"
    using session_inv_committed [OF I] by (simp_all add: db)
  show "payment_intents (is_db (open_inquiry p m t r)) = payment_intents (is_db r)"
    using same by (simp add: db payments_are_def)
  have coh: "coherent s" using I by (simp add: inv_with_def)
  have "holds_only p ?s0" by (simp add: holds_only_def open_session_def)
  then have only: "holds_only p s" using keepsD [OF begin_holds_only _ run] by blast
  assume ok: "inquiries_ok r" and new: "p \<notin> iq_payment_id ` set (is_open r)"
  have old: "undisturbed (committed s) q = undisturbed (is_db r) q" for q
    using same by (intro undisturbed_cong) (simp add: payments_are_def)
  have mine: "undisturbed (committed s) q" if "iq_objects q = identity_map s" for q
    using that coh same by (simp add: undisturbed_def coherent_def payments_are_def)
  show "inquiries_ok (open_inquiry p m t r)"
    using ok new only old mine
    by (auto simp: inquiries_ok_def open_inquiry_def run list_all_iff holds_only_def split: sum.splits)
qed

text \<open>Whatever whole operations keep, and both transactions keep, open reconciliations keep.\<close>

lemma reconciling_keeps:
  fixes E :: "'p env"
  assumes clock: "\<And>d t. J d \<Longrightarrow> J (set_clock t d)"
    and op: "\<And>op. allowed op \<Longrightarrow> keeps (session_inv J) (perform E op)"
    and begins: "\<And>p m. keeps (session_inv J) (begin_reconciliation p m :: ('p, _) prog)"
    and finishes: "\<And>nm p m a. keeps (session_inv J) (finish_reconciliation nm p m a :: ('p, _) prog)"
    and init: "schema_wf (fst sys)" "J (fst sys)" and run: "reconciling allowed E sys r"
  shows "schema_wf (is_db r) \<and> J (is_db r) \<and> inquiries_ok r"
  using run
proof induction
  case (opens r p m t)
  then have I: "schema_wf (is_db r)" "J (set_clock t (is_db r))" by (simp_all add: clock)
  from open_inquiry_run [OF I begins] opens show ?case by blast
next
  case (answered r i)
  let ?q = "is_open r ! i"
  obtain a P where step: "answer_inquiry E i r = r\<lparr>is_provider := P, is_open := (is_open r)[i := ?q\<lparr>iq_answer := a\<rparr>]\<rparr>"
    by (cases "prov_get_payment_status_by_idempotency_key (env_provider E) (iq_idempotency_key ?q) (is_provider r)")
      (simp add: answer_inquiry_def Let_def)
  have "map iq_payment_id ((is_open r)[i := ?q\<lparr>iq_answer := a\<rparr>]) = map iq_payment_id (is_open r)"
    using answered.hyps(2) by (simp add: map_update list_update_same_conv)
  moreover have "undisturbed d (q\<lparr>iq_answer := a\<rparr>) = undisturbed d q" for d q by (simp add: undisturbed_def)
  ultimately show ?case
    using answered unfolding step
    by (simp add: inquiries_ok_def list_all_length nth_list_update)
next
  case (closes r i a t)
  let ?q = "is_open r ! i"
  let ?s = "resume_session (iq_objects ?q) (set_clock t (is_db r)) (is_provider r)"
  let ?s' = "snd (finish_reconciliation (prov_name (env_provider E)) (iq_payment_id ?q) (iq_merchant_id ?q) a ?s)"
  let ?rest = "filter (\<lambda>x. pi_id x \<noteq> iq_payment_id ?q) (payment_intents (is_db r))"
  have q: "undisturbed (is_db r) ?q" using closes by (simp add: inquiries_ok_def list_all_length)
  then have "session_inv J ?s" using closes.IH by (intro resumed_inv schema_wf_clock) (simp_all add: clock undisturbed_clock)
  then have "session_inv J ?s'" using finishes by (simp add: keeps_def)
  then have J': "schema_wf (committed ?s')" "J (committed ?s')" by (simp_all add: session_inv_committed)
  have "rest_is (iq_payment_id ?q) ?rest ?s"
    by (simp add: rest_is_def resume_session_def open_session_def set_clock_def)
  then have "rest_is (iq_payment_id ?q) ?rest ?s'"
    using q by (intro finish_rest) (simp_all add: undisturbed_def resume_session_def)
  then have rest: "filter (\<lambda>x. pi_id x \<noteq> iq_payment_id ?q) (payment_intents (committed ?s')) = ?rest" by (simp add: rest_is_def)
  have D: "distinct (map iq_payment_id (is_open r))" using closes.IH by (simp add: inquiries_ok_def)
  note others = land_flights [OF closes.hyps(2) D]
  have "undisturbed (committed ?s') q' \<and> dom (iq_objects q') \<subseteq> {iq_payment_id q'}" if "q' \<in> set (land i (is_open r))" for q'
  proof -
    have "undisturbed (is_db r) q' \<and> dom (iq_objects q') \<subseteq> {iq_payment_id q'}"
      using that others(1) closes.IH unfolding inquiries_ok_def list_all_iff by blast
    moreover have "iq_payment_id q' \<noteq> iq_payment_id ?q" using that others(3) by blast
    ultimately show ?thesis using undisturbed_rest [OF _ _ _ rest] by blast
  qed
  with J' others(2) show ?case by (simp add: close_inquiry_def Let_def inquiries_ok_def list_all_iff)
next
  case (abandoned r i)
  then have "distinct (map iq_payment_id (is_open r))" by (simp add: inquiries_ok_def)
  note others = land_flights [OF abandoned.hyps(2) this]
  have "list_all (\<lambda>q. undisturbed (is_db r) q \<and> dom (iq_objects q) \<subseteq> {iq_payment_id q}) (land i (is_open r))"
    using abandoned.IH others(1) unfolding inquiries_ok_def list_all_iff by blast
  with abandoned.IH others(2) show ?case by (simp add: inquiries_ok_def)
next
  case (operates r op t)
  have "schema_wf (fst (run_operation E op t (is_db r, is_provider r))) \<and> J (fst (run_operation E op t (is_db r, is_provider r)))"
    using run_operation_keeps [OF op [OF operates.hyps(2)], of "(is_db r, is_provider r)" t] operates.IH by (simp add: clock)
  then show ?case using operates.hyps(3) operates.IH
    by (simp add: operate_beside_def case_prod_unfold inquiries_ok_def list_all_iff)
qed (simp add: init inquiries_ok_def)

context inquiry_invariant
begin

lemma inv_begin_reconciliation: "keeps (session_inv J) (begin_reconciliation p m)"
  unfolding begin_reconciliation_def
  by (intro lock_bnd keeps_raise triple_if held_keeps keeps_rules keeps_inv_quiet inv_write_report keeps_case_option)

lemma inv_finish_reconciliation: "keeps (session_inv J) (finish_reconciliation nm p m a)"
  unfolding finish_reconciliation_def by (intro relock_bnd inv_apply_answer)

end

context money_invariant
begin

lemma reconciling_payments:
  "schema_wf (fst sys) \<Longrightarrow> J (fst sys) \<Longrightarrow> reconciling not_worker E sys r \<Longrightarrow> schema_wf (is_db r) \<and> J (is_db r)"
  using reconciling_keeps [where J = J and allowed = not_worker and E = E, OF J_set_clock perform_payments
      rec.inv_begin_reconciliation rec.inv_finish_reconciliation] by blast

end

context program_invariant
begin

lemma reconciling_all:
  "schema_wf (fst sys) \<Longrightarrow> J (fst sys) \<Longrightarrow> reconciling allowed E sys r \<Longrightarrow> schema_wf (is_db r) \<and> J (is_db r)"
  using reconciling_keeps [where J = J and allowed = allowed and E = E, OF J_set_clock perform_all
      rec.inv_begin_reconciliation rec.inv_finish_reconciliation] by blast

end

section \<open>A stale re-check\<close>

text \<open>A payment whose authorisation got no answer, although the provider declined it. A
  reconciliation has asked; before it applies the answer, another pass resolves the payment.\<close>

definition lost_decline :: "db \<times> mock_state" where
  "lost_decline = run_operation demo_env (CreatePayment (demo_request\<lparr>rq_payment_token := ''unknown_result''\<rparr>)) 1000 demo_start"

definition recheck_open :: "mock_state inquiries" where
  "recheck_open = answer_inquiry demo_env 0 (open_inquiry 2 7 2000
     \<lparr>is_db = fst lost_decline, is_provider = snd lost_decline, is_open = []\<rparr>)"

definition recheck_disturbed :: "mock_state inquiries" where
  "recheck_disturbed = operate_beside demo_env (ReconciliationPass None) 3000 recheck_open"

definition recheck_closed :: "mock_state inquiries" where
  "recheck_closed = close_inquiry demo_env 0 declined_result 4000 recheck_disturbed"

definition recheck_view ::
    "db \<Rightarrow> (uuid \<times> payment_status \<times> int) list \<times> (payment_status option \<times> payment_status \<times> actor) list \<times> int list \<times> reconciliation_result list" where
  "recheck_view d = (map (\<lambda>p. (pi_id p, pi_status p, pi_version p)) (payment_intents d),
     map (\<lambda>e. (pe_from_status e, pe_to_status e, pe_actor e)) (events_of 2 d), map pa_attempt_number (payment_attempts d),
     map rr_result (reconciliation_reports d))"

lemmas recheck_defs = lost_decline_def open_inquiry_def answer_inquiry_def operate_beside_def close_inquiry_def
  begin_reconciliation_def finish_reconciliation_def resume_session_def land_def demo_defs reconciliation_defs declined_result_def

lemma recheck_open_answer: "map iq_answer (is_open recheck_open) = [Some (Inr declined_result)]"
  by (simp add: recheck_open_def recheck_defs)

lemma recheck_closed_view:
  "recheck_view (is_db recheck_closed) =
     ([(2, FAILED, 4)],
      [(None, CREATED, API), (Some CREATED, PROCESSING, API), (Some PROCESSING, UNKNOWN, API),
       (Some UNKNOWN, FAILED, RECONCILIATION), (Some UNKNOWN, FAILED, RECONCILIATION)],
      [1, 2, 3], [RESOLVED_FAILED, RESOLVED_FAILED])"
  by (simp add: recheck_closed_def recheck_disturbed_def recheck_open_def recheck_view_def events_of_def recheck_defs)

lemma recheck_reconciling: "reconciling allowed demo_env lost_decline recheck_open"
proof -
  have "length (is_open recheck_open) = 1" using arg_cong [OF recheck_open_answer, of length] by simp
  moreover have "length (is_open (answer_inquiry E i r)) = length (is_open r)" for E i and r :: "mock_state inquiries"
    by (simp add: answer_inquiry_def Let_def split: prod.splits)
  ultimately show ?thesis unfolding recheck_open_def by (intro reconciling.intros) simp_all
qed

lemma lost_decline_reachable: "reachable not_worker demo_env lost_decline"
  unfolding lost_decline_def demo_start_def by (intro reachable.intros) simp

text \<open>The same reconciliation, left alone.\<close>

definition recheck_alone :: "mock_state inquiries" where
  "recheck_alone = close_inquiry demo_env 0 declined_result 4000 recheck_open"

lemma recheck_alone_view:
  "recheck_view (is_db recheck_alone) =
     ([(2, FAILED, 4)],
      [(None, CREATED, API), (Some CREATED, PROCESSING, API), (Some PROCESSING, UNKNOWN, API), (Some UNKNOWN, FAILED, RECONCILIATION)],
      [1, 2], [RESOLVED_FAILED])"
  by (simp add: recheck_alone_def recheck_open_def recheck_view_def events_of_def recheck_defs)

lemma recheck_alone_reconciling: "reconciling allowed demo_env lost_decline recheck_alone"
proof -
  have one: "length (is_open recheck_open) = 1" and a: "iq_answer (is_open recheck_open ! 0) = Some (Inr declined_result)"
    using recheck_open_answer by (auto simp: map_eq_Cons_conv)
  then have "land 0 (is_open recheck_open) = []" by (simp add: land_def)
  with one a show ?thesis unfolding recheck_alone_def by (intro reconciling.closes recheck_reconciling) simp_all
qed

section \<open>Properties\<close>

text \<open>C39. The re-check under the second lock does not re-check. A reconciliation that has asked the
  provider is disturbed by a pass that resolves the payment; it still applies its answer as if
  the payment were UNKNOWN: the payment leaves UNKNOWN twice, with a second attempt and a second
  report, and its version misses one of its events.\<close>

theorem stale_recheck_resolves_twice:
  "reconciling (\<lambda>_. True) demo_env lost_decline recheck_open \<and>
   recheck_view (is_db recheck_closed) =
     ([(2, FAILED, 4)],
      [(None, CREATED, API), (Some CREATED, PROCESSING, API), (Some PROCESSING, UNKNOWN, API),
       (Some UNKNOWN, FAILED, RECONCILIATION), (Some UNKNOWN, FAILED, RECONCILIATION)],
      [1, 2, 3], [RESOLVED_FAILED, RESOLVED_FAILED]) \<and>
   \<not> history_ok (is_db recheck_closed)"
proof -
  have "\<not> history_ok (is_db recheck_closed)"
  proof
    assume H: "history_ok (is_db recheck_closed)"
    from recheck_closed_view obtain p where p: "payment_intents (is_db recheck_closed) = [p]" "pi_id p = 2" "pi_version p = 4"
      by (auto simp: recheck_view_def)
    have "length (events_of 2 (is_db recheck_closed)) = 5"
      using recheck_closed_view by (auto simp: recheck_view_def)
    with H p show False by (simp add: history_ok_def history_matches_def Let_def)
  qed
  then show ?thesis using recheck_closed_view recheck_reconciling by simp
qed

end
