(* ===== verification/Queries.thy ===== *)
theory Queries
  imports Scenarios
begin

text \<open>
  The reading half of \<open>packages/payments/service.py\<close>: single payments and refunds, the paged
  list, the detail page and the dashboard's summary. Rows with equal sort keys, which SQL may
  return in any order, keep the order of the table here.
\<close>

section \<open>Serialisation of a payment's records\<close>

definition serialize_payment_event :: "payment_event \<Rightarrow> (string \<times> json) list" where
  "serialize_payment_event event =
     [(''id'', JStr (uuid_str (pe_id event))),
      (''from_status'', opt_str (map_option payment_status_value (pe_from_status event))),
      (''to_status'', JStr (payment_status_value (pe_to_status event))),
      (''actor'', JStr (actor_value (pe_actor event))),
      (''created_at'', JTime (pe_created_at event))]"

fun failure_classification_value :: "failure_classification \<Rightarrow> string" where
  "failure_classification_value PERMANENT = ''PERMANENT''"
| "failure_classification_value TRANSIENT = ''TRANSIENT''"
| "failure_classification_value FC_UNKNOWN = ''UNKNOWN''"

definition serialize_payment_attempt :: "payment_attempt \<Rightarrow> (string \<times> json) list" where
  "serialize_payment_attempt attempt =
     [(''id'', JStr (uuid_str (pa_id attempt))),
      (''provider_name'', JStr (pa_provider_name attempt)),
      (''status'', JStr (provider_outcome_value (pa_status attempt))),
      (''failure_classification'', opt_str (map_option failure_classification_value (pa_failure_classification attempt))),
      (''attempt_number'', JInt (pa_attempt_number attempt)),
      (''created_at'', JTime (pa_created_at attempt))]"

fun direction_value :: "direction \<Rightarrow> string" where
  "direction_value DEBIT = ''DEBIT''"
| "direction_value CREDIT = ''CREDIT''"

definition serialize_ledger_entry :: "ledger_entry \<Rightarrow> (string \<times> json) list" where
  "serialize_ledger_entry e =
     [(''id'', JStr (uuid_str (le_id e))),
      (''ledger_transaction_id'', JStr (uuid_str (le_ledger_transaction_id e))),
      (''account'', JStr (le_account e)),
      (''direction'', JStr (direction_value (le_direction e))),
      (''amount'', JInt (le_amount_minor e)),
      (''created_at'', JTime (le_created_at e))]"

section \<open>Single rows\<close>

definition get_payment :: "uuid \<Rightarrow> uuid \<Rightarrow> ('p, payment_intent) prog" where
  "get_payment merchant_id payment_id =
     bnd (query (find_payment payment_id merchant_id)) (\<lambda>row.
     case row of
       None \<Rightarrow> raise (payment_not_found payment_id)
     | Some r \<Rightarrow> materialise r)"

text \<open>The join of refunds with their payments.\<close>

definition find_refund :: "uuid \<Rightarrow> uuid \<Rightarrow> db \<Rightarrow> refund option" where
  "find_refund refund_id merchant_id d =
     select_one (\<lambda>r. rf_id r = refund_id \<and>
       (\<exists>p \<in> set (payment_intents d). rf_payment_intent_id r = pi_id p \<and> pi_merchant_id p = merchant_id)) (refunds d)"

definition get_refund :: "uuid \<Rightarrow> uuid \<Rightarrow> ('p, refund) prog" where
  "get_refund merchant_id refund_id =
     bnd (query (find_refund refund_id merchant_id)) (\<lambda>row.
     case row of
       None \<Rightarrow> raise (PayGuardError ''REFUND_NOT_FOUND'' (''No refund found with id '' @ uuid_str refund_id @ ''.''))
     | Some r \<Rightarrow> ret r)"

section \<open>Lists\<close>

text \<open>The filters of \<open>list_payments\<close>; a status that is no payment status matches nothing.\<close>

definition listed :: "uuid \<Rightarrow> string option \<Rightarrow> payment_intent \<Rightarrow> bool" where
  "listed merchant_id status p \<longleftrightarrow> pi_merchant_id p = merchant_id \<and>
     (case status of None \<Rightarrow> True | Some st \<Rightarrow> payment_status_value (pi_status p) = st)"

definition list_rows :: "uuid \<Rightarrow> string option \<Rightarrow> db \<Rightarrow> payment_intent list" where
  "list_rows merchant_id status d =
     sort_key (\<lambda>p. - pi_created_at p) (filter (listed merchant_id status) (payment_intents d))"

definition list_payments ::
    "uuid \<Rightarrow> string option \<Rightarrow> nat \<Rightarrow> nat \<Rightarrow> db \<Rightarrow> payment_intent list \<times> nat" where
  "list_payments merchant_id status limit offset d =
     (take limit (drop offset (list_rows merchant_id status d)),
      select_count (listed merchant_id status) (payment_intents d))"

section \<open>The detail page\<close>

definition get_payment_detail :: "uuid \<Rightarrow> uuid \<Rightarrow> ('p, (string \<times> json) list) prog" where
  "get_payment_detail merchant_id payment_id =
     bnd (get_payment merchant_id payment_id) (\<lambda>intent.
     bnd (query (\<lambda>d. sort_key pe_created_at (filter (\<lambda>e. pe_payment_intent_id e = pi_id intent) (payment_events d)))) (\<lambda>events.
     bnd (query (\<lambda>d. sort_key pa_attempt_number (filter (\<lambda>a. pa_payment_intent_id a = pi_id intent) (payment_attempts d)))) (\<lambda>attempts.
     bnd (query (\<lambda>d. sort_key rf_created_at (filter (\<lambda>r. rf_payment_intent_id r = pi_id intent) (refunds d)))) (\<lambda>rs.
     bnd (query (\<lambda>d. sort_key le_created_at (filter (\<lambda>e. le_payment_intent_id e = pi_id intent) (ledger_entries d)))) (\<lambda>entries.
     ret (serialize_payment intent @
       [(''events'', JArr (map (JObj \<circ> serialize_payment_event) events)),
        (''attempts'', JArr (map (JObj \<circ> serialize_payment_attempt) attempts)),
        (''refunds'', JArr (map (JObj \<circ> serialize_refund) rs)),
        (''ledger_entries'', JArr (map (JObj \<circ> serialize_ledger_entry) entries))]))))))"

section \<open>The dashboard\<close>

text \<open>\<open>GROUP BY status\<close>: one entry for each status that occurs, in table order here.\<close>

definition counts_by_status :: "uuid \<Rightarrow> db \<Rightarrow> (string \<times> nat) list" where
  "counts_by_status merchant_id d =
     (let ps = filter (\<lambda>p. pi_merchant_id p = merchant_id) (payment_intents d) in
      map (\<lambda>st. (payment_status_value st, select_count (\<lambda>p. pi_status p = st) ps)) (remdups (map pi_status ps)))"

record dashboard_summary =
  ds_counts_by_status :: "(string \<times> nat) list"
  ds_total_payments :: nat
  ds_total_succeeded_amount :: int
  ds_total_refunded_amount :: int

definition total_refunded :: "uuid \<Rightarrow> db \<Rightarrow> int" where
  "total_refunded merchant_id d =
     sum_list (map (rf_amount_minor \<circ> fst)
       (filter (\<lambda>(r, p). pi_merchant_id p = merchant_id \<and> rf_status r = RF_SUCCEEDED)
         (concat (map (\<lambda>r. map (Pair r) (filter (\<lambda>p. rf_payment_intent_id r = pi_id p) (payment_intents d))) (refunds d)))))"

definition get_dashboard_summary :: "uuid \<Rightarrow> db \<Rightarrow> dashboard_summary" where
  "get_dashboard_summary merchant_id d =
     (let counts = counts_by_status merchant_id d in
      \<lparr>ds_counts_by_status = counts,
       ds_total_payments = sum_list (map snd counts),
       ds_total_succeeded_amount =
         select_sum pi_amount_minor (\<lambda>p. pi_merchant_id p = merchant_id \<and> pi_status p = SUCCEEDED) (payment_intents d),
       ds_total_refunded_amount = total_refunded merchant_id d\<rparr>)"

section \<open>Properties\<close>

text \<open>Pages of \<open>n\<close> rows, one after another.\<close>

definition pages :: "nat \<Rightarrow> uuid \<Rightarrow> string option \<Rightarrow> db \<Rightarrow> nat \<Rightarrow> payment_intent list" where
  "pages n merchant_id status d k = concat (map (\<lambda>i. fst (list_payments merchant_id status n (i * n) d)) [0..<k])"

lemma take_pages: "concat (map (\<lambda>i. take n (drop (i * n) xs)) [0..<k]) = take (k * n) xs"
proof (induction k)
  case (Suc k)
  then show ?case by (simp add: take_add add.commute [of n] del: take_append)
qed simp

text \<open>A client that walks through the list page by page sees every payment of the merchant that
  matches, each exactly once, none of another merchant, newest first, and the total every page
  reports is how many there are.\<close>

theorem pages_cover_the_list:
  assumes "0 < n" and "snd (list_payments m st l off d) \<le> k * n"
  shows "set (pages n m st d k) = {p \<in> set (payment_intents d). listed m st p} \<and>
    length (pages n m st d k) = snd (list_payments m st l off d) \<and>
    sorted (map (\<lambda>p. - pi_created_at p) (pages n m st d k))"
proof -
  have "pages n m st d k = take (k * n) (list_rows m st d)"
    by (simp add: pages_def list_payments_def take_pages)
  moreover have "length (list_rows m st d) = snd (list_payments m st l off d)"
    by (simp add: list_rows_def list_payments_def select_count_def)
  ultimately have "pages n m st d k = list_rows m st d" using assms(2) by simp
  then show ?thesis
    by (auto simp: list_rows_def list_payments_def select_count_def)
qed

theorem pages_cover_the_list_witness:
  "set (pages 20 7 None (fst demo_refunded) 1) = {demo_payment} \<and> length (pages 20 7 None (fst demo_refunded) 1) = 1"
proof -
  have l: "listed 7 None demo_payment" by (simp add: listed_def demo_payment_def)
  have n: "snd (list_payments 7 None 20 0 (fst demo_refunded)) = 1"
    by (simp add: list_payments_def demo_refunded_rows l select_count_def)
  show ?thesis using pages_cover_the_list [of 20 7 None 20 0 "fst demo_refunded" 1]
    by (simp add: n demo_refunded_rows Collect_conv_if l)
qed

lemma count_group:
  assumes "finite A" and "f ` set ps \<subseteq> A"
  shows "(\<Sum>st \<in> A. select_count (\<lambda>p. f p = st) ps) = length ps"
  using assms(2)
proof (induction ps)
  case (Cons p ps)
  have "(\<Sum>st \<in> A. select_count (\<lambda>p. f p = st) (p # ps)) =
      (\<Sum>st \<in> A. (if f p = st then 1 else 0) + select_count (\<lambda>p. f p = st) ps)"
    by (intro sum.cong) (auto simp: select_count_def)
  also have "\<dots> = Suc (length ps)" using Cons assms(1) by (simp add: sum.distrib)
  finally show ?case by simp
qed (simp add: select_count_def)

lemma sum_counts:
  "sum_list (map (\<lambda>st. select_count (\<lambda>p. f p = st) ps) (remdups (map f ps))) = length ps"
  using count_group [of "f ` set ps" f ps] by (simp add: sum_list_distinct_conv_sum_set)

lemma counted_payments:
  "ds_total_payments (get_dashboard_summary m d) = snd (list_payments m None l off d)"
proof -
  have "listed m None = (\<lambda>p. pi_merchant_id p = m)" by (auto simp: listed_def)
  then have "snd (list_payments m None l off d) = length (filter (\<lambda>p. pi_merchant_id p = m) (payment_intents d))"
    by (simp add: list_payments_def select_count_def)
  then show ?thesis
    by (simp add: get_dashboard_summary_def counts_by_status_def Let_def comp_def sum_counts del: filter_filter)
qed

text \<open>The join of the refunds with the payments, summed payment by payment.\<close>

lemma joined_sum:
  "sum_list (map (\<lambda>x. f (fst x)) (filter (\<lambda>(r, p). q p \<and> s r) (concat (map (\<lambda>r. map (Pair r) (filter (\<lambda>p. k r = i p) ps)) rs)))) =
   (\<Sum>p \<leftarrow> filter q ps. select_sum f (\<lambda>r. k r = i p \<and> s r) rs)"
proof (induction rs)
  case (Cons r rs)
  have "sum_list (map (\<lambda>x. f (fst x)) (filter (\<lambda>(r, p). q p \<and> s r) (map (Pair r) (filter (\<lambda>p. k r = i p) ps)))) =
      (\<Sum>p \<leftarrow> filter q ps. if k r = i p \<and> s r then f r else 0)"
    by (induction ps) auto
  with Cons show ?case by (simp add: sum_list_addf)
qed (simp add: sum_list_0)

lemma total_refunded_split:
  "total_refunded m d = (\<Sum>p \<leftarrow> filter (\<lambda>p. pi_merchant_id p = m) (payment_intents d). refunded_amount (pi_id p) d)"
  unfolding total_refunded_def comp_def refunded_amount_def by (rule joined_sum)

end
