(* ===== verification/Merchants.thy ===== *)
theory Merchants
  imports Outbox
begin

text \<open>
  Merchants and their credentials: key rotation (\<open>packages/merchants/service.py\<close>), the operator
  scripts that create a merchant and rotate its key (\<open>scripts/seed_merchant.py\<close>,
  \<open>scripts/rotate_api_key.py\<close>), and the authentication of a request
  (\<open>get_current_merchant\<close> in \<open>apps/api/dependencies.py\<close>). Keys are stored as digests;
  \<open>sha256hex\<close> is the digest function, \<open>token\<close> the text of \<open>secrets.token_urlsafe(32)\<close>.
\<close>

section \<open>Rotation\<close>

definition DEFAULT_OVERLAP :: int where
  "DEFAULT_OVERLAP = seconds (24 * 60 * 60)"

definition rotate_api_key ::
    "(string \<Rightarrow> string) \<Rightarrow> string \<Rightarrow> int \<Rightarrow> instant \<Rightarrow> merchant \<Rightarrow> string \<times> merchant" where
  "rotate_api_key sha256hex token overlap time m =
     (let new_api_key = generate_api_key token in
      (new_api_key,
       m\<lparr>m_previous_api_key_hash := Some (m_api_key_hash m),
         m_previous_api_key_expires_at := Some (time + overlap),
         m_api_key_hash := hash_api_key sha256hex new_api_key\<rparr>))"

text \<open>The unique columns of \<open>merchants\<close>; NULLs never clash.\<close>

definition merchant_clash :: "merchant \<Rightarrow> merchant list \<Rightarrow> exn option" where
  "merchant_clash m others =
     (if \<exists>o' \<in> set others. m_api_key_hash o' = m_api_key_hash m
      then Some (IntegrityError ''merchants_api_key_hash_key'')
      else if m_previous_api_key_hash m \<noteq> None \<and>
         (\<exists>o' \<in> set others. m_previous_api_key_hash o' = m_previous_api_key_hash m)
      then Some (IntegrityError ''uq_merchants_previous_api_key_hash'')
      else None)"

definition update_merchant :: "merchant \<Rightarrow> db \<Rightarrow> exn + (unit \<times> db)" where
  "update_merchant m d =
     (case merchant_clash m (filter (\<lambda>r. m_id r \<noteq> m_id m) (merchants d)) of
        Some e \<Rightarrow> Inl e
      | None \<Rightarrow> Inr ((), d\<lparr>merchants := update_where (\<lambda>r. m_id r = m_id m) (\<lambda>_. m) (merchants d)\<rparr>))"

definition insert_merchant :: "string \<Rightarrow> string \<Rightarrow> db \<Rightarrow> exn + (merchant \<times> db)" where
  "insert_merchant name api_key_hash d =
     (let m = \<lparr>m_id = next_uuid d, m_name = name, m_api_key_hash = api_key_hash, m_previous_api_key_hash = None,
               m_previous_api_key_expires_at = None, m_status = M_active, m_created_at = now d\<rparr>
      in case merchant_clash m (merchants d) of
           Some e \<Rightarrow> Inl e
         | None \<Rightarrow> Inr (m, d\<lparr>next_uuid := Suc (next_uuid d), merchants := merchants d @ [m]\<rparr>))"

text \<open>The two scripts; the printed key is the value they return.\<close>

definition seed_merchant :: "(string \<Rightarrow> string) \<Rightarrow> string \<Rightarrow> string \<Rightarrow> ('p, string) prog" where
  "seed_merchant sha256hex token name =
     (let api_key = generate_api_key token in
      andthen (execute_checked (insert_merchant name (hash_api_key sha256hex api_key)))
      (andthen commit (ret api_key)))"

definition rotate_merchant_key :: "(string \<Rightarrow> string) \<Rightarrow> string \<Rightarrow> uuid \<Rightarrow> ('p, string) prog" where
  "rotate_merchant_key sha256hex token merchant_id =
     bnd (query (\<lambda>d. select_one (\<lambda>m. m_id m = merchant_id) (merchants d))) (\<lambda>row.
     case row of
       None \<Rightarrow> raise (PayGuardError ''MERCHANT_NOT_FOUND'' (''No merchant found with id '' @ uuid_str merchant_id @ ''.''))
     | Some merchant \<Rightarrow>
         bnd (query now) (\<lambda>time.
         case rotate_api_key sha256hex token DEFAULT_OVERLAP time merchant of
           (new_api_key, changed) \<Rightarrow>
             andthen (execute_checked (update_merchant changed))
             (andthen commit (ret new_api_key))))"

section \<open>Authentication\<close>

text \<open>The WHERE clause of the lookup. A comparison with NULL is not true.\<close>

definition key_matches :: "string \<Rightarrow> instant \<Rightarrow> merchant \<Rightarrow> bool" where
  "key_matches key_hash time m \<longleftrightarrow>
     m_api_key_hash m = key_hash \<or>
     (m_previous_api_key_hash m = Some key_hash \<and>
      (case m_previous_api_key_expires_at m of None \<Rightarrow> False | Some e \<Rightarrow> e > time))"

text \<open>\<open>scalar_one_or_none()\<close> raises when two rows match; here they can come from two columns,
  each unique on its own.\<close>

definition scalar_one_or_none :: "'r list \<Rightarrow> exn + 'r option" where
  "scalar_one_or_none rows = (case rows of [] \<Rightarrow> Inr None | [r] \<Rightarrow> Inr (Some r) | _ \<Rightarrow> Inl MultipleResultsFound)"

definition bearer_key :: "string option \<Rightarrow> string option" where
  "bearer_key authorization =
     (case authorization of
        None \<Rightarrow> None
      | Some a \<Rightarrow>
          if \<not> starts_with a ''Bearer '' then None
          else let api_key = strip (drop (length ''Bearer '') a) in if api_key = [] then None else Some api_key)"

definition unauthorized :: "string \<Rightarrow> exn" where
  "unauthorized message = PayGuardError ''UNAUTHORIZED'' message"

definition get_current_merchant :: "(string \<Rightarrow> string) \<Rightarrow> string option \<Rightarrow> ('p, merchant) prog" where
  "get_current_merchant sha256hex authorization =
     (case bearer_key authorization of
        None \<Rightarrow> raise (unauthorized ''Missing or malformed Authorization header.'')
      | Some api_key \<Rightarrow>
          (let key_hash = hash_api_key sha256hex api_key in
           bnd (query (\<lambda>d. filter (key_matches key_hash (now d)) (merchants d))) (\<lambda>rows.
           bnd (lift_result (scalar_one_or_none rows)) (\<lambda>merchant.
           case merchant of
             None \<Rightarrow> raise (unauthorized ''Invalid API key.'')
           | Some m \<Rightarrow> if m_status m \<noteq> M_active then raise (unauthorized ''Invalid API key.'') else ret m))))"

section \<open>Credentials\<close>

text \<open>Every digest a merchant's row holds; no digest belongs to two merchants.\<close>

definition credentials_of :: "merchant \<Rightarrow> string set" where
  "credentials_of m = insert (m_api_key_hash m) (set_option (m_previous_api_key_hash m))"

definition credentials_wf :: "db \<Rightarrow> bool" where
  "credentials_wf d \<longleftrightarrow> fresh_ids m_id (merchants d) (next_uuid d) \<and>
     (\<forall>m \<in> set (merchants d). \<forall>m' \<in> set (merchants d). m_id m \<noteq> m_id m' \<longrightarrow> credentials_of m \<inter> credentials_of m' = {})"

lemma key_matches_credentials: "key_matches h t m \<Longrightarrow> h \<in> credentials_of m"
  by (auto simp: key_matches_def credentials_of_def)

lemma same_merchant:
  assumes "credentials_wf d" and "m \<in> set (merchants d)" and "m' \<in> set (merchants d)" and "m_id m = m_id m'"
  shows "m = m'"
proof -
  have "inj_on m_id (set (merchants d))"
    using assms(1) by (simp add: credentials_wf_def fresh_ids_def distinct_map)
  then show ?thesis using assms(4,2,3) by (rule inj_onD)
qed

lemma one_match:
  assumes "credentials_wf d" and "m \<in> set (merchants d)" and "key_matches h t m"
  shows "filter (key_matches h t) (merchants d) = [m]"
proof -
  have "m' = m" if "m' \<in> set (merchants d)" "key_matches h t m'" for m'
  proof (rule same_merchant [OF assms(1) that(1) assms(2)])
    show "m_id m' = m_id m"
      using assms that key_matches_credentials [OF assms(3)] key_matches_credentials [OF that(2)]
      unfolding credentials_wf_def by blast
  qed
  moreover have "distinct (merchants d)"
    using assms(1) by (simp add: credentials_wf_def fresh_ids_def distinct_map)
  ultimately show ?thesis using assms(2,3) by (intro filter_unique)
qed

lemma no_match: "(\<And>m. m \<in> set (merchants d) \<Longrightarrow> \<not> key_matches h t m) \<Longrightarrow> filter (key_matches h t) (merchants d) = []"
  by (simp add: filter_empty_conv)

lemma bearer_key_simp: "strip key = key \<Longrightarrow> key \<noteq> [] \<Longrightarrow> bearer_key (Some (''Bearer '' @ key)) = Some key"
  by (simp add: bearer_key_def starts_with_def)

lemma lookup_runs:
  assumes "bearer_key a = Some key" and "credentials_wf (working s)"
  shows "m \<in> set (merchants (working s)) \<Longrightarrow> key_matches (sha256hex key) (now (working s)) m \<Longrightarrow>
      get_current_merchant sha256hex a s =
        (if m_status m = M_active then Inr m else Inl (unauthorized ''Invalid API key.''), s)"
    and "\<forall>m \<in> set (merchants (working s)). \<not> key_matches (sha256hex key) (now (working s)) m \<Longrightarrow>
      get_current_merchant sha256hex a s = (Inl (unauthorized ''Invalid API key.''), s)"
  using assms
  by (simp_all add: get_current_merchant_def prog_defs one_match no_match scalar_one_or_none_def hash_api_key_def)

lemma distinct_rows: "distinct (map g rows) \<Longrightarrow> distinct rows"
  by (simp add: distinct_map)

text \<open>What \<open>scalar_one_or_none\<close> makes of a query on a table without repeated rows.\<close>

lemma scalar_one_or_none_filter:
  assumes "distinct rows"
  shows "scalar_one_or_none (filter p rows) = Inr (Some r) \<longleftrightarrow> r \<in> set rows \<and> p r \<and> (\<forall>r' \<in> set rows. p r' \<longrightarrow> r' = r)"
    and "scalar_one_or_none (filter p rows) = Inr None \<longleftrightarrow> (\<forall>r \<in> set rows. \<not> p r)"
    and "scalar_one_or_none (filter p rows) = Inl e \<longleftrightarrow>
      e = MultipleResultsFound \<and> (\<exists>r \<in> set rows. \<exists>r' \<in> set rows. r \<noteq> r' \<and> p r \<and> p r')"
proof -
  have one: "filter p rows = [r] \<longleftrightarrow> r \<in> set rows \<and> p r \<and> (\<forall>r' \<in> set rows. p r' \<longrightarrow> r' = r)" for r
  proof
    assume "filter p rows = [r]"
    then have "set (filter p rows) = {r}" by simp
    then show "r \<in> set rows \<and> p r \<and> (\<forall>r' \<in> set rows. p r' \<longrightarrow> r' = r)" by auto
  qed (use assms in \<open>auto intro: filter_unique\<close>)
  have many: "(\<exists>r r' rs. filter p rows = r # r' # rs) \<longleftrightarrow> (\<exists>r \<in> set rows. \<exists>r' \<in> set rows. r \<noteq> r' \<and> p r \<and> p r')"
  proof
    assume "\<exists>r r' rs. filter p rows = r # r' # rs"
    then obtain r r' rs where f: "filter p rows = r # r' # rs" by blast
    then have "set (filter p rows) = set (r # r' # rs)" and "r \<noteq> r'" using distinct_filter [OF assms, of p] by auto
    then show "\<exists>r \<in> set rows. \<exists>r' \<in> set rows. r \<noteq> r' \<and> p r \<and> p r'" by auto
  next
    assume "\<exists>r \<in> set rows. \<exists>r' \<in> set rows. r \<noteq> r' \<and> p r \<and> p r'"
    then obtain r r' where "r \<in> set (filter p rows)" "r' \<in> set (filter p rows)" "r \<noteq> r'" by auto
    then show "\<exists>r r' rs. filter p rows = r # r' # rs" by (cases "filter p rows" rule: remdups_adj.cases) auto
  qed
  show "scalar_one_or_none (filter p rows) = Inr (Some r) \<longleftrightarrow> r \<in> set rows \<and> p r \<and> (\<forall>r' \<in> set rows. p r' \<longrightarrow> r' = r)"
    unfolding one [symmetric] scalar_one_or_none_def by (auto split: list.splits)
  show "scalar_one_or_none (filter p rows) = Inr None \<longleftrightarrow> (\<forall>r \<in> set rows. \<not> p r)"
    unfolding filter_empty_conv [symmetric] scalar_one_or_none_def by (auto split: list.splits)
  show "scalar_one_or_none (filter p rows) = Inl e \<longleftrightarrow>
      e = MultipleResultsFound \<and> (\<exists>r \<in> set rows. \<exists>r' \<in> set rows. r \<noteq> r' \<and> p r \<and> p r')"
    unfolding many [symmetric] scalar_one_or_none_def by (auto split: list.splits)
qed

lemma authentication_runs:
  assumes "bearer_key a = Some key"
  shows "get_current_merchant sha256hex a s =
    (case scalar_one_or_none (filter (key_matches (sha256hex key) (now (working s))) (merchants (working s))) of
       Inl e \<Rightarrow> (Inl e, s)
     | Inr None \<Rightarrow> (Inl (unauthorized ''Invalid API key.''), s)
     | Inr (Some m) \<Rightarrow> (if m_status m = M_active then Inr m else Inl (unauthorized ''Invalid API key.''), s))"
  by (simp add: get_current_merchant_def assms prog_defs hash_api_key_def split: sum.split option.split)

text \<open>C28. A request is let in as merchant \<open>m\<close> exactly when its header carries, after "Bearer" and a
  space, a key whose digest is the merchant's current one, or the previous one before its
  expiry, the merchant is active, and no other row answers to that key. When two rows do, which
  the unique constraints of the two columns allow, the lookup raises MultipleResultsFound; every
  other header is refused as UNAUTHORIZED. Looking it up changes nothing. Nothing is assumed of
  the table but its primary key.\<close>

theorem authentication_accepts_iff:
  assumes "distinct (map m_id (merchants (working s)))"
    and "\<And>h m. accepts h m \<longleftrightarrow> m \<in> set (merchants (working s)) \<and> (m_api_key_hash m = h \<or>
      m_previous_api_key_hash m = Some h \<and> (\<exists>u. m_previous_api_key_expires_at m = Some u \<and> now (working s) < u))"
  shows "(fst (get_current_merchant sha256hex a s) = Inr m \<longleftrightarrow>
      (\<exists>key. bearer_key a = Some key \<and> accepts (sha256hex key) m \<and> m_status m = M_active \<and>
        (\<forall>m'. accepts (sha256hex key) m' \<longrightarrow> m' = m))) \<and>
    (fst (get_current_merchant sha256hex a s) = Inl MultipleResultsFound \<longleftrightarrow>
      (\<exists>key m1 m2. bearer_key a = Some key \<and> accepts (sha256hex key) m1 \<and> accepts (sha256hex key) m2 \<and> m1 \<noteq> m2)) \<and>
    (\<forall>e. fst (get_current_merchant sha256hex a s) = Inl e \<longrightarrow> e = MultipleResultsFound \<or> (\<exists>msg. e = unauthorized msg)) \<and>
    snd (get_current_merchant sha256hex a s) = s"
proof (cases "bearer_key a")
  case None
  then show ?thesis by (auto simp: get_current_merchant_def raise_def unauthorized_def)
next
  case (Some key)
  have acc: "accepts (sha256hex key) m \<longleftrightarrow> m \<in> set (merchants (working s)) \<and> key_matches (sha256hex key) (now (working s)) m" for m
    by (auto simp: assms(2) key_matches_def split: option.splits)
  note q = scalar_one_or_none_filter [OF distinct_rows [OF assms(1)], of "key_matches (sha256hex key) (now (working s))"]
  show ?thesis
  proof (cases "scalar_one_or_none (filter (key_matches (sha256hex key) (now (working s))) (merchants (working s)))")
    case (Inl e)
    with q(3) [of e] Some show ?thesis by (auto simp: authentication_runs [OF Some] acc)
  next
    case (Inr res)
    with q(2) q(1) [of "the res"] Some show ?thesis
      by (cases res) (auto simp: authentication_runs [OF Some] acc unauthorized_def)
  qed
qed

section \<open>Keys over time\<close>

text \<open>What a request with the key gets at time \<open>t\<close>.\<close>

definition admitted :: "(string \<Rightarrow> string) \<Rightarrow> string \<Rightarrow> instant \<Rightarrow> db \<Rightarrow> exn + merchant" where
  "admitted sha256hex key t d = fst (get_current_merchant sha256hex (Some (''Bearer '' @ key)) (open_session (set_clock t d) ()))"

definition presentable :: "string \<Rightarrow> bool" where
  "presentable key \<longleftrightarrow> key \<noteq> [] \<and> strip key = key"

lemma credentials_wf_clock [simp]: "credentials_wf (set_clock t d) = credentials_wf d"
  by (simp add: credentials_wf_def set_clock_def)

lemma admitted_iff:
  assumes "credentials_wf d" and "presentable key"
  shows "m \<in> set (merchants d) \<Longrightarrow> key_matches (sha256hex key) t m \<Longrightarrow>
      admitted sha256hex key t d = (if m_status m = M_active then Inr m else Inl (unauthorized ''Invalid API key.''))"
    and "(\<And>m. m \<in> set (merchants d) \<Longrightarrow> \<not> key_matches (sha256hex key) t m) \<Longrightarrow>
      admitted sha256hex key t d = Inl (unauthorized ''Invalid API key.'')"
proof -
  let ?s = "open_session (set_clock t d) ()"
  have b: "bearer_key (Some (''Bearer '' @ key)) = Some key"
    using assms(2) by (intro bearer_key_simp) (simp_all add: presentable_def)
  have wf: "credentials_wf (working ?s)" using assms(1) by (simp add: open_session_def)
  show "m \<in> set (merchants d) \<Longrightarrow> key_matches (sha256hex key) t m \<Longrightarrow>
      admitted sha256hex key t d = (if m_status m = M_active then Inr m else Inl (unauthorized ''Invalid API key.''))"
    using lookup_runs(1) [OF b wf, of m sha256hex] by (simp add: admitted_def open_session_def set_clock_def)
  show "(\<And>m. m \<in> set (merchants d) \<Longrightarrow> \<not> key_matches (sha256hex key) t m) \<Longrightarrow>
      admitted sha256hex key t d = Inl (unauthorized ''Invalid API key.'')"
    using lookup_runs(2) [OF b wf, of sha256hex] by (simp add: admitted_def open_session_def set_clock_def)
qed

lemma rows_after_update:
  "n \<in> set (update_where (\<lambda>r. m_id r = m_id m) (\<lambda>_. m') ms) \<Longrightarrow> n = m' \<or> n \<in> set ms \<and> m_id n \<noteq> m_id m"
  unfolding set_update_where by (elim imageE) (simp split: if_splits)

lemma rotated_wf:
  assumes "credentials_wf d" and "m \<in> set (merchants d)" and "m_id m' = m_id m"
    and "credentials_of m' \<subseteq> insert h (credentials_of m)"
    and "h \<notin> \<Union> (credentials_of ` set (merchants d))"
  shows "credentials_wf (d\<lparr>merchants := update_where (\<lambda>r. m_id r = m_id m) (\<lambda>_. m') (merchants d)\<rparr>)"
proof -
  let ?ms = "update_where (\<lambda>r. m_id r = m_id m) (\<lambda>_. m') (merchants d)"
  have "map m_id ?ms = map m_id (merchants d)" by (rule map_update_where) (simp add: assms(3))
  then have ids: "fresh_ids m_id ?ms (next_uuid d)"
    using assms(1) unfolding credentials_wf_def fresh_ids_map by simp
  have other: "credentials_of m' \<inter> credentials_of n = {}" if "n \<in> set (merchants d)" "m_id n \<noteq> m_id m" for n
  proof -
    have "credentials_of m \<inter> credentials_of n = {}"
      using assms(1,2) that by (auto simp: credentials_wf_def)
    then show ?thesis using assms(4,5) that(1) by blast
  qed
  have "credentials_of n \<inter> credentials_of n' = {}" if "n \<in> set ?ms" "n' \<in> set ?ms" "m_id n \<noteq> m_id n'" for n n'
    using rows_after_update [OF that(1)] rows_after_update [OF that(2)]
  proof (elim disjE conjE)
    assume "n \<in> set (merchants d)" "n' \<in> set (merchants d)"
    then show ?thesis using assms(1) that(3) by (simp add: credentials_wf_def)
  qed (use that(3) assms(3) other in \<open>auto simp: Int_commute\<close>)
  with ids show ?thesis by (simp add: credentials_wf_def)
qed

lemma rotated_credentials:
  "credentials_of (snd (rotate_api_key sha256hex token overlap t m)) \<subseteq>
     insert (sha256hex (generate_api_key token)) (credentials_of m)"
  "m_id (snd (rotate_api_key sha256hex token overlap t m)) = m_id m"
  by (auto simp: rotate_api_key_def credentials_of_def hash_api_key_def Let_def)

text \<open>A rotation with a token whose digest is new always succeeds and replaces the row.\<close>

lemma rotation_runs:
  assumes "credentials_wf d" and "m \<in> set (merchants d)"
    and "sha256hex (generate_api_key token) \<notin> \<Union> (credentials_of ` set (merchants d))"
    and "d' = d\<lparr>merchants := update_where (\<lambda>r. m_id r = m_id m)
          (\<lambda>_. snd (rotate_api_key sha256hex token DEFAULT_OVERLAP (now d) m)) (merchants d)\<rparr>"
  shows "rotate_merchant_key sha256hex token (m_id m) (open_session d p) =
    (Inr (generate_api_key token), (open_session d p)\<lparr>working := d', committed := d'\<rparr>)"
proof -
  let ?m' = "snd (rotate_api_key sha256hex token DEFAULT_OVERLAP (now d) m)"
  have "select_one (\<lambda>r. m_id r = m_id m) (merchants d) = Some m"
  proof (cases "select_one (\<lambda>r. m_id r = m_id m) (merchants d)")
    case (Some r)
    then show ?thesis using select_one_Some [OF Some] same_merchant [OF assms(1) _ assms(2)] by simp
  qed (use assms(2) in \<open>auto simp: select_one_None\<close>)
  moreover have "merchant_clash ?m' (filter (\<lambda>r. m_id r \<noteq> m_id m) (merchants d)) = None"
  proof -
    have "m_api_key_hash n \<noteq> sha256hex (generate_api_key token) \<and> m_previous_api_key_hash n \<noteq> Some (m_api_key_hash m)"
      if "n \<in> set (merchants d)" "m_id n \<noteq> m_id m" for n
    proof -
      have "credentials_of n \<inter> credentials_of m = {}" using assms(1,2) that by (simp add: credentials_wf_def)
      moreover have "sha256hex (generate_api_key token) \<notin> credentials_of n" using assms(3) that(1) by blast
      ultimately show ?thesis by (auto simp: credentials_of_def)
    qed
    then show ?thesis by (auto simp: merchant_clash_def rotate_api_key_def hash_api_key_def Let_def)
  qed
  ultimately show ?thesis
    by (simp add: rotate_merchant_key_def prog_defs open_session_def update_merchant_def rotated_credentials(2)
        case_prod_beta assms(4)) (simp add: rotate_api_key_def Let_def)
qed

text \<open>C29. Rotating the key of an active merchant, for the first time or again, succeeds and takes
  effect at once: the new key is accepted from then on; the key it replaces is accepted until the
  overlap of 24 hours is over and refused afterwards; a key replaced by an earlier rotation is
  refused from now on. It is assumed that no two merchants share a digest and that the digest of
  the new key is a new one.\<close>

theorem rotation_overlap:
  assumes "credentials_wf d" and "m \<in> set (merchants d)" and "m_status m = M_active"
    and "sha256hex (generate_api_key token) \<notin> \<Union> (credentials_of ` set (merchants d))"
    and "presentable (generate_api_key token)"
    and "presentable old" and "sha256hex old = m_api_key_hash m"
    and "rotate_merchant_key sha256hex token (m_id m) (open_session d p) = (r, s')"
  shows "r = Inr (generate_api_key token) \<and>
    admitted sha256hex (generate_api_key token) t (committed s') = Inr (snd (rotate_api_key sha256hex token DEFAULT_OVERLAP (now d) m)) \<and>
    admitted sha256hex old t (committed s') =
      (if t < now d + DEFAULT_OVERLAP then Inr (snd (rotate_api_key sha256hex token DEFAULT_OVERLAP (now d) m))
       else Inl (unauthorized ''Invalid API key.'')) \<and>
    (\<forall>gone. presentable gone \<longrightarrow> m_previous_api_key_hash m = Some (sha256hex gone) \<longrightarrow> sha256hex gone \<noteq> m_api_key_hash m \<longrightarrow>
      admitted sha256hex gone t (committed s') = Inl (unauthorized ''Invalid API key.''))"
proof -
  define m' where "m' = snd (rotate_api_key sha256hex token DEFAULT_OVERLAP (now d) m)"
  define d' where "d' = d\<lparr>merchants := update_where (\<lambda>r. m_id r = m_id m) (\<lambda>_. m') (merchants d)\<rparr>"
  have run: "r = Inr (generate_api_key token)" "committed s' = d'"
    using rotation_runs [OF assms(1,2,4) d'_def [unfolded m'_def], of p] assms(8) by auto
  have wf: "credentials_wf d'"
    unfolding d'_def m'_def
    by (rule rotated_wf [OF assms(1,2) _ _ assms(4)]) (rule rotated_credentials)+
  have m': "m' \<in> set (merchants d')" using assms(2) by (auto simp: d'_def set_update_where)
  have active: "m_status m' = M_active" using assms(3) by (simp add: m'_def rotate_api_key_def Let_def)
  have only: "\<not> key_matches h t n"
    if "h \<in> credentials_of m" "\<not> key_matches h t m'" "n \<in> set (merchants d')" for h n
  proof -
    from that(3) have "n = m' \<or> n \<in> set (merchants d) \<and> m_id n \<noteq> m_id m"
      unfolding d'_def by (simp add: rows_after_update)
    then show ?thesis
      using assms(1,2) that(1,2) key_matches_credentials [of h t n] by (auto simp: credentials_wf_def)
  qed
  have "key_matches (sha256hex (generate_api_key token)) t m'"
    by (simp add: m'_def key_matches_def rotate_api_key_def hash_api_key_def Let_def)
  from admitted_iff(1) [where sha256hex = sha256hex, OF wf assms(5) m' this] active
  have new: "admitted sha256hex (generate_api_key token) t d' = Inr m'" by simp
  have old_cred: "sha256hex old \<in> credentials_of m"
    using assms(7) by (simp add: credentials_of_def)
  have fresh: "sha256hex (generate_api_key token) \<notin> credentials_of m" using assms(2,4) by blast
  have m'_fields: "m_api_key_hash m' = sha256hex (generate_api_key token)"
    "m_previous_api_key_hash m' = Some (m_api_key_hash m)" "m_previous_api_key_expires_at m' = Some (now d + DEFAULT_OVERLAP)"
    by (simp_all add: m'_def rotate_api_key_def hash_api_key_def Let_def)
  have other: "sha256hex (generate_api_key token) \<noteq> h" if "h \<in> credentials_of m" for h
    using fresh that by metis
  have match_old: "key_matches (sha256hex old) t m' \<longleftrightarrow> t < now d + DEFAULT_OVERLAP"
    using other [OF old_cred] assms(7) by (simp add: key_matches_def m'_fields)
  have gone: "admitted sha256hex gone t d' = Inl (unauthorized ''Invalid API key.'')"
    if "presentable gone" and "m_previous_api_key_hash m = Some (sha256hex gone)" and "sha256hex gone \<noteq> m_api_key_hash m" for gone
  proof -
    have cred: "sha256hex gone \<in> credentials_of m" using that(2) by (simp add: credentials_of_def)
    have "\<not> key_matches (sha256hex gone) t m'" using other [OF cred] that(3) by (simp add: key_matches_def m'_fields)
    from admitted_iff(2) [where sha256hex = sha256hex, OF wf that(1) only [OF cred this]] show ?thesis .
  qed
  have old: "admitted sha256hex old t d' =
      (if t < now d + DEFAULT_OVERLAP then Inr m' else Inl (unauthorized ''Invalid API key.''))"
    using admitted_iff(1) [OF wf assms(6) m', where sha256hex = sha256hex and t = t]
      admitted_iff(2) [where sha256hex = sha256hex and t = t, OF wf assms(6) only [OF old_cred]] match_old active by simp
  show ?thesis using run new gone old by (auto simp: m'_def)
qed

text \<open>A new merchant's credentials are its own, and its key is accepted at once.\<close>

lemma seeding:
  assumes "credentials_wf d" and "sha256hex (generate_api_key token) \<notin> \<Union> (credentials_of ` set (merchants d))"
    and "seed_merchant sha256hex token name (open_session d p) = (r, s')"
  shows "r = Inr (generate_api_key token) \<and> credentials_wf (committed s') \<and>
    (presentable (generate_api_key token) \<longrightarrow>
      (\<exists>m. admitted sha256hex (generate_api_key token) t (committed s') = Inr m \<and> m_name m = name))"
proof -
  let ?h = "sha256hex (generate_api_key token)"
  define m where "m = \<lparr>m_id = next_uuid d, m_name = name, m_api_key_hash = ?h, m_previous_api_key_hash = None,
    m_previous_api_key_expires_at = None, m_status = M_active, m_created_at = now d\<rparr>"
  have "merchant_clash m (merchants d) = None"
    using assms(2) by (auto simp: merchant_clash_def m_def credentials_of_def)
  with assms(3) have run: "r = Inr (generate_api_key token)"
      "committed s' = d\<lparr>next_uuid := Suc (next_uuid d), merchants := merchants d @ [m]\<rparr>"
    by (auto simp: seed_merchant_def insert_merchant_def prog_defs open_session_def hash_api_key_def Let_def m_def)
  have cred: "credentials_of m = {?h}" by (simp add: m_def credentials_of_def)
  have wf: "credentials_wf (committed s')"
    unfolding run(2) credentials_wf_def
  proof (simp, intro conjI ballI impI)
    show "fresh_ids m_id (merchants d @ [m]) (Suc (next_uuid d))"
      using assms(1) by (intro fresh_ids_insert) (simp_all add: credentials_wf_def m_def)
  qed (use assms(1,2) cred in \<open>auto simp: credentials_wf_def\<close>)
  have mem: "m \<in> set (merchants (committed s'))" and active: "m_status m = M_active" and nm: "m_name m = name"
    and match: "key_matches ?h t m"
    by (simp_all add: run(2)) (simp_all add: m_def key_matches_def)
  then show ?thesis using admitted_iff(1) [where sha256hex = sha256hex and key = "generate_api_key token", OF wf _ mem match] run(1) wf by auto
qed

definition demo_merchant :: merchant where
  "demo_merchant = \<lparr>m_id = 7, m_name = ''Demo'', m_api_key_hash = ''sk_test_b'', m_previous_api_key_hash = Some ''sk_test_a'',
     m_previous_api_key_expires_at = Some 500, m_status = M_active, m_created_at = 0\<rparr>"

definition demo_merchants :: db where
  "demo_merchants = (empty_db 1000)\<lparr>next_uuid := 8, merchants := [demo_merchant]\<rparr>"

lemma demo_merchants_wf: "credentials_wf demo_merchants" "merchants demo_merchants = [demo_merchant]" "now demo_merchants = 1000"
  by (simp_all add: credentials_wf_def demo_merchants_def empty_db_def fresh_ids_def) (simp add: demo_merchant_def)

lemma demo_keys: "presentable ''sk_test_a''" "presentable ''sk_test_b''" "presentable ''sk_test_c''"
  by (simp_all add: presentable_def strip_def is_space_def)

definition demo_twin :: merchant where
  "demo_twin = demo_merchant\<lparr>m_id := 6, m_api_key_hash := ''sk_test_c'', m_previous_api_key_hash := Some ''sk_test_b'',
     m_previous_api_key_expires_at := Some 2000\<rparr>"

theorem authentication_accepts_iff_witness:
  "fst (get_current_merchant (\<lambda>k. k) (Some ''Bearer sk_test_b'') (open_session demo_merchants ())) = Inr demo_merchant \<and>
   fst (get_current_merchant (\<lambda>k. k) (Some ''Bearer sk_test_b'')
     (open_session (demo_merchants\<lparr>merchants := [demo_twin, demo_merchant]\<rparr>) ())) = Inl MultipleResultsFound"
proof -
  let ?accepts = "\<lambda>ms h m. m \<in> set ms \<and> (m_api_key_hash m = h \<or>
      m_previous_api_key_hash m = Some h \<and> (\<exists>u. m_previous_api_key_expires_at m = Some u \<and> 1000 < u))"
  have b: "bearer_key (Some ''Bearer sk_test_b'') = Some ''sk_test_b''"
    using bearer_key_simp [of "''sk_test_b''"] demo_keys(2) by (simp add: presentable_def)
  have w: "working (open_session d ()) = d" for d by (simp add: open_session_def)
  have now: "now demo_merchants = 1000" by (simp add: demo_merchants_wf)
  have ids: "m_id demo_twin \<noteq> m_id demo_merchant" "demo_twin \<noteq> demo_merchant" by (simp_all add: demo_twin_def demo_merchant_def)
  have "fst (get_current_merchant (\<lambda>k. k) (Some ''Bearer sk_test_b'') (open_session demo_merchants ())) = Inr demo_merchant"
    using authentication_accepts_iff [of "open_session demo_merchants ()" "?accepts [demo_merchant]" "\<lambda>k. k" "Some ''Bearer sk_test_b''" demo_merchant]
    by (simp add: w now b demo_merchants_wf) (simp add: demo_merchant_def)
  moreover have "?accepts [demo_twin, demo_merchant] ''sk_test_b'' demo_twin" "?accepts [demo_twin, demo_merchant] ''sk_test_b'' demo_merchant"
    by (simp_all add: demo_twin_def demo_merchant_def)
  then have "fst (get_current_merchant (\<lambda>k. k) (Some ''Bearer sk_test_b'')
     (open_session (demo_merchants\<lparr>merchants := [demo_twin, demo_merchant]\<rparr>) ())) = Inl MultipleResultsFound"
    using authentication_accepts_iff [of "open_session (demo_merchants\<lparr>merchants := [demo_twin, demo_merchant]\<rparr>) ()"
        "?accepts [demo_twin, demo_merchant]" "\<lambda>k. k" "Some ''Bearer sk_test_b''" demo_merchant] ids
    by (simp add: w now b) blast
  ultimately show ?thesis by blast
qed

theorem rotation_overlap_witness:
  "admitted (\<lambda>k. k) ''sk_test_a'' 1001 (committed (snd (rotate_merchant_key (\<lambda>k. k) ''c'' 7 (open_session demo_merchants ())))) =
     Inl (unauthorized ''Invalid API key.'') \<and>
   admitted (\<lambda>k. k) ''sk_test_b'' 86400000999 (committed (snd (rotate_merchant_key (\<lambda>k. k) ''c'' 7 (open_session demo_merchants ())))) \<in> range Inr \<and>
   admitted (\<lambda>k. k) ''sk_test_b'' 86400001000 (committed (snd (rotate_merchant_key (\<lambda>k. k) ''c'' 7 (open_session demo_merchants ())))) =
     Inl (unauthorized ''Invalid API key.'')"
proof -
  have "merchants demo_merchants = [demo_merchant]" by (rule demo_merchants_wf)
  then have h: "demo_merchant \<in> set (merchants demo_merchants)"
      "generate_api_key ''c'' \<notin> \<Union> (credentials_of ` set (merchants demo_merchants))"
    by (simp_all add: generate_api_key_def API_KEY_PREFIX_def credentials_of_def) (simp add: demo_merchant_def)
  have p: "presentable (generate_api_key ''c'')" by (simp add: generate_api_key_def API_KEY_PREFIX_def demo_keys)
  have f: "m_status demo_merchant = M_active" "''sk_test_b'' = m_api_key_hash demo_merchant"
    "m_previous_api_key_hash demo_merchant = Some ''sk_test_a''" "''sk_test_a'' \<noteq> m_api_key_hash demo_merchant" "m_id demo_merchant = 7"
    by (simp_all add: demo_merchant_def)
  note rotation_overlap [where sha256hex = "\<lambda>k. k" and p = "()", OF demo_merchants_wf(1) h(1) f(1) h(2) p demo_keys(2) f(2)
      prod.collapse [symmetric], unfolded f(5)]
  from this [of 86400000999] this [of 86400001000] this [of 1001] show ?thesis
    using demo_keys(1) f(3,4) by (simp add: demo_merchants_wf DEFAULT_OVERLAP_def seconds_def)
qed

end
