(* ===== verification/RateLimit.thy ===== *)
theory RateLimit
  imports Outbox
begin

text \<open>
  The rate limiter (\<open>packages/ratelimit/service.py\<close>): a token bucket per merchant, kept in Redis
  and updated by one Lua script. Numbers are rationals; the one place where the script itself
  loses precision, Lua's \<open>tostring\<close> (C's format \<open>%.14g\<close>), is modelled exactly. The script sees two
  clocks, the caller's (\<open>time.time()\<close>, an argument) and the server's, which expires keys.
\<close>

section \<open>Configuration\<close>

text \<open>\<open>environ\<close> is the process environment, \<open>python_float\<close> the number a text denotes for Python's
  \<open>float\<close>, None being the ValueError.\<close>

definition default_capacity :: "(string \<Rightarrow> string option) \<Rightarrow> exn + int" where
  "default_capacity environ =
     (case python_int (case environ ''RATE_LIMIT_CAPACITY'' of None \<Rightarrow> ''20'' | Some v \<Rightarrow> v) of
        None \<Rightarrow> Inl ValueError | Some n \<Rightarrow> Inr n)"

definition default_refill_per_second :: "(string \<Rightarrow> rat option) \<Rightarrow> (string \<Rightarrow> string option) \<Rightarrow> exn + rat" where
  "default_refill_per_second python_float environ =
     (case python_float (case environ ''RATE_LIMIT_REFILL_PER_SECOND'' of None \<Rightarrow> ''5'' | Some v \<Rightarrow> v) of
        None \<Rightarrow> Inl ValueError | Some x \<Rightarrow> Inr x)"

section \<open>Lua numbers as texts\<close>

text \<open>What \<open>tonumber\<close> reads back from \<open>tostring(x)\<close>: \<open>x\<close> to 14 significant decimal digits.
  \<open>decimal_scale\<close> is the power of ten that shifts the fourteenth digit before the point.\<close>

definition decimal_scale :: "rat \<Rightarrow> rat" where
  "decimal_scale x =
     (if 1 \<le> x then
        (let k = length (nat_str (nat \<lfloor>x\<rfloor>)) in if k \<le> 14 then 10 ^ (14 - k) else 1 / 10 ^ (k - 14))
      else 10 ^ (13 + length (nat_str (nat (\<lceil>1 / x\<rceil> - 1)))))"

definition lua_tostring :: "rat \<Rightarrow> rat" where
  "lua_tostring x =
     (if x = 0 then 0
      else let s = decimal_scale \<bar>x\<bar> in sgn x * (of_int (round_half_even (\<bar>x\<bar> * s)) / s))"

section \<open>The script\<close>

record bucket =
  tokens :: rat
  last_refill :: rat
  expires_at :: "rat option"

type_synonym redis = "string \<Rightarrow> bucket option"

text \<open>A key whose time to live has passed is gone for every command.\<close>

definition redis_live :: "rat \<Rightarrow> redis \<Rightarrow> string \<Rightarrow> bucket option" where
  "redis_live server store key =
     (case store key of
        None \<Rightarrow> None
      | Some b \<Rightarrow> (case expires_at b of
                    None \<Rightarrow> Some b
                  | Some e \<Rightarrow> if e < server then None else Some b))"

text \<open>HSET keeps the time to live a live key has.\<close>

definition redis_hset :: "rat \<Rightarrow> string \<Rightarrow> rat \<Rightarrow> rat \<Rightarrow> redis \<Rightarrow> redis" where
  "redis_hset server key tk refill_time store =
     store(key \<mapsto> \<lparr>tokens = tk, last_refill = refill_time,
       expires_at = (case redis_live server store key of None \<Rightarrow> None | Some b \<Rightarrow> expires_at b)\<rparr>)"

text \<open>EXPIRE with a time to live that is not positive deletes the key.\<close>

definition redis_expire :: "rat \<Rightarrow> string \<Rightarrow> int \<Rightarrow> redis \<Rightarrow> redis" where
  "redis_expire server key ttl store =
     (if ttl \<le> 0 then store(key := None)
      else store(key := map_option (\<lambda>b. b\<lparr>expires_at := Some (server + of_int ttl)\<rparr>) (store key)))"

text \<open>The tokens before the request is served, from what HMGET returned.\<close>

definition refilled :: "rat \<Rightarrow> rat \<Rightarrow> rat \<Rightarrow> bucket option \<Rightarrow> rat" where
  "refilled capacity refill_per_second time bucket =
     (let tk = (case bucket of None \<Rightarrow> capacity | Some b \<Rightarrow> tokens b);
          since = (case bucket of None \<Rightarrow> time | Some b \<Rightarrow> last_refill b);
          elapsed = max 0 (time - since)
      in min capacity (tk + elapsed * refill_per_second))"

text \<open>With a refill rate of zero the time to live is infinite, which EXPIRE refuses; the HSET before
  it stays, a script is not undone.\<close>

definition token_bucket_script ::
    "(rat \<Rightarrow> rat) \<Rightarrow> rat \<Rightarrow> rat \<Rightarrow> rat \<Rightarrow> rat \<Rightarrow> string \<Rightarrow> redis \<Rightarrow> (exn + bool) \<times> redis" where
  "token_bucket_script tostring capacity refill_per_second time server key store =
     (let tk = refilled capacity refill_per_second time (redis_live server store key);
          allowed = (tk \<ge> 1);
          tk' = (if allowed then tk - 1 else tk);
          store' = redis_hset server key (tostring tk') (tostring time) store
      in if refill_per_second = 0 then (Inl (ResponseError ''value is not an integer or out of range''), store')
         else (Inr allowed, redis_expire server key (\<lceil>capacity / refill_per_second\<rceil> + 60) store'))"

definition bucket_key :: "uuid \<Rightarrow> string" where
  "bucket_key merchant_id = ''ratelimit:'' @ uuid_str merchant_id"

definition check_rate_limit ::
    "(string \<Rightarrow> rat option) \<Rightarrow> (string \<Rightarrow> string option) \<Rightarrow> rat \<Rightarrow> rat \<Rightarrow> uuid \<Rightarrow> int option \<Rightarrow> rat option \<Rightarrow> redis \<Rightarrow> (exn + bool) \<times> redis" where
  "check_rate_limit python_float environ time server merchant_id capacity refill_per_second store =
     (case (case capacity of Some c \<Rightarrow> Inr c | None \<Rightarrow> default_capacity environ) of
        Inl e \<Rightarrow> (Inl e, store)
      | Inr c \<Rightarrow>
          (case (case refill_per_second of Some r \<Rightarrow> Inr r | None \<Rightarrow> default_refill_per_second python_float environ) of
             Inl e \<Rightarrow> (Inl e, store)
           | Inr r \<Rightarrow> token_bucket_script lua_tostring (of_int c) r time server (bucket_key merchant_id) store))"

text \<open>Requests at the given times through a check: how many are granted, and the store they leave.\<close>

fun serve_requests :: "(rat \<Rightarrow> redis \<Rightarrow> (exn + bool) \<times> redis) \<Rightarrow> rat list \<Rightarrow> redis \<Rightarrow> nat \<times> redis" where
  "serve_requests check [] store = (0, store)"
| "serve_requests check (t # ts) store =
     (case check t store of
        (res, store') \<Rightarrow>
          (case serve_requests check ts store' of
             (n, store'') \<Rightarrow> ((if res = Inr True then 1 else 0) + n, store'')))"

section \<open>Precision\<close>

lemma length_nat_str: "n < 10 ^ Suc k \<Longrightarrow> length (nat_str n) \<le> Suc k"
proof (induction n arbitrary: k rule: nat_str.induct)
  case (1 n)
  show ?case
  proof (cases "n < 10")
    case False
    with 1 obtain k' where k: "k = Suc k'" by (cases k) auto
    have "n div 10 < 10 ^ Suc k'" using 1(2) k by simp
    from 1(1) [OF False this] show ?thesis using False k by (simp add: nat_str.simps [of n])
  qed (simp add: nat_str.simps [of n])
qed

lemma round_half_even_close: "\<bar>of_int (round_half_even x) - x\<bar> \<le> 1 / 2"
  by (auto simp: round_half_even_def Let_def abs_if) linarith+

lemma decimal_scale_large:
  assumes "0 < x" and "x < 10 ^ 10"
  shows "10 ^ 4 \<le> decimal_scale x"
proof (cases "1 \<le> x")
  case True
  have "nat \<lfloor>x\<rfloor> < 10 ^ Suc 9" using assms by (simp add: nat_less_iff floor_less_iff)
  then have "length (nat_str (nat \<lfloor>x\<rfloor>)) \<le> 10" using length_nat_str [of "nat \<lfloor>x\<rfloor>" 9] by simp
  then have "(10::rat) ^ 4 \<le> 10 ^ (14 - length (nat_str (nat \<lfloor>x\<rfloor>)))" by (intro power_increasing) simp_all
  with True \<open>length (nat_str (nat \<lfloor>x\<rfloor>)) \<le> 10\<close> show ?thesis by (simp add: decimal_scale_def Let_def)
next
  case False
  have "(10::rat) ^ 4 \<le> 10 ^ (13 + length (nat_str (nat (\<lceil>1 / x\<rceil> - 1))))" by (intro power_increasing) simp_all
  with False show ?thesis by (simp add: decimal_scale_def)
qed

lemma lua_tostring_precise:
  assumes "0 \<le> x" and "x < 10 ^ 10"
  shows "\<bar>lua_tostring x - x\<bar> \<le> 1 / 20000" "0 \<le> lua_tostring x"
proof -
  show "\<bar>lua_tostring x - x\<bar> \<le> 1 / 20000"
  proof (cases "x = 0")
    case False
    let ?s = "decimal_scale x"
    have s: "10 ^ 4 \<le> ?s" using assms False by (intro decimal_scale_large) simp_all
    then have p: "0 < ?s" by (rule less_le_trans [rotated]) simp
    have "lua_tostring x - x = (of_int (round_half_even (x * ?s)) - x * ?s) / ?s"
      using False assms(1) p by (simp add: lua_tostring_def Let_def field_simps)
    then have "\<bar>lua_tostring x - x\<bar> = \<bar>of_int (round_half_even (x * ?s)) - x * ?s\<bar> / ?s" using p by simp
    also have "\<dots> \<le> (1 / 2) / ?s" using p by (intro divide_right_mono round_half_even_close) simp
    also have "\<dots> \<le> (1 / 2) / 10 ^ 4" using s by (intro divide_left_mono) simp_all
    finally show ?thesis by simp
  qed (simp add: lua_tostring_def)
  show "0 \<le> lua_tostring x"
  proof (cases "x = 0")
    case False
    have "10 ^ 4 \<le> decimal_scale x" using assms False by (intro decimal_scale_large) simp_all
    then have p: "0 < decimal_scale x" by (rule less_le_trans [rotated]) simp
    have "0 \<le> \<lfloor>x * decimal_scale x\<rfloor>" using assms(1) p by simp
    then have "0 \<le> round_half_even (x * decimal_scale x)" using round_half_even_bounds(1) by (rule order_trans)
    then show ?thesis using False assms(1) p by (simp add: lua_tostring_def Let_def)
  qed (simp add: lua_tostring_def)
qed

section \<open>The bucket over time\<close>

text \<open>A stored bucket: tokens are not negative, and it does not expire before it is full again.\<close>

definition bucket_ok :: "rat \<Rightarrow> rat \<Rightarrow> rat \<Rightarrow> bucket option \<Rightarrow> bool" where
  "bucket_ok c r \<epsilon> bucket \<longleftrightarrow>
     (case bucket of
        None \<Rightarrow> True
      | Some b \<Rightarrow> 0 \<le> tokens b \<and>
          (case expires_at b of None \<Rightarrow> True | Some e \<Rightarrow> last_refill b + c / r + 60 - \<epsilon> \<le> e))"

lemma refilled_bounds:
  "0 \<le> c \<Longrightarrow> 0 \<le> r \<Longrightarrow> bucket_ok c r \<epsilon> b \<Longrightarrow> 0 \<le> refilled c r t b" "refilled c r t b \<le> c"
  by (auto simp: refilled_def bucket_ok_def Let_def split: option.splits)

lemma refilled_later:
  assumes "0 \<le> r" and "t \<le> t'"
  shows "refilled c r t' b \<le> refilled c r t b + (t' - t) * r"
proof (cases b)
  case None
  then show ?thesis using assms by (simp add: refilled_def)
next
  case (Some x)
  have "max 0 (t' - last_refill x) \<le> max 0 (t - last_refill x) + (t' - t)" using assms(2) by (simp add: max_def)
  from mult_right_mono [OF this assms(1)]
  have "max 0 (t' - last_refill x) * r \<le> max 0 (t - last_refill x) * r + (t' - t) * r" by (simp add: distrib_right)
  moreover have "0 \<le> (t' - t) * r" using assms by simp
  ultimately show ?thesis using Some by (simp add: refilled_def Let_def min_def)
qed

text \<open>Expiry is invisible: a bucket that has expired would be full by now.\<close>

lemma expiry_is_invisible:
  assumes "0 < r" and "\<epsilon> \<le> 60" and "bucket_ok c r \<epsilon> (store key)"
  shows "refilled c r t (redis_live t store key) = refilled c r t (store key)"
proof (cases "redis_live t store key = store key")
  case False
  then obtain b e where b: "store key = Some b" "expires_at b = Some e" "e < t"
    by (auto simp: redis_live_def split: option.splits if_splits)
  with assms(2,3) have "0 \<le> tokens b" "c / r \<le> t - last_refill b" by (simp_all add: bucket_ok_def)
  then have "c / r \<le> max 0 (t - last_refill b)" by simp
  then have "c \<le> max 0 (t - last_refill b) * r" using assms(1) by (simp add: pos_divide_le_eq)
  with \<open>0 \<le> tokens b\<close> have "c \<le> tokens b + max 0 (t - last_refill b) * r" by linarith
  then show ?thesis using b by (simp add: refilled_def redis_live_def Let_def)
qed simp

text \<open>
  What the bound needs of the texts numbers are stored as: numbers up to \<open>B\<close> are read back
  with an error of at most \<open>\<epsilon>\<close>, and never negative.
\<close>

locale stored_numbers =
  fixes stored :: "rat \<Rightarrow> rat" and B \<epsilon> :: rat
  assumes close: "0 \<le> x \<Longrightarrow> x \<le> B \<Longrightarrow> \<bar>stored x - x\<bar> \<le> \<epsilon>"
    and nonneg: "0 \<le> x \<Longrightarrow> x \<le> B \<Longrightarrow> 0 \<le> stored x"
    and fine: "0 \<le> \<epsilon>" "\<epsilon> \<le> 60"
begin

lemma script_step:
  assumes "0 \<le> c" and "c \<le> B" and "0 < r" and "0 \<le> t" and "t \<le> B" and ok: "bucket_ok c r \<epsilon> (store key)"
    and "token_bucket_script stored c r t t key store = (res, store')"
  shows "res = Inr (1 \<le> refilled c r t (store key))" and "bucket_ok c r \<epsilon> (store' key)"
    and "(if res = Inr True then 1 else 0) + refilled c r t (store' key) \<le> refilled c r t (store key) + \<epsilon> * (1 + r)"
    and "refilled c r t' (store' key) \<ge> min c ((t' - t - \<epsilon>) * r)"
proof -
  define a where "a = refilled c r t (store key)"
  define g :: rat where "g = (if 1 \<le> a then 1 else 0)"
  have a: "0 \<le> a" "a \<le> c" unfolding a_def using assms(1,3) ok by (auto intro: refilled_bounds)
  have live: "refilled c r t (redis_live t store key) = a"
    unfolding a_def by (rule expiry_is_invisible [where store = store and key = key, OF assms(3) fine(2) ok])
  have "0 \<le> c / r" using assms(1,3) by simp
  then have "0 \<le> \<lceil>c / r\<rceil>" using ceiling_mono [of 0 "c / r"] by simp
  then have ttl: "0 < \<lceil>c / r\<rceil> + 60" by linarith
  from assms(7) have res: "res = Inr (1 \<le> a)"
    and store': "store' key = Some \<lparr>tokens = stored (a - g), last_refill = stored t,
        expires_at = Some (t + of_int (\<lceil>c / r\<rceil> + 60))\<rparr>"
    using assms(3) ttl
    by (auto simp: token_bucket_script_def live redis_hset_def redis_expire_def Let_def g_def split: if_splits)
  have g: "0 \<le> a - g" "a - g \<le> B" "(if res = Inr True then 1 else 0) = g"
    using a assms(2) by (auto simp: g_def res)
  have tk: "\<bar>stored (a - g) - (a - g)\<bar> \<le> \<epsilon>" "0 \<le> stored (a - g)" and tm: "\<bar>stored t - t\<bar> \<le> \<epsilon>"
    using close nonneg g assms(4,5) by auto
  have "c / r \<le> of_int \<lceil>c / r\<rceil>" by (rule le_of_int_ceiling)
  with tm have "stored t + c / r + 60 - \<epsilon> \<le> t + of_int (\<lceil>c / r\<rceil> + 60)" unfolding of_int_add of_int_numeral by linarith
  with tk(2) show "bucket_ok c r \<epsilon> (store' key)"
    unfolding store' bucket_ok_def by (simp del: of_int_add)
  show "res = Inr (1 \<le> refilled c r t (store key))" using res by (simp add: a_def)
  have after: "refilled c r t (store' key) = min c (stored (a - g) + max 0 (t - stored t) * r)"
    by (simp add: store' refilled_def Let_def)
  have "max 0 (t - stored t) * r \<le> \<epsilon> * r" using tm assms(3) fine(1) by (intro mult_right_mono) (auto simp: abs_le_iff)
  with tk(1) have "g + refilled c r t (store' key) \<le> a + \<epsilon> + \<epsilon> * r"
    unfolding after using min.cobounded2 [of c "stored (a - g) + max 0 (t - stored t) * r"] by linarith
  then show "(if res = Inr True then 1 else 0) + refilled c r t (store' key) \<le> refilled c r t (store key) + \<epsilon> * (1 + r)"
    unfolding g(3) a_def by (simp add: distrib_left)
  have "refilled c r t' (store' key) = min c (stored (a - g) + max 0 (t' - stored t) * r)"
    by (simp add: store' refilled_def Let_def)
  moreover have "(t' - t - \<epsilon>) * r \<le> max 0 (t' - stored t) * r"
    using tm assms(3) by (intro mult_right_mono) (auto simp: abs_le_iff)
  ultimately show "refilled c r t' (store' key) \<ge> min c ((t' - t - \<epsilon>) * r)"
    using tk(2) by (simp add: min_le_iff_disj)
qed

text \<open>Over a run, tokens granted are tokens there were, tokens refilled, and rounding.\<close>

lemma grants_bounded:
  assumes "0 \<le> c" and "c \<le> B" and "0 < r"
  shows "0 \<le> t \<Longrightarrow> sorted (t # ts) \<Longrightarrow> \<forall>u \<in> set ts. u \<le> B \<Longrightarrow> bucket_ok c r \<epsilon> (store key) \<Longrightarrow>
    of_nat (fst (serve_requests (\<lambda>t. token_bucket_script stored c r t t key) ts store)) \<le>
      refilled c r t (store key) + r * (last (t # ts) - t) + of_nat (length ts) * (\<epsilon> * (1 + r))"
proof (induction ts arbitrary: t store)
  case Nil
  then show ?case using refilled_bounds(1) [of c r \<epsilon> "store key" t] assms by simp
next
  case (Cons u ts)
  obtain res store' where step: "token_bucket_script stored c r u u key store = (res, store')" by fastforce
  have u: "0 \<le> u" "u \<le> B" "t \<le> u" using Cons.prems by auto
  note s = script_step [OF assms u(1,2) Cons.prems(4) step]
  have "of_nat (fst (serve_requests (\<lambda>t. token_bucket_script stored c r t t key) ts store')) \<le>
      refilled c r u (store' key) + r * (last (u # ts) - u) + of_nat (length ts) * (\<epsilon> * (1 + r))"
    using Cons.prems u s(2) by (intro Cons.IH) auto
  moreover have "refilled c r u (store key) \<le> refilled c r t (store key) + (u - t) * r"
    using assms(3) u(3) by (intro refilled_later) simp_all
  moreover have "(of_nat (fst (serve_requests (\<lambda>t. token_bucket_script stored c r t t key) (u # ts) store)) :: rat) =
      (if res = Inr True then 1 else 0) + of_nat (fst (serve_requests (\<lambda>t. token_bucket_script stored c r t t key) ts store'))"
    by (simp add: step case_prod_beta)
  ultimately have "of_nat (fst (serve_requests (\<lambda>t. token_bucket_script stored c r t t key) (u # ts) store)) \<le>
      refilled c r t (store key) + (u - t) * r + \<epsilon> * (1 + r) + r * (last (u # ts) - u) + of_nat (length ts) * (\<epsilon> * (1 + r))"
    using s(3) by linarith
  then show ?case by (simp add: algebra_simps)
qed

lemma serve_requests_ok:
  assumes "0 \<le> c" and "c \<le> B" and "0 < r"
  shows "\<forall>u \<in> set ts. 0 \<le> u \<and> u \<le> B \<Longrightarrow> bucket_ok c r \<epsilon> (store key) \<Longrightarrow>
    bucket_ok c r \<epsilon> (snd (serve_requests (\<lambda>t. token_bucket_script stored c r t t key) ts store) key)"
proof (induction ts arbitrary: store)
  case (Cons u ts)
  obtain res store' where step: "token_bucket_script stored c r u u key store = (res, store')" by fastforce
  have "0 \<le> u" "u \<le> B" using Cons.prems(1) by auto
  from script_step(2) [OF assms this Cons.prems(2) step]
  show ?case using Cons.IH [of store'] Cons.prems(1) by (simp add: step case_prod_beta)
qed simp

text \<open>A merchant that waited long enough for one token is served.\<close>

lemma granted_after_idle:
  assumes "1 \<le> c" and "c \<le> B" and "0 < r" and "0 \<le> t" and "t' \<le> B" and "bucket_ok c r \<epsilon> (store key)"
    and "token_bucket_script stored c r t t key store = (res, store')" and "t + 1 / r + \<epsilon> \<le> t'"
  shows "fst (token_bucket_script stored c r t' t' key store') = Inr True"
proof -
  have "0 < 1 / r" using assms(3) by simp
  then have t: "t \<le> t'" "t \<le> B" "0 \<le> t'" and c: "0 \<le> c" using assms(1,4,5,8) fine(1) by linarith+
  note s = script_step [OF c assms(2,3,4) t(2) assms(6,7)]
  have "1 / r \<le> t' - t - \<epsilon>" using assms(8) by linarith
  then have "1 \<le> (t' - t - \<epsilon>) * r" using assms(3) by (simp add: pos_divide_le_eq)
  then have "1 \<le> refilled c r t' (store' key)" using s(4) [of t'] assms(1) by (simp add: min_def split: if_splits)
  moreover obtain res' store'' where run: "token_bucket_script stored c r t' t' key store' = (res', store'')" by fastforce
  ultimately show ?thesis using script_step(1) [OF c assms(2,3) t(3) assms(5) s(2) run] by simp
qed

end

interpretation lua: stored_numbers lua_tostring "10 ^ 10 - 1" "1 / 20000"
  by unfold_locales (simp_all add: lua_tostring_precise [simplified])

section \<open>Properties\<close>

lemma capacity_range:
  "0 \<le> c \<Longrightarrow> c < 10 ^ 10 \<Longrightarrow> (0::rat) \<le> of_int c"
  "0 \<le> c \<Longrightarrow> c < 10 ^ 10 \<Longrightarrow> (of_int c :: rat) \<le> 10 ^ 10 - 1"
proof -
  show "0 \<le> c \<Longrightarrow> (0::rat) \<le> of_int c" by simp
  assume "c < 10 ^ 10"
  then have "of_int c \<le> (of_int (10 ^ 10 - 1) :: rat)" by (intro of_int_le_iff [THEN iffD2]) simp
  then show "(of_int c :: rat) \<le> 10 ^ 10 - 1" by simp
qed

lemma configured_check:
  "default_capacity environ = Inr c \<Longrightarrow> default_refill_per_second python_float environ = Inr r \<Longrightarrow>
   check_rate_limit python_float environ t s m None None = token_bucket_script lua_tostring (of_int c) r t s (bucket_key m)"
  by (simp add: fun_eq_iff check_rate_limit_def)

text \<open>C27. However many requests a merchant sends, from whatever replicas, over whatever time, with
  clocks that agree, the number let through is at most the bucket's capacity plus the refill rate
  times the time that has passed, up to the rounding of the stored texts, which is at most a
  twenty-thousandth of a token and of a second per request; buckets that expire in between make
  no difference.\<close>

theorem rate_limit_bound:
  assumes "default_capacity environ = Inr c" and "default_refill_per_second python_float environ = Inr r"
    and "0 \<le> c" and "c < 10 ^ 10" and "0 < r"
    and "sorted (t # ts)" and "0 \<le> t" and "\<forall>u \<in> set (t # ts). u \<le> 10 ^ 10 - 1" and "store (bucket_key m) = None"
  shows "of_nat (fst (serve_requests (\<lambda>u. check_rate_limit python_float environ u u m None None) (t # ts) store)) \<le>
    of_int c + r * (last (t # ts) - t) + of_nat (length (t # ts)) * ((1 + r) / 20000)"
proof -
  let ?check = "\<lambda>u. token_bucket_script lua_tostring (of_int c) r u u (bucket_key m)"
  have "bucket_ok (of_int c) r (1 / 20000) (store (bucket_key m))" by (simp add: bucket_ok_def assms(9))
  note lua.grants_bounded [where store = store and key = "bucket_key m" and ts = "t # ts", OF capacity_range [OF assms(3,4)] assms(5) assms(7) _ assms(8) this]
  moreover have "sorted (t # t # ts)" using assms(6) by simp
  ultimately have "of_nat (fst (serve_requests ?check (t # ts) store)) \<le>
      refilled (of_int c) r t (store (bucket_key m)) + r * (last (t # t # ts) - t) + of_nat (length (t # ts)) * (1 / 20000 * (1 + r))"
    by blast
  moreover have "refilled (of_int c) r t (store (bucket_key m)) \<le> of_int c" by (rule refilled_bounds(2))
  ultimately have "of_nat (fst (serve_requests ?check (t # ts) store)) \<le>
      of_int c + r * (last (t # ts) - t) + of_nat (length (t # ts)) * (1 / 20000 * (1 + r))"
    by (simp del: serve_requests.simps)
  then show ?thesis unfolding configured_check [OF assms(1,2)] by simp
qed

text \<open>A merchant that has waited for one token since its last request, for one over the refill
  rate in seconds and a twenty-thousandth, is let through, whatever it did before.\<close>

theorem waiting_merchant_is_served:
  assumes "default_capacity environ = Inr c" and "default_refill_per_second python_float environ = Inr r"
    and "1 \<le> c" and "c < 10 ^ 10" and "0 < r" and "\<forall>u \<in> set ts. 0 \<le> u \<and> u \<le> 10 ^ 10 - 1" and "0 \<le> t"
    and "store (bucket_key m) = None" and "t + 1 / r + 1 / 20000 \<le> t'" and "t' \<le> 10 ^ 10 - 1"
  shows "fst (check_rate_limit python_float environ t' t' m None None
    (snd (check_rate_limit python_float environ t t m None None
      (snd (serve_requests (\<lambda>u. check_rate_limit python_float environ u u m None None) ts store))))) = Inr True"
proof -
  let ?st = "snd (serve_requests (\<lambda>u. token_bucket_script lua_tostring (of_int c) r u u (bucket_key m)) ts store)"
  have c: "0 \<le> c" using assms(3) by simp
  have one: "(1::rat) \<le> of_int c" using assms(3) by simp
  have ok: "bucket_ok (of_int c) r (1 / 20000) (?st (bucket_key m))"
    by (rule lua.serve_requests_ok [OF capacity_range [OF c assms(4)] assms(5,6)]) (simp add: bucket_ok_def assms(8))
  obtain res st' where run: "token_bucket_script lua_tostring (of_int c) r t t (bucket_key m) ?st = (res, st')" by fastforce
  from lua.granted_after_idle [OF one capacity_range(2) [OF c assms(4)] assms(5,7,10) ok run assms(9)]
  show ?thesis unfolding configured_check [OF assms(1,2)] run by simp
qed

text \<open>The defaults, 20 tokens and 5 a second, and four requests within a second.\<close>

definition demo_float :: "string \<Rightarrow> rat option" where
  "demo_float v = (if v = ''5'' then Some 5 else None)"

lemma demo_limits:
  "default_capacity (\<lambda>_. None) = Inr 20" "default_refill_per_second demo_float (\<lambda>_. None) = Inr 5"
  by (simp_all add: default_capacity_def python_int_def strip_def is_space_def is_digit_def
      default_refill_per_second_def demo_float_def)

theorem rate_limit_bound_witness:
  "of_nat (fst (serve_requests (\<lambda>u. check_rate_limit demo_float (\<lambda>_. None) u u 7 None None) [1700000000, 1700000001] (\<lambda>_. None))) \<le>
    (25 :: rat) + 6 / 10000"
  using rate_limit_bound [OF demo_limits, of 1700000000 "[1700000001]" "\<lambda>_. None" 7] by simp

theorem waiting_merchant_is_served_witness:
  "fst (check_rate_limit demo_float (\<lambda>_. None) 1700000002 1700000002 7 None None
    (snd (check_rate_limit demo_float (\<lambda>_. None) 1700000001 1700000001 7 None None
      (snd (serve_requests (\<lambda>u. check_rate_limit demo_float (\<lambda>_. None) u u 7 None None) [1700000000] (\<lambda>_. None)))))) = Inr True"
  by (rule waiting_merchant_is_served [OF demo_limits]) simp_all

text \<open>The bucket two replicas leave behind whose clocks are a second apart.\<close>

definition skewed_bucket :: bucket where
  "skewed_bucket = \<lparr>tokens = 18, last_refill = 1700000000, expires_at = Some 1700000064\<rparr>"

lemma lua_tostring_values:
  "lua_tostring 19 = 19" "lua_tostring 18 = 18" "lua_tostring 1700000000 = 1700000000" "lua_tostring 1700000001 = 1700000001"
  by (simp_all add: lua_tostring_def decimal_scale_def round_half_even_def nat_str.simps Let_def)

lemma skewed_pair:
  assumes "store (bucket_key m) \<in> {None, Some skewed_bucket}"
  shows "\<exists>store'. serve_requests (\<lambda>t. check_rate_limit python_float environ t 1700000000 m (Some 20) (Some 5))
      [1700000001, 1700000000] store = (2, store') \<and> store' (bucket_key m) = Some skewed_bucket"
  using assms
  by (auto simp: check_rate_limit_def token_bucket_script_def refilled_def redis_live_def redis_hset_def redis_expire_def
      skewed_bucket_def lua_tostring_values Let_def)

lemma serve_requests_append:
  "serve_requests check (ts @ us) store =
     (case serve_requests check ts store of (n, store') \<Rightarrow> case serve_requests check us store' of (k, store'') \<Rightarrow> (n + k, store''))"
  by (induction ts arbitrary: store) (auto split: prod.splits)

lemma skewed_run:
  "store (bucket_key m) \<in> {None, Some skewed_bucket} \<Longrightarrow>
   fst (serve_requests (\<lambda>t. check_rate_limit python_float environ t 1700000000 m (Some 20) (Some 5))
     (concat (replicate n [1700000001, 1700000000])) store) = 2 * n"
proof (induction n arbitrary: store)
  case (Suc n)
  let ?check = "\<lambda>t. check_rate_limit python_float environ t 1700000000 m (Some 20) (Some 5)"
  from skewed_pair [where store = store and m = m, OF Suc.prems] obtain store' where pair:
    "serve_requests ?check [1700000001, 1700000000] store = (2, store')" "store' (bucket_key m) = Some skewed_bucket" by blast
  have "fst (serve_requests ?check (concat (replicate n [1700000001, 1700000000])) store') = 2 * n"
    by (rule Suc.IH) (simp add: pair(2))
  then show ?case
    by (simp only: replicate_Suc concat.simps(2) serve_requests_append pair(1)) (simp add: case_prod_beta)
qed simp

text \<open>The limit does not hold across replicas whose clocks differ: the script lets the refill time
  go backwards, so two replicas a second apart serving a merchant in turn grant every request,
  without end, at one and the same instant of the Redis server.\<close>

theorem skewed_clocks_defeat_the_limit:
  "fst (serve_requests (\<lambda>t. check_rate_limit python_float environ t 1700000000 m (Some 20) (Some 5))
     (concat (replicate n [1700000001, 1700000000])) (\<lambda>_. None)) = 2 * n"
  by (rule skewed_run) simp

end
