(* ===== verification/Config.thy ===== *)
theory Config
  imports Merchants RateLimit
begin

text \<open>
  Process configuration: the \<open>.env\<close> reader every entry point runs first (\<open>apps/api/main.py\<close>,
  \<open>apps/worker/main.py\<close> and the scripts have the same one), and the settings read from the
  environment: the database URL (\<open>packages/database/session.py\<close>), the Redis URL
  (\<open>packages/ratelimit/redis_client.py\<close>) and the webhook secret
  (\<open>apps/api/routers/webhooks.py\<close>).
\<close>

type_synonym environment = "string \<Rightarrow> string option"

section \<open>The .env file\<close>

text \<open>\<open>str.splitlines\<close> on Latin-1 text: the line boundaries, a carriage return with a line feed
  counting once.\<close>

definition is_line_break :: "char \<Rightarrow> bool" where
  "is_line_break c \<longleftrightarrow> (let n = of_char c :: nat in (10 \<le> n \<and> n \<le> 13) \<or> (28 \<le> n \<and> n \<le> 30) \<or> n = 133)"

fun splitlines_from :: "string \<Rightarrow> string \<Rightarrow> string list" where
  "splitlines_from acc [] = (if acc = [] then [] else [rev acc])"
| "splitlines_from acc (c # cs) =
     (if is_line_break c then
        rev acc # splitlines_from [] (if of_char c = (13 :: nat) \<and> cs \<noteq> [] \<and> of_char (hd cs) = (10 :: nat) then tl cs else cs)
      else splitlines_from (c # acc) cs)"

definition splitlines :: "string \<Rightarrow> string list" where
  "splitlines text = splitlines_from [] text"

text \<open>\<open>line.partition("=")\<close>, without the separator.\<close>

definition partition_eq :: "string \<Rightarrow> string \<times> string" where
  "partition_eq line = (takeWhile (\<lambda>c. c \<noteq> CHR ''='') line, tl (dropWhile (\<lambda>c. c \<noteq> CHR ''='') line))"

definition setdefault :: "string \<Rightarrow> string \<Rightarrow> environment \<Rightarrow> environment" where
  "setdefault key value environ = (case environ key of None \<Rightarrow> environ(key \<mapsto> value) | Some _ \<Rightarrow> environ)"

definition dotenv_line :: "string \<Rightarrow> environment \<Rightarrow> environment" where
  "dotenv_line raw environ =
     (let line = strip raw in
      if line = [] \<or> starts_with line ''#'' \<or> CHR ''='' \<notin> set line then environ
      else case partition_eq line of (key, value) \<Rightarrow> setdefault (strip key) (strip value) environ)"

definition load_dotenv :: "string option \<Rightarrow> environment \<Rightarrow> environment" where
  "load_dotenv env_file environ =
     (case env_file of
        None \<Rightarrow> environ
      | Some text \<Rightarrow> fold dotenv_line (splitlines text) environ)"

section \<open>Settings\<close>

definition database_url :: "environment \<Rightarrow> exn + string" where
  "database_url environ =
     (if \<not> truthy (environ ''DATABASE_URL'') then Inl (RuntimeError ''DATABASE_URL is not set'')
      else
        (let url = the (environ ''DATABASE_URL'') in
         Inr (if starts_with url ''postgres://'' then ''postgresql+asyncpg://'' @ drop (length ''postgres://'') url
              else if starts_with url ''postgresql://'' then ''postgresql+asyncpg://'' @ drop (length ''postgresql://'') url
              else url)))"

definition redis_url :: "environment \<Rightarrow> exn + string" where
  "redis_url environ =
     (if \<not> truthy (environ ''REDIS_URL'') then Inl (RuntimeError ''REDIS_URL is not set'')
      else Inr (the (environ ''REDIS_URL'')))"

definition webhook_secret :: "environment \<Rightarrow> exn + string" where
  "webhook_secret environ =
     (if \<not> truthy (environ ''WEBHOOK_SECRET'') then Inl (RuntimeError ''WEBHOOK_SECRET is not set'')
      else Inr (the (environ ''WEBHOOK_SECRET'')))"

section \<open>Properties\<close>

lemma setdefault_keeps: "environ k = Some v \<Longrightarrow> setdefault key value environ k = Some v"
  by (auto simp: setdefault_def split: option.splits)

lemma dotenv_line_keeps: "environ k = Some v \<Longrightarrow> dotenv_line raw environ k = Some v"
  by (auto simp: dotenv_line_def Let_def partition_eq_def setdefault_keeps)

lemma dotenv_lines_keep: "environ k = Some v \<Longrightarrow> fold dotenv_line ls environ k = Some v"
  by (induction ls arbitrary: environ) (auto simp: dotenv_line_keeps)

text \<open>What a line defines, if anything.\<close>

definition dotenv_value :: "string \<Rightarrow> string \<Rightarrow> string option" where
  "dotenv_value k raw =
     (let line = strip raw in
      if line = [] \<or> starts_with line ''#'' \<or> CHR ''='' \<notin> set line \<or> strip (fst (partition_eq line)) \<noteq> k then None
      else Some (strip (snd (partition_eq line))))"

lemma dotenv_line_defines: "environ k = None \<Longrightarrow> dotenv_line raw environ k = dotenv_value k raw"
  by (auto simp: dotenv_line_def dotenv_value_def Let_def setdefault_def case_prod_beta split: option.splits)

text \<open>The \<open>.env\<close> file only fills in: a variable the process was started with keeps its value, any
  other gets the value of the first line that defines it.\<close>

lemma dotenv_first_definition:
  "load_dotenv (Some text) environ k =
     (case environ k of
        Some v \<Rightarrow> Some v
      | None \<Rightarrow> (case find (\<lambda>l. dotenv_value k l \<noteq> None) (splitlines text) of None \<Rightarrow> None | Some l \<Rightarrow> dotenv_value k l))"
proof (cases "environ k")
  case None
  have "fold dotenv_line ls environ k = (case find (\<lambda>l. dotenv_value k l \<noteq> None) ls of None \<Rightarrow> None | Some l \<Rightarrow> dotenv_value k l)" for ls
    using None
  proof (induction ls arbitrary: environ)
    case (Cons l ls)
    show ?case
    proof (cases "dotenv_value k l")
      case None
      then show ?thesis using Cons.IH [of "dotenv_line l environ"] Cons.prems by (simp add: dotenv_line_defines)
    next
      case (Some v)
      then show ?thesis using Cons.prems by (simp add: dotenv_line_defines dotenv_lines_keep)
    qed
  qed simp
  with None show ?thesis by (simp add: load_dotenv_def)
qed (simp add: load_dotenv_def dotenv_lines_keep)

text \<open>The URL handed to the engine names the asyncpg driver whenever the deployment gave a bare
  Postgres URL, and normalising it again changes nothing.\<close>

lemma database_url_driver:
  "environ ''DATABASE_URL'' = Some (''postgres://'' @ rest) \<Longrightarrow> database_url environ = Inr (''postgresql+asyncpg://'' @ rest)"
  "environ ''DATABASE_URL'' = Some (''postgresql://'' @ rest) \<Longrightarrow> database_url environ = Inr (''postgresql+asyncpg://'' @ rest)"
  "environ ''DATABASE_URL'' = Some (''postgresql+asyncpg://'' @ rest) \<Longrightarrow> database_url environ = Inr (''postgresql+asyncpg://'' @ rest)"
  by (simp_all add: database_url_def truthy_def starts_with_def)

end
