(* ===== verification/Api.thy ===== *)
theory Api
  imports Queries Config
begin

text \<open>
  The HTTP layer (\<open>apps/api\<close>): error envelope, request schemas, the guards every endpoint declares
  as dependencies, and the endpoints of the four routers. FastAPI and Starlette are not
  modelled: an endpoint is a function of what they hand it (decoded headers, path and query
  parameters, the body with its field types already coerced), and FastAPI resolves the declared
  dependencies before it calls the endpoint.
\<close>

section \<open>Errors\<close>

definition STATUS_BY_CODE :: "(string \<times> int) list" where
  "STATUS_BY_CODE =
     [(''INVALID_REQUEST'', 400), (''INVALID_CURRENCY'', 400), (''INVALID_AMOUNT'', 400),
      (''IDEMPOTENCY_KEY_REQUIRED'', 400), (''IDEMPOTENCY_KEY_REUSED'', 409), (''REQUEST_IN_PROGRESS'', 409),
      (''PAYMENT_NOT_FOUND'', 404), (''REFUND_NOT_FOUND'', 404), (''INVALID_STATE_TRANSITION'', 422),
      (''PAYMENT_DECLINED'', 402), (''PROVIDER_TIMEOUT'', 504), (''PROVIDER_UNAVAILABLE'', 503),
      (''REFUND_EXCEEDS_PAYMENT'', 409), (''WEBHOOK_SIGNATURE_INVALID'', 401), (''RATE_LIMITED'', 429),
      (''UNAUTHORIZED'', 401)]"

definition error_response :: "string option \<Rightarrow> string \<Rightarrow> string \<Rightarrow> int \<Rightarrow> int \<times> json" where
  "error_response request_id code msg status_code =
     (status_code,
      JObj [(''error'', JObj [(''code'', JStr code), (''message'', JStr msg),
        (''request_id'', JStr (case request_id of None \<Rightarrow> ''unknown'' | Some r \<Rightarrow> r))])])"

text \<open>The installed handlers. An exception none of them is for goes on to the server (None).\<close>

definition payguard_error_handler :: "string option \<Rightarrow> exn \<Rightarrow> (int \<times> json) option" where
  "payguard_error_handler request_id e =
     (case e of
        PayGuardError code msg \<Rightarrow>
          Some (error_response request_id code msg
            (case map_of STATUS_BY_CODE code of None \<Rightarrow> 400 | Some st \<Rightarrow> st))
      | _ \<Rightarrow> None)"

definition validation_error_handler :: "string option \<Rightarrow> string option list \<Rightarrow> int \<times> json" where
  "validation_error_handler request_id msgs =
     (let first = (case msgs of [] \<Rightarrow> None | m # _ \<Rightarrow> m);
          msg = (case first of None \<Rightarrow> ''The request body failed validation.'' | Some m \<Rightarrow> m)
      in error_response request_id ''INVALID_REQUEST'' msg 400)"

text \<open>\<open>f"req_{uuid.uuid4().hex}"\<close>.\<close>

definition request_id_of :: "uuid \<Rightarrow> string" where
  "request_id_of u = ''req_'' @ hex_str 32 u"

section \<open>Request schemas\<close>

record payment_create_request =
  pc_amount :: int
  pc_currency :: string
  pc_merchant_reference :: "string option"
  pc_method_type :: string
  pc_method_token :: string
  pc_billing_country :: "string option"
  pc_shipping_country :: "string option"
  pc_customer_ip :: "string option"

text \<open>\<open>str.isalpha\<close> of a character, and whether \<open>str.upper\<close> leaves it alone, for the characters up
  to U+00FF.\<close>

definition char_isalpha :: "char \<Rightarrow> bool" where
  "char_isalpha c \<longleftrightarrow>
     (let n = of_char c :: nat in
      (65 \<le> n \<and> n \<le> 90) \<or> (97 \<le> n \<and> n \<le> 122) \<or> n = 170 \<or> n = 181 \<or> n = 186 \<or>
      (192 \<le> n \<and> n \<noteq> 215 \<and> n \<noteq> 247))"

definition char_upper_fixed :: "char \<Rightarrow> bool" where
  "char_upper_fixed c \<longleftrightarrow>
     (let n = of_char c :: nat in
      \<not> ((97 \<le> n \<and> n \<le> 122) \<or> n = 181 \<or> (223 \<le> n \<and> n \<noteq> 247)))"

definition currency_must_be_iso4217_shaped :: "string \<Rightarrow> bool" where
  "currency_must_be_iso4217_shaped value \<longleftrightarrow>
     value \<noteq> [] \<and> list_all char_isalpha value \<and> list_all char_upper_fixed value"

definition valid_payment_create :: "payment_create_request \<Rightarrow> bool" where
  "valid_payment_create p \<longleftrightarrow>
     pc_amount p > 0 \<and> length (pc_currency p) = 3 \<and> currency_must_be_iso4217_shaped (pc_currency p) \<and>
     pc_method_type p = ''token'' \<and> pc_method_token p \<noteq> []"

definition valid_refund_create :: "int \<Rightarrow> bool" where
  "valid_refund_create amount \<longleftrightarrow> amount > 0"

definition valid_page :: "int \<Rightarrow> int \<Rightarrow> bool" where
  "valid_page limit offset \<longleftrightarrow> 1 \<le> limit \<and> limit \<le> 100 \<and> 0 \<le> offset"

section \<open>Guards\<close>

definition require_idempotency_key :: "string option \<Rightarrow> exn + string" where
  "require_idempotency_key idempotency_key =
     (if \<not> truthy idempotency_key
      then Inl (PayGuardError ''IDEMPOTENCY_KEY_REQUIRED'' ''The Idempotency-Key header is required.'')
      else Inr (the idempotency_key))"

text \<open>\<open>checked\<close> is the answer of \<open>check_rate_limit\<close>.\<close>

definition enforce_rate_limit :: "exn + bool \<Rightarrow> ('p, unit) prog" where
  "enforce_rate_limit checked =
     bnd (lift_result checked) (\<lambda>allowed.
     if \<not> allowed then
       andthen (inc ''rate_limit_rejections_total'')
       (raise (PayGuardError ''RATE_LIMITED'' ''Too many requests. Please try again shortly.''))
     else ret ())"

text \<open>What a request meets: the clocks of the process and of Redis, the environment.\<close>

record request_context =
  rc_environ :: environment
  rc_float :: "string \<Rightarrow> rat option"
  rc_time :: rat
  rc_server :: rat

text \<open>The endpoints that change payments declare both guards; the second takes the merchant the
  first found. The reading endpoints and the reconciliation trigger declare the first only.\<close>

definition rate_limited ::
    "(string \<Rightarrow> string) \<Rightarrow> request_context \<Rightarrow> string option \<Rightarrow> (merchant \<Rightarrow> ('p, 'a) prog) \<Rightarrow>
     redis \<Rightarrow> 'p session \<Rightarrow> (exn + 'a) \<times> 'p session \<times> redis" where
  "rate_limited sha256hex rc authorization endpoint store s =
     (case get_current_merchant sha256hex authorization s of
        (Inl e, s') \<Rightarrow> (Inl e, s', store)
      | (Inr merchant, s') \<Rightarrow>
          (case check_rate_limit (rc_float rc) (rc_environ rc) (rc_time rc) (rc_server rc) (m_id merchant) None None store of
             (checked, store') \<Rightarrow>
               (case andthen (enforce_rate_limit checked) (endpoint merchant) s' of
                  (res, s'') \<Rightarrow> (res, s'', store'))))"

section \<open>Endpoints\<close>

definition create_payment_endpoint ::
    "(string \<Rightarrow> string) \<Rightarrow> 'p provider \<Rightarrow> payment_create_request \<Rightarrow> string option \<Rightarrow> string \<Rightarrow> string option \<Rightarrow>
     merchant \<Rightarrow> ('p, response) prog" where
  "create_payment_endpoint sha256hex provider payload idempotency_key raw_body client_host merchant =
     bnd (lift_result (require_idempotency_key idempotency_key)) (\<lambda>key.
     create_payment sha256hex provider
       \<lparr>rq_merchant_id = m_id merchant, rq_idempotency_key = key, rq_raw_body = raw_body,
        rq_amount_minor = pc_amount payload, rq_currency = pc_currency payload,
        rq_merchant_reference = pc_merchant_reference payload, rq_payment_token = pc_method_token payload,
        rq_billing_country = pc_billing_country payload, rq_shipping_country = pc_shipping_country payload,
        rq_customer_ip = (if truthy (pc_customer_ip payload) then pc_customer_ip payload else client_host)\<rparr>)"

definition list_payments_endpoint ::
    "string option \<Rightarrow> nat \<Rightarrow> nat \<Rightarrow> merchant \<Rightarrow> ('p, json) prog" where
  "list_payments_endpoint status limit offset merchant =
     bnd (query (list_payments (m_id merchant) status limit offset)) (\<lambda>(items, total).
     ret (JObj [(''items'', JArr (map (JObj \<circ> serialize_payment) items)), (''total'', JInt (int total)),
       (''limit'', JInt (int limit)), (''offset'', JInt (int offset))]))"

definition get_payment_endpoint :: "uuid \<Rightarrow> merchant \<Rightarrow> ('p, json) prog" where
  "get_payment_endpoint payment_id merchant =
     bnd (get_payment (m_id merchant) payment_id) (\<lambda>intent. ret (JObj (serialize_payment intent)))"

definition get_payment_detail_endpoint :: "uuid \<Rightarrow> merchant \<Rightarrow> ('p, json) prog" where
  "get_payment_detail_endpoint payment_id merchant =
     bnd (get_payment_detail (m_id merchant) payment_id) (\<lambda>detail. ret (JObj detail))"

definition capture_payment_endpoint ::
    "(string \<Rightarrow> string) \<Rightarrow> 'p provider \<Rightarrow> uuid \<Rightarrow> string option \<Rightarrow> string \<Rightarrow> merchant \<Rightarrow> ('p, response) prog" where
  "capture_payment_endpoint sha256hex provider payment_id idempotency_key raw_body merchant =
     bnd (lift_result (require_idempotency_key idempotency_key)) (\<lambda>key.
     capture_payment sha256hex provider (m_id merchant) payment_id key raw_body)"

definition create_refund_endpoint ::
    "(string \<Rightarrow> string) \<Rightarrow> 'p provider \<Rightarrow> uuid \<Rightarrow> int \<Rightarrow> string option \<Rightarrow> string \<Rightarrow> merchant \<Rightarrow> ('p, response) prog" where
  "create_refund_endpoint sha256hex provider payment_id amount idempotency_key raw_body merchant =
     bnd (lift_result (require_idempotency_key idempotency_key)) (\<lambda>key.
     refund_payment sha256hex provider (m_id merchant) payment_id key raw_body amount)"

definition get_refund_endpoint :: "uuid \<Rightarrow> merchant \<Rightarrow> ('p, json) prog" where
  "get_refund_endpoint refund_id merchant =
     bnd (get_refund (m_id merchant) refund_id) (\<lambda>refund. ret (JObj (serialize_refund refund)))"

definition serialize_dashboard_summary :: "dashboard_summary \<Rightarrow> json" where
  "serialize_dashboard_summary sm =
     JObj [(''counts_by_status'', JObj (map (\<lambda>(st, n). (st, JInt (int n))) (ds_counts_by_status sm))),
       (''total_payments'', JInt (int (ds_total_payments sm))),
       (''total_succeeded_amount'', JInt (ds_total_succeeded_amount sm)),
       (''total_refunded_amount'', JInt (ds_total_refunded_amount sm))]"

definition get_dashboard_summary_endpoint :: "merchant \<Rightarrow> ('p, json) prog" where
  "get_dashboard_summary_endpoint merchant =
     bnd (query (get_dashboard_summary (m_id merchant))) (\<lambda>sm. ret (serialize_dashboard_summary sm))"

definition run_reconciliation_endpoint :: "'p provider \<Rightarrow> merchant \<Rightarrow> ('p, json) prog" where
  "run_reconciliation_endpoint provider merchant =
     bnd (run_reconciliation_pass provider (Some (m_id merchant))) (\<lambda>reports.
     ret (JObj [(''reports'', JArr (map (JObj \<circ> serialize_reconciliation_report) reports))]))"

text \<open>The webhook endpoint takes no credentials but a signature. \<open>json_loads\<close> is
  \<open>json.loads\<close>, which may raise. A value that is no object has no \<open>get\<close>; an id
  or type that is no text is refused by the driver.\<close>

definition receive_provider_webhook ::
    "(string \<Rightarrow> string \<Rightarrow> string) \<Rightarrow> (string \<Rightarrow> exn + json) \<Rightarrow> environment \<Rightarrow> int \<Rightarrow>
     string option \<Rightarrow> string option \<Rightarrow> string \<Rightarrow> ('p, json) prog" where
  "receive_provider_webhook hmac_sha256hex json_loads environ now_seconds signature timestamp raw_body =
     bnd (lift_result (webhook_secret environ)) (\<lambda>secret.
     andthen (lift_result (verify_webhook_signature hmac_sha256hex secret timestamp signature raw_body
        DEFAULT_TOLERANCE_SECONDS now_seconds))
     (case json_loads raw_body of
        Inl e \<Rightarrow>
          raise (if e = JSONDecodeError then PayGuardError ''INVALID_REQUEST'' ''Webhook body is not valid JSON.'' else e)
      | Inr (JObj parsed) \<Rightarrow>
          (case (dict_get parsed ''id'', dict_get parsed ''type'') of
             (Some provider_event_id, Some event_type) \<Rightarrow>
               if \<not> json_truthy provider_event_id \<or> \<not> json_truthy event_type
               then raise (PayGuardError ''INVALID_REQUEST'' ''Webhook body must include 'id' and 'type'.'')
               else (case (provider_event_id, event_type) of
                       (JStr eid, JStr ty) \<Rightarrow>
                         andthen (receive_webhook ''mock'' eid ty parsed (the signature))
                         (ret (JObj [(''received'', JBool True)]))
                     | _ \<Rightarrow> raise DataError)
           | _ \<Rightarrow> raise (PayGuardError ''INVALID_REQUEST'' ''Webhook body must include 'id' and 'type'.''))
      | Inr _ \<Rightarrow> raise AttributeError))"

end
