(* ===== verification/Isolation.thy ===== *)
theory Isolation
  imports Api
begin

text \<open>
  Tenant isolation of the reading endpoints: what a merchant sees depends on its own rows only.
\<close>

section \<open>A merchant's own rows\<close>

record tenant_view =
  tv_payments :: "payment_intent list"
  tv_events :: "payment_event list"
  tv_attempts :: "payment_attempt list"
  tv_refunds :: "refund list"
  tv_entries :: "ledger_entry list"

definition own_payments :: "uuid \<Rightarrow> db \<Rightarrow> payment_intent list" where
  "own_payments m d = filter (\<lambda>p. pi_merchant_id p = m) (payment_intents d)"

definition tenant_rows :: "uuid \<Rightarrow> db \<Rightarrow> tenant_view" where
  "tenant_rows m d =
     (let ids = pi_id ` set (own_payments m d) in
      \<lparr>tv_payments = own_payments m d,
       tv_events = filter (\<lambda>e. pe_payment_intent_id e \<in> ids) (payment_events d),
       tv_attempts = filter (\<lambda>a. pa_payment_intent_id a \<in> ids) (payment_attempts d),
       tv_refunds = filter (\<lambda>r. rf_payment_intent_id r \<in> ids) (refunds d),
       tv_entries = filter (\<lambda>e. le_payment_intent_id e \<in> ids) (ledger_entries d)\<rparr>)"

section \<open>The queries are functions of it\<close>

lemma select_one_conj: "select_one (\<lambda>r. p r \<and> q r) rows = select_one p (filter q rows)"
  by (induction rows) auto

lemma select_sum_conj: "select_sum f (\<lambda>r. q r \<and> p r) rows = select_sum f p (filter q rows)"
  by (induction rows) auto

lemma filter_own: "(\<And>r. p r \<Longrightarrow> q r) \<Longrightarrow> filter p rows = filter p (filter q rows)"
  by (induction rows) auto

lemma find_payment_own: "find_payment pid m d = select_one (\<lambda>p. pi_id p = pid) (tv_payments (tenant_rows m d))"
  by (simp add: find_payment_def tenant_rows_def own_payments_def Let_def select_one_conj)

lemma list_payments_own:
  "list_payments m st limit offset d =
     (let own = filter (listed m st) (tv_payments (tenant_rows m d)) in
      (take limit (drop offset (sort_key (\<lambda>p. - pi_created_at p) own)), length own))"
proof -
  have "filter (listed m st) (payment_intents d) = filter (listed m st) (own_payments m d)"
    unfolding own_payments_def by (rule filter_own) (simp add: listed_def)
  then show ?thesis by (simp add: list_payments_def list_rows_def select_count_def tenant_rows_def Let_def)
qed

lemma filter_attached: "i \<in> I \<Longrightarrow> filter (\<lambda>r. k r = i) (filter (\<lambda>r. k r \<in> I) rows) = filter (\<lambda>r. k r = i) rows"
  by (induction rows) auto

lemma attached_rows:
  assumes "i \<in> pi_id ` set (tv_payments (tenant_rows m d))"
  shows "filter (\<lambda>e. pe_payment_intent_id e = i) (payment_events d) = filter (\<lambda>e. pe_payment_intent_id e = i) (tv_events (tenant_rows m d))"
    and "filter (\<lambda>a. pa_payment_intent_id a = i) (payment_attempts d) = filter (\<lambda>a. pa_payment_intent_id a = i) (tv_attempts (tenant_rows m d))"
    and "filter (\<lambda>r. rf_payment_intent_id r = i) (refunds d) = filter (\<lambda>r. rf_payment_intent_id r = i) (tv_refunds (tenant_rows m d))"
    and "filter (\<lambda>e. le_payment_intent_id e = i) (ledger_entries d) = filter (\<lambda>e. le_payment_intent_id e = i) (tv_entries (tenant_rows m d))"
proof -
  have i: "i \<in> pi_id ` set (own_payments m d)" using assms by (simp add: tenant_rows_def Let_def)
  note rows = tenant_rows_def Let_def tenant_view.simps filter_attached [OF i]
  show "filter (\<lambda>e. pe_payment_intent_id e = i) (payment_events d) = filter (\<lambda>e. pe_payment_intent_id e = i) (tv_events (tenant_rows m d))"
    by (simp only: rows)
  show "filter (\<lambda>a. pa_payment_intent_id a = i) (payment_attempts d) = filter (\<lambda>a. pa_payment_intent_id a = i) (tv_attempts (tenant_rows m d))"
    by (simp only: rows)
  show "filter (\<lambda>r. rf_payment_intent_id r = i) (refunds d) = filter (\<lambda>r. rf_payment_intent_id r = i) (tv_refunds (tenant_rows m d))"
    by (simp only: rows)
  show "filter (\<lambda>e. le_payment_intent_id e = i) (ledger_entries d) = filter (\<lambda>e. le_payment_intent_id e = i) (tv_entries (tenant_rows m d))"
    by (simp only: rows)
qed

lemma find_refund_own: "find_refund rid m d = select_one (\<lambda>r. rf_id r = rid) (tv_refunds (tenant_rows m d))"
proof -
  have "(\<exists>p \<in> set (payment_intents d). rf_payment_intent_id r = pi_id p \<and> pi_merchant_id p = m) \<longleftrightarrow>
      rf_payment_intent_id r \<in> pi_id ` set (own_payments m d)" for r :: refund
    by (auto simp: own_payments_def)
  then show ?thesis by (simp only: find_refund_def tenant_rows_def Let_def tenant_view.simps select_one_conj)
qed

definition summary_of_rows :: "uuid \<Rightarrow> tenant_view \<Rightarrow> dashboard_summary" where
  "summary_of_rows m v = get_dashboard_summary m ((empty_db 0)\<lparr>payment_intents := tv_payments v, refunds := tv_refunds v\<rparr>)"

lemma dashboard_own: "get_dashboard_summary m d = summary_of_rows m (tenant_rows m d)"
proof -
  let ?v = "tenant_rows m d"
  let ?d = "(empty_db 0)\<lparr>payment_intents := tv_payments ?v, refunds := tv_refunds ?v\<rparr>"
  have own: "filter (\<lambda>p. pi_merchant_id p = m) (payment_intents ?d) = filter (\<lambda>p. pi_merchant_id p = m) (payment_intents d)"
    by (simp add: tenant_rows_def own_payments_def Let_def)
  have "refunded_amount (pi_id p) ?d = refunded_amount (pi_id p) d"
    if "p \<in> set (filter (\<lambda>p. pi_merchant_id p = m) (payment_intents d))" for p
  proof -
    have "pi_id p \<in> pi_id ` set (tv_payments ?v)" using that by (simp add: tenant_rows_def own_payments_def Let_def)
    from attached_rows(3) [OF this] show ?thesis by (simp add: refunded_amount_def select_sum_conj)
  qed
  then have "total_refunded m ?d = total_refunded m d"
    unfolding total_refunded_split own by (intro arg_cong [where f = sum_list] map_cong) simp_all
  moreover have "counts_by_status m ?d = counts_by_status m d" unfolding counts_by_status_def own ..
  moreover have "select_sum pi_amount_minor (\<lambda>p. pi_merchant_id p = m \<and> pi_status p = SUCCEEDED) (payment_intents ?d) =
      select_sum pi_amount_minor (\<lambda>p. pi_merchant_id p = m \<and> pi_status p = SUCCEEDED) (payment_intents d)"
    unfolding select_sum_conj own ..
  ultimately show ?thesis unfolding summary_of_rows_def get_dashboard_summary_def Let_def by simp
qed

section \<open>Isolation\<close>

datatype read_request =
    ListPayments "string option" nat nat
  | GetPayment uuid
  | GetPaymentDetail uuid
  | GetRefund uuid
  | DashboardSummary

fun read_endpoint :: "read_request \<Rightarrow> merchant \<Rightarrow> ('p, json) prog" where
  "read_endpoint (ListPayments st limit offset) = list_payments_endpoint st limit offset"
| "read_endpoint (GetPayment pid) = get_payment_endpoint pid"
| "read_endpoint (GetPaymentDetail pid) = get_payment_detail_endpoint pid"
| "read_endpoint (GetRefund rid) = get_refund_endpoint rid"
| "read_endpoint DashboardSummary = get_dashboard_summary_endpoint"

lemma found_payment:
  "find_payment pid m d = Some r \<Longrightarrow> pi_id r \<in> pi_id ` set (tv_payments (tenant_rows m d))"
  unfolding find_payment_own by (auto dest: select_one_Some)

lemma working_open: "working (open_session d p) = d"
  by (simp add: open_session_def)

lemma get_payment_runs:
  "get_payment m pid (open_session d p) =
     (case find_payment pid m d of
        None \<Rightarrow> (Inl (payment_not_found pid), open_session d p)
      | Some r \<Rightarrow> (Inr r, (open_session d p)\<lparr>identity_map := [pi_id r \<mapsto> r]\<rparr>))"
  by (simp add: get_payment_def prog_defs open_session_def materialise_def split: option.splits)

lemma detail_runs:
  "get_payment_detail m pid (open_session d p) =
     (case find_payment pid m d of
        None \<Rightarrow> (Inl (payment_not_found pid), open_session d p)
      | Some r \<Rightarrow> (Inr (serialize_payment r @
          [(''events'', JArr (map (JObj \<circ> serialize_payment_event)
              (sort_key pe_created_at (filter (\<lambda>e. pe_payment_intent_id e = pi_id r) (payment_events d))))),
           (''attempts'', JArr (map (JObj \<circ> serialize_payment_attempt)
              (sort_key pa_attempt_number (filter (\<lambda>a. pa_payment_intent_id a = pi_id r) (payment_attempts d))))),
           (''refunds'', JArr (map (JObj \<circ> serialize_refund)
              (sort_key rf_created_at (filter (\<lambda>r'. rf_payment_intent_id r' = pi_id r) (refunds d))))),
           (''ledger_entries'', JArr (map (JObj \<circ> serialize_ledger_entry)
              (sort_key le_created_at (filter (\<lambda>e. le_payment_intent_id e = pi_id r) (ledger_entries d)))))]),
         (open_session d p)\<lparr>identity_map := [pi_id r \<mapsto> r]\<rparr>))"
  by (simp add: get_payment_detail_def bnd_def get_payment_runs query_def ret_def working_open split: option.splits)

text \<open>C24. Tenants are isolated on every reading endpoint: whatever else the database holds, and
  however it differs, a merchant gets the same answer as long as its own payments and the
  records attached to them are the same.\<close>

theorem tenants_are_isolated:
  assumes "tenant_rows (m_id merchant) d = tenant_rows (m_id merchant) d'"
  shows "fst (read_endpoint rq merchant (open_session d p)) = fst (read_endpoint rq merchant (open_session d' p'))"
proof (cases rq)
  case (ListPayments st limit offset)
  then show ?thesis
    by (simp add: list_payments_endpoint_def prog_defs open_session_def list_payments_own assms case_prod_beta Let_def)
next
  case (GetPayment pid)
  then show ?thesis
    by (simp add: get_payment_endpoint_def bnd_def ret_def get_payment_runs find_payment_own assms split: option.splits)
next
  case (GetPaymentDetail pid)
  have f: "find_payment pid (m_id merchant) d = find_payment pid (m_id merchant) d'" by (simp add: find_payment_own assms)
  show ?thesis
  proof (cases "find_payment pid (m_id merchant) d'")
    case None
    with GetPaymentDetail f show ?thesis by (simp add: get_payment_detail_endpoint_def bnd_def detail_runs)
  next
    case (Some r)
    note own' = attached_rows [OF found_payment [OF Some]] and own = attached_rows [OF found_payment [OF trans [OF f Some]], unfolded assms]
    from GetPaymentDetail f Some show ?thesis
      by (simp add: get_payment_detail_endpoint_def bnd_def ret_def detail_runs own own')
  qed
next
  case (GetRefund rid)
  then show ?thesis
    by (simp add: get_refund_endpoint_def get_refund_def prog_defs open_session_def find_refund_own assms split: option.splits)
next
  case DashboardSummary
  then show ?thesis
    by (simp add: get_dashboard_summary_endpoint_def prog_defs open_session_def dashboard_own assms)
qed

text \<open>The database of the demonstration run, and the same with another merchant's payment in it.\<close>

definition demo_shared :: db where
  "demo_shared = (fst demo_refunded)\<lparr>payment_intents := payment_intents (fst demo_refunded) @
     [demo_payment\<lparr>pi_id := 40, pi_merchant_id := 8\<rparr>]\<rparr>"

theorem tenants_are_isolated_witness:
  "fst (read_endpoint DashboardSummary demo_merchant (open_session (fst demo_refunded) ())) =
   fst (read_endpoint DashboardSummary demo_merchant (open_session demo_shared ()))"
  by (rule tenants_are_isolated) (simp add: tenant_rows_def own_payments_def demo_shared_def demo_merchant_def)

end
