(* ===== verification/Failures.thy ===== *)
theory Failures
  imports Api
begin

text \<open>
  How requests fail. The domain errors the endpoints can raise are among the codes
  \<open>apps/api/errors.py\<close> lists, so each gets the status meant for it; what the guards refuse has no
  effect; and some input the schemas let through is refused by the database only.
\<close>

named_theorems raises_rules \<open>what a program can raise\<close>

section \<open>What a program can raise\<close>

definition raises :: "(exn \<Rightarrow> bool) \<Rightarrow> ('p, 'a) prog \<Rightarrow> bool" where
  "raises R m \<longleftrightarrow> (\<forall>s e s'. m s = (Inl e, s') \<longrightarrow> R e)"

lemma raises_ret [raises_rules]: "raises R (ret x)"
  by (simp add: raises_def ret_def)

lemma raises_raise [raises_rules]: "R e \<Longrightarrow> raises R (raise e)"
  by (simp add: raises_def raise_def)

lemma raises_lift [raises_rules]: "(\<And>e. r = Inl e \<Longrightarrow> R e) \<Longrightarrow> raises R (lift_result r)"
  by (simp add: raises_def lift_result_def)

lemma raises_statements [raises_rules]:
  "raises R (query f)" "raises R (execute g)" "raises R (execute_returning h)" "raises R commit" "raises R rollback"
  "raises R (inc n)" "raises R (materialise row)" "raises R (remember i)"
  by (auto simp: raises_def query_def execute_def execute_returning_def commit_def rollback_def inc_def materialise_def
      remember_def Let_def split: prod.splits)

lemma raises_checked [raises_rules]: "(\<And>d e. f d = Inl e \<Longrightarrow> R e) \<Longrightarrow> raises R (execute_checked f)"
  by (auto simp: raises_def execute_checked_def split: sum.splits prod.splits)

lemma raises_call [raises_rules]: "(\<And>p e p'. c p = (Inl e, p') \<Longrightarrow> R e) \<Longrightarrow> raises R (call_provider c)"
  by (auto simp: raises_def call_provider_def split: prod.splits)

lemma raises_assert [raises_rules]: "R AssertionError \<Longrightarrow> raises R (assert_that b)"
  by (simp add: raises_def assert_that_def ret_def raise_def)

lemma raises_bnd [raises_rules]: "raises R m \<Longrightarrow> (\<And>x. raises R (f x)) \<Longrightarrow> raises R (bnd m f)"
  unfolding raises_def bnd_def by (auto split: prod.splits sum.splits)

lemma raises_andthen [raises_rules]: "raises R m \<Longrightarrow> raises R k \<Longrightarrow> raises R (andthen m k)"
  unfolding andthen_def by (rule raises_bnd)

lemma raises_try [raises_rules]:
  "raises R m \<Longrightarrow> (\<And>e. R e \<Longrightarrow> raises R (h e)) \<Longrightarrow> raises R (try_except m h)"
  unfolding raises_def try_except_def by (fastforce split: prod.splits sum.splits)

lemma raises_cases [raises_rules]:
  "(b \<Longrightarrow> raises R m) \<Longrightarrow> (\<not> b \<Longrightarrow> raises R k) \<Longrightarrow> raises R (if b then m else k)"
  "raises R m \<Longrightarrow> (\<And>y. raises R (f y)) \<Longrightarrow> raises R (case x of None \<Rightarrow> m | Some y \<Rightarrow> f y)"
  "(\<And>a b. raises R (g a b)) \<Longrightarrow> raises R (case z of (a, b) \<Rightarrow> g a b)"
  "raises R (l v) \<Longrightarrow> raises R (Let v l)"
  by (auto split: option.splits prod.splits)

section \<open>The errors of the payment services\<close>

text \<open>The domain errors the services and their endpoints raise themselves. Other exceptions (of the
  driver, of a provider) are not domain errors.\<close>

definition SERVICE_CODES :: "string list" where
  "SERVICE_CODES = [''IDEMPOTENCY_KEY_REQUIRED'', ''IDEMPOTENCY_KEY_REUSED'', ''REQUEST_IN_PROGRESS'',
     ''PAYMENT_NOT_FOUND'', ''INVALID_STATE_TRANSITION'', ''REFUND_EXCEEDS_PAYMENT'']"

definition service_error :: "exn \<Rightarrow> bool" where
  "service_error e \<longleftrightarrow> (case e of PayGuardError code msg \<Rightarrow> code \<in> set SERVICE_CODES | _ \<Rightarrow> True)"

text \<open>What a provider promises: its calls do not raise the domain's errors.\<close>

definition provider_raises_no_domain_error :: "'p provider \<Rightarrow> bool" where
  "provider_raises_no_domain_error P \<longleftrightarrow>
     (\<forall>rq p c m. fst (prov_authorize P rq p) \<noteq> Inl (PayGuardError c m)) \<and>
     (\<forall>t a p c m. fst (prov_capture P t a p) \<noteq> Inl (PayGuardError c m)) \<and>
     (\<forall>t a k p c m. fst (prov_refund P t a k p) \<noteq> Inl (PayGuardError c m))"

lemma provider_service_error:
  assumes "provider_raises_no_domain_error P"
  shows "prov_authorize P rq p = (Inl e, p') \<Longrightarrow> service_error e" "prov_capture P t a p = (Inl e, p') \<Longrightarrow> service_error e"
    "prov_refund P t a k p = (Inl e, p') \<Longrightarrow> service_error e"
  using assms unfolding provider_raises_no_domain_error_def
  by (cases e; simp add: service_error_def; metis fst_conv)+

lemma service_error_simps [simp]:
  "service_error (InvalidStateTransition src tgt act)" "service_error (IntegrityError n)" "service_error DataError"
  "service_error NoResultFound" "service_error AssertionError"
  by (simp_all add: service_error_def)

lemma service_error_codes [simp]:
  "service_error (PayGuardError ''IDEMPOTENCY_KEY_REUSED'' m)" "service_error (PayGuardError ''REQUEST_IN_PROGRESS'' m)"
  "service_error (PayGuardError ''INVALID_STATE_TRANSITION'' m)" "service_error (PayGuardError ''REFUND_EXCEEDS_PAYMENT'' m)"
  "service_error (PayGuardError ''IDEMPOTENCY_KEY_REQUIRED'' m)" "service_error (payment_not_found pid)"
  by (simp_all add: service_error_def SERVICE_CODES_def payment_not_found_def)

lemma service_error_inserts:
  "created_rows rq d = Inl e \<Longrightarrow> service_error e" "insert_payment_attempt p n oc cl k d = Inl e \<Longrightarrow> service_error e"
  "insert_provider_transaction aid n ptx st rr d = Inl e \<Longrightarrow> service_error e" "insert_refund p amt d = Inl e \<Longrightarrow> service_error e"
  "add_pair build amt d = Inl e \<Longrightarrow> service_error e" "validate_payment_transition src tgt act = Inl e \<Longrightarrow> service_error e"
  by (auto simp: created_rows_def insert_payment_intent_def insert_payment_attempt_def insert_provider_transaction_def
      insert_refund_def add_pair_def validate_payment_transition_def Let_def split: if_splits prod.splits)

lemma service_transition [raises_rules]: "raises service_error (apply_transition i t a ev)"
  unfolding apply_transition_def by (intro raises_rules) (simp_all add: service_error_inserts)

lemma service_ledger [raises_rules]:
  "raises service_error (record_payment_settled p a)" "raises service_error (record_refund_settled p a)"
  unfolding record_payment_settled_def record_refund_settled_def by (auto intro!: raises_rules simp: service_error_inserts)

lemma service_lock [raises_rules]: "raises service_error (lock_payment p m)" "raises service_error (relock p m)"
  unfolding relock_def lock_payment_def by (intro raises_rules; simp)+

lemma service_respond [raises_rules]: "raises service_error (respond k p r st body)"
  unfolding respond_def complete_idempotency_key_def by (intro raises_rules) simp_all

lemma service_claim [raises_rules]: "raises service_error (claim_idempotency_key ws m k f st)"
  unfolding claim_idempotency_key_def by (intro raises_rules) simp_all

lemma service_on_claim:
  "(\<And>k. raises service_error (body k)) \<Longrightarrow> raises service_error (on_claim c body)"
  unfolding on_claim_def fail_claim_and_raise_def fail_idempotency_key_def by (intro raises_rules) simp_all

lemmas service_facts = provider_service_error service_error_inserts

lemma service_create:
  "provider_raises_no_domain_error P \<Longrightarrow> raises service_error (create_payment sha256hex P rq)"
  unfolding create_payment_def create_payment_claimed_def create_intent_def start_processing_def assess_and_audit_def
    block_payment_def record_authorization_def record_attempt_def
  by (intro raises_rules service_on_claim) (auto dest: service_facts)

lemma service_capture:
  "provider_raises_no_domain_error P \<Longrightarrow> raises service_error (capture_payment sha256hex P m pid k body)"
  unfolding capture_payment_def capture_claimed_def capture_locked_def
  by (intro raises_rules service_on_claim) (auto dest: service_facts)

lemma service_refund:
  "provider_raises_no_domain_error P \<Longrightarrow> raises service_error (refund_payment sha256hex P m pid k body amt)"
  unfolding refund_payment_def refund_claimed_def reserve_refund_def reserve_locked_def settle_refund_def
    settle_refund_row_def settle_payment_status_def
  by (intro raises_rules service_on_claim) (auto dest: service_facts)

section \<open>The endpoints that move money\<close>

datatype mutation =
    PostPayment payment_create_request "string option" string "string option"
  | PostCapture uuid "string option" string
  | PostRefund uuid int "string option" string

fun mutation_endpoint :: "(string \<Rightarrow> string) \<Rightarrow> 'p provider \<Rightarrow> mutation \<Rightarrow> merchant \<Rightarrow> ('p, response) prog" where
  "mutation_endpoint sha256hex P (PostPayment payload key body host) = create_payment_endpoint sha256hex P payload key body host"
| "mutation_endpoint sha256hex P (PostCapture pid key body) = capture_payment_endpoint sha256hex P pid key body"
| "mutation_endpoint sha256hex P (PostRefund pid amount key body) = create_refund_endpoint sha256hex P pid amount key body"

lemma service_endpoint:
  "provider_raises_no_domain_error P \<Longrightarrow> raises service_error (mutation_endpoint sha256hex P mu merchant)"
  by (cases mu)
    (auto simp: create_payment_endpoint_def capture_payment_endpoint_def create_refund_endpoint_def require_idempotency_key_def
      intro!: raises_rules service_create service_capture service_refund split: if_splits)

lemma authentication_frame: "snd (get_current_merchant sha256hex a s) = s"
  by (auto simp: get_current_merchant_def prog_defs Let_def split: option.splits sum.splits)

lemma authentication_errors:
  "fst (get_current_merchant sha256hex a s) = Inl e \<Longrightarrow> e = MultipleResultsFound \<or> (\<exists>msg. e = unauthorized msg)"
  by (auto simp: get_current_merchant_def prog_defs Let_def scalar_one_or_none_def split: option.splits sum.splits list.splits if_splits)

lemma check_errors:
  "check_rate_limit pf env t sv m c r store = (Inl e, store') \<Longrightarrow> e = ValueError \<or> (\<exists>msg. e = ResponseError msg)"
  by (auto simp: check_rate_limit_def default_capacity_def default_refill_per_second_def token_bucket_script_def Let_def
      split: option.splits sum.splits if_splits)

text \<open>What a guarded request does, guard by guard.\<close>

lemma rate_limited_run:
  "rate_limited sha256hex rc a endpoint store s =
     (case fst (get_current_merchant sha256hex a s) of
        Inl e \<Rightarrow> (Inl e, s, store)
      | Inr m \<Rightarrow>
          (case check_rate_limit (rc_float rc) (rc_environ rc) (rc_time rc) (rc_server rc) (m_id m) None None store of
             (Inl e, store') \<Rightarrow> (Inl e, s, store')
           | (Inr ok, store') \<Rightarrow>
               if ok then (fst (endpoint m s), snd (endpoint m s), store')
               else (Inl (PayGuardError ''RATE_LIMITED'' ''Too many requests. Please try again shortly.''),
                     s\<lparr>metrics := metrics s @ [''rate_limit_rejections_total'']\<rparr>, store')))"
proof -
  obtain r where r: "get_current_merchant sha256hex a s = (r, s)" using authentication_frame [of sha256hex a s] by (metis prod.collapse)
  show ?thesis
    by (simp add: rate_limited_def r enforce_rate_limit_def prog_defs case_prod_beta split: sum.splits prod.splits)
qed

section \<open>Properties\<close>

text \<open>A refusal with a domain error comes from a guard, with nothing but the refusal counted, or from
  the endpoint.\<close>

lemma refusal_cases:
  assumes "rate_limited sha256hex rc a endpoint store s = (Inl (PayGuardError code msg), s', store')"
  obtains (auth) "code = ''UNAUTHORIZED''" "s' = s" "store' = store"
    | (limit) "code = ''RATE_LIMITED''" "s' = s\<lparr>metrics := metrics s @ [''rate_limit_rejections_total'']\<rparr>"
    | (endpoint) m where "endpoint m s = (Inl (PayGuardError code msg), s')"
proof (cases "fst (get_current_merchant sha256hex a s)")
  case (Inl e)
  with assms auth authentication_errors [OF Inl] show ?thesis by (auto simp: rate_limited_run unauthorized_def)
next
  case (Inr m)
  obtain checked st where c: "check_rate_limit (rc_float rc) (rc_environ rc) (rc_time rc) (rc_server rc) (m_id m) None None store = (checked, st)"
    by fastforce
  show ?thesis
  proof (cases checked)
    case (Inl e)
    with assms Inr c check_errors [OF c [unfolded Inl]] show ?thesis by (auto simp: rate_limited_run)
  next
    case (Inr ok)
    with assms \<open>fst (get_current_merchant sha256hex a s) = Inr m\<close> c limit endpoint [of m] show ?thesis
      by (cases ok; cases "endpoint m s") (auto simp: rate_limited_run)
  qed
qed

text \<open>C25. A request to create, capture or refund a payment that is refused as unauthorised or over the
  limit has had no effect: no row of the database has changed, in the transaction or committed, and
  the provider was not called; a refusal for missing credentials does not touch the rate limiter.\<close>

theorem refused_requests_change_nothing:
  assumes "provider_raises_no_domain_error P"
    and "rate_limited sha256hex rc a (mutation_endpoint sha256hex P mu) store s = (Inl (PayGuardError code msg), s', store')"
    and "code \<in> {''UNAUTHORIZED'', ''RATE_LIMITED''}"
  shows "working s' = working s \<and> committed s' = committed s \<and> prov_state s' = prov_state s \<and>
    (code = ''UNAUTHORIZED'' \<longrightarrow> store' = store)"
  using assms(2)
proof (cases rule: refusal_cases)
  case (endpoint m)
  then have "service_error (PayGuardError code msg)"
    using service_endpoint [OF assms(1), of sha256hex mu m] unfolding raises_def by blast
  with assms(3) show ?thesis by (auto simp: service_error_def SERVICE_CODES_def)
qed simp_all

text \<open>Every domain error that creating, capturing or refunding a payment can end in has its own
  entry in the table of HTTP statuses; the fallback to 400 is never used.\<close>

theorem failures_have_their_status:
  assumes "provider_raises_no_domain_error P"
    and "rate_limited sha256hex rc a (mutation_endpoint sha256hex P mu) store s = (Inl (PayGuardError code msg), s', store')"
  shows "\<exists>st. map_of STATUS_BY_CODE code = Some st \<and>
    payguard_error_handler rid (PayGuardError code msg) = Some (error_response rid code msg st)"
proof -
  have "code \<in> set (''UNAUTHORIZED'' # ''RATE_LIMITED'' # SERVICE_CODES)"
    using assms(2)
  proof (cases rule: refusal_cases)
    case (endpoint m)
    then have "service_error (PayGuardError code msg)"
      using service_endpoint [OF assms(1), of sha256hex mu m] unfolding raises_def by blast
    then show ?thesis by (simp add: service_error_def)
  qed simp_all
  then have "map_of STATUS_BY_CODE code \<noteq> None" by (auto simp: STATUS_BY_CODE_def SERVICE_CODES_def)
  then show ?thesis by (auto simp: payguard_error_handler_def)
qed

lemma mock_raises_no_domain_error: "provider_raises_no_domain_error (MockProvider u)"
  by (auto simp: provider_raises_no_domain_error_def MockProvider_def mock_authorize_def mock_capture_def mock_refund_def Let_def
      split: prod.splits option.splits if_splits)

definition demo_context :: request_context where
  "demo_context = \<lparr>rc_environ = (\<lambda>_. None), rc_float = demo_float, rc_time = 1700000000, rc_server = 1700000000\<rparr>"

lemma demo_refusal:
  "rate_limited sha256hex demo_context (Some ''Basic sk_test_b'') endpoint store s =
     (Inl (PayGuardError ''UNAUTHORIZED'' ''Missing or malformed Authorization header.''), s, store)"
  by (simp add: rate_limited_def get_current_merchant_def bearer_key_def starts_with_def raise_def unauthorized_def)

theorem refused_requests_change_nothing_witness:
  "working (fst (snd (rate_limited (\<lambda>k. k) demo_context (Some ''Basic sk_test_b'')
     (mutation_endpoint (\<lambda>k. k) (MockProvider (\<lambda>n. n)) (PostCapture 2 (Some ''k2'') ''{}'')) (\<lambda>_. None) (open_session demo_merchants mock_init)))) =
   demo_merchants"
  using refused_requests_change_nothing [where sha256hex = "\<lambda>k. k" and P = "MockProvider (\<lambda>n. n)" and mu = "PostCapture 2 (Some ''k2'') ''{}''"
      and store = "\<lambda>_. None" and s = "open_session demo_merchants mock_init", OF mock_raises_no_domain_error demo_refusal]
  by (simp add: demo_refusal open_session_def)

theorem failures_have_their_status_witness:
  "\<exists>st. map_of STATUS_BY_CODE ''UNAUTHORIZED'' = Some st \<and>
    payguard_error_handler None (PayGuardError ''UNAUTHORIZED'' ''Missing or malformed Authorization header.'') =
      Some (error_response None ''UNAUTHORIZED'' ''Missing or malformed Authorization header.'' st)"
  by (rule failures_have_their_status [where sha256hex = "\<lambda>k. k" and P = "MockProvider (\<lambda>n. n)" and mu = "PostCapture 2 (Some ''k2'') ''{}''"
      and store = "\<lambda>_. None" and s = "open_session demo_merchants mock_init", OF mock_raises_no_domain_error demo_refusal])

lemma webhook_stored:
  "(case receive_webhook pn eid ty pl sg s of (Inl e, s') \<Rightarrow> g e s' | (Inr x, s') \<Rightarrow> f x s') =
   f () (snd (receive_webhook pn eid ty pl sg s))"
  by (simp add: receive_webhook_def prog_defs case_prod_beta split: option.splits)

text \<open>C32. The webhook endpoint acknowledges a delivery exactly when the secret is configured, the
  signature over the raw body is valid, and the body is a JSON object whose id and type are
  texts that are not empty; a delivery it does not acknowledge leaves the session as it was.\<close>

theorem webhook_acknowledged_iff:
  "(fst (receive_provider_webhook hmac json_loads environ now_s signature timestamp body s) \<in> range Inr \<longleftrightarrow>
      (\<exists>secret parsed eid ty. webhook_secret environ = Inr secret \<and>
        verify_webhook_signature hmac secret timestamp signature body DEFAULT_TOLERANCE_SECONDS now_s = Inr () \<and>
        json_loads body = Inr (JObj parsed) \<and> dict_get parsed ''id'' = Some (JStr eid) \<and> eid \<noteq> [] \<and>
        dict_get parsed ''type'' = Some (JStr ty) \<and> ty \<noteq> [])) \<and>
   (fst (receive_provider_webhook hmac json_loads environ now_s signature timestamp body s) \<in> range Inr \<or>
      snd (receive_provider_webhook hmac json_loads environ now_s signature timestamp body s) = s)"
proof -
  let ?out = "receive_provider_webhook hmac json_loads environ now_s signature timestamp body s"
  note run = receive_provider_webhook_def bnd_def andthen_def lift_result_def raise_def ret_def
  show ?thesis
  proof (cases "webhook_secret environ")
    case (Inr secret)
    note sec = Inr
    show ?thesis
    proof (cases "verify_webhook_signature hmac secret timestamp signature body DEFAULT_TOLERANCE_SECONDS now_s")
      case (Inr u)
      note ver = sec Inr
      show ?thesis
      proof (cases "json_loads body")
        case (Inr j)
        then show ?thesis
        proof (cases j)
          case (JObj parsed)
          note obj = ver Inr [unfolded JObj]
          have "fst ?out \<in> range Inr \<longleftrightarrow> (\<exists>eid ty. dict_get parsed ''id'' = Some (JStr eid) \<and> eid \<noteq> [] \<and>
              dict_get parsed ''type'' = Some (JStr ty) \<and> ty \<noteq> [])"
            and "fst ?out \<in> range Inr \<or> snd ?out = s"
            by (auto simp: run obj webhook_stored split: option.splits json.splits prod.splits if_splits)
          with obj show ?thesis by auto
        qed (auto simp: run ver)
      qed (auto simp: run ver)
    qed (auto simp: run sec)
  qed (auto simp: run)
qed

lemma failed_claim_raises: "fst (fail_claim_and_raise k e s) = Inl e"
  by (simp add: fail_claim_and_raise_def fail_idempotency_key_def prog_defs split: option.splits)

text \<open>A new request whose INSERT the database refuses ends in the driver's error.\<close>

lemma create_rejected:
  assumes "idempotency_keys (working s) = []" and "\<And>d. created_rows rq d = Inl e"
  shows "fst (create_payment sha256hex P rq s) = Inl e"
proof -
  have "create_payment_claimed P rq k s' = (Inl e, s')" for k s'
    by (simp add: create_payment_claimed_def create_intent_def bnd_def execute_checked_def assms(2))
  then have "fst (try_except (create_payment_claimed P rq k) (fail_claim_and_raise k) s') = Inl e" for k s'
    by (simp add: try_except_def failed_claim_raises)
  then show ?thesis using assms(1)
    by (simp add: create_payment_def claim_idempotency_key_def claim_rows_undisturbed insert_claim_def on_claim_def
        andthen_def bnd_def inc_def execute_returning_def ret_def Let_def)
qed

text \<open>Amounts and currencies the schema accepts and a column does not.\<close>

definition umlaut_payment :: payment_create_request where
  "umlaut_payment = \<lparr>pc_amount = 1000, pc_currency = [CHR 0xC4, CHR 0xD6, CHR 0xDC], pc_merchant_reference = None,
     pc_method_type = ''token'', pc_method_token = ''tok'', pc_billing_country = None, pc_shipping_country = None, pc_customer_ip = None\<rparr>"

definition huge_payment :: payment_create_request where
  "huge_payment = umlaut_payment\<lparr>pc_amount := 2 ^ 63, pc_currency := ''USD''\<rparr>"

text \<open>Two payment requests pass the schema, a currency of capital letters outside A to Z and an
  amount of 2 to the 63, and are refused only by the database, with exceptions no handler is
  installed for: the client gets the server's generic failure instead of INVALID_REQUEST.\<close>

theorem schema_admits_what_the_database_refuses:
  "valid_payment_create umlaut_payment \<and> valid_payment_create huge_payment \<and>
   fst (create_payment_endpoint sha256hex P umlaut_payment (Some ''k1'') body host merchant (open_session ((empty_db t)\<lparr>merchants := ms\<rparr>) p)) =
     Inl (IntegrityError ''ck_payment_intents_currency_iso4217'') \<and>
   fst (create_payment_endpoint sha256hex P huge_payment (Some ''k1'') body host merchant (open_session ((empty_db t)\<lparr>merchants := ms\<rparr>) p)) =
     Inl DataError \<and>
   payguard_error_handler rid (IntegrityError ''ck_payment_intents_currency_iso4217'') = None \<and> payguard_error_handler rid DataError = None"
proof -
  note defs = created_rows_def insert_payment_intent_def bigint_def iso4217_shaped_def umlaut_payment_def huge_payment_def
  have v: "valid_payment_create umlaut_payment" "valid_payment_create huge_payment"
    by (simp_all add: valid_payment_create_def umlaut_payment_def huge_payment_def currency_must_be_iso4217_shaped_def
        char_isalpha_def char_upper_fixed_def Let_def)
  have "fst (create_payment_endpoint sha256hex P umlaut_payment (Some ''k1'') body host merchant (open_session ((empty_db t)\<lparr>merchants := ms\<rparr>) p)) =
      Inl (IntegrityError ''ck_payment_intents_currency_iso4217'')"
    unfolding create_payment_endpoint_def require_idempotency_key_def bnd_def lift_result_def
    by (simp add: truthy_def, intro conjI impI create_rejected) (simp_all add: open_session_def empty_db_def defs)
  moreover have "fst (create_payment_endpoint sha256hex P huge_payment (Some ''k1'') body host merchant (open_session ((empty_db t)\<lparr>merchants := ms\<rparr>) p)) =
      Inl DataError"
    unfolding create_payment_endpoint_def require_idempotency_key_def bnd_def lift_result_def
    by (simp add: truthy_def, intro conjI impI create_rejected) (simp_all add: open_session_def empty_db_def defs)
  ultimately show ?thesis using v by (simp add: payguard_error_handler_def)
qed

end
