(* ===== verification/Migrations.thy ===== *)
theory Migrations
  imports Merchants
begin

text \<open>
  The schema as data. The Alembic revisions under \<open>packages/database/migrations/versions\<close> are lists
  of DDL statements, run by an interpreter that refuses what Postgres refuses (a second table of
  a name, a reference to a missing column, dropping a table that is referred to); the classes of
  \<open>packages/database/models.py\<close> are table declarations. What the revisions build is compared with
  what the models declare, and every revision with its own downgrade.
\<close>

section \<open>Tables\<close>

datatype sql_type = SqlUUID | SqlString "nat option" | SqlInteger | SqlBigInteger | SqlJSONB | SqlTimestamptz

text \<open>Name, type, nullable, and whether the server defaults it to \<open>now()\<close>.\<close>

datatype column = Column (col_name: string) sql_type bool bool

text \<open>A CHECK is its name and text; a foreign key its column and the column it refers to.\<close>

datatype constr =
    Check string string
  | PrimaryKey "string list"
  | Unique "string option" "string list"
  | ForeignKey string string string

record table =
  tb_columns :: "column list"
  tb_constraints :: "constr list"
  tb_indexes :: "(string \<times> string list) list"
  tb_triggers :: "(string \<times> string \<times> string) list"

record schema =
  sc_tables :: "(string \<times> table) list"
  sc_functions :: "string list"

definition empty_schema :: schema where
  "empty_schema = \<lparr>sc_tables = [], sc_functions = []\<rparr>"

definition has_columns :: "string list \<Rightarrow> table \<Rightarrow> bool" where
  "has_columns cs t \<longleftrightarrow> list_all (\<lambda>c. c \<in> set (map col_name (tb_columns t))) cs"

text \<open>Postgres names an unnamed unique constraint after its table and columns.\<close>

definition constr_name :: "string \<Rightarrow> constr \<Rightarrow> string option" where
  "constr_name tn c =
     (case c of
        Check n _ \<Rightarrow> Some n
      | Unique (Some n) _ \<Rightarrow> Some n
      | Unique None cs \<Rightarrow> Some (tn @ concat (map (\<lambda>c. ''_'' @ c) cs) @ ''_key'')
      | _ \<Rightarrow> None)"

fun constr_columns :: "constr \<Rightarrow> string list" where
  "constr_columns (Check n txt) = []"
| "constr_columns (PrimaryKey cs) = cs"
| "constr_columns (Unique n cs) = cs"
| "constr_columns (ForeignKey c t tc) = [c]"

fun refers_to :: "constr \<Rightarrow> (string \<times> string) option" where
  "refers_to (ForeignKey c t tc) = Some (t, tc)"
| "refers_to _ = None"

section \<open>Statements\<close>

datatype ddl =
    CreateTable string "column list" "constr list"
  | DropTable string
  | CreateIndex string string "string list"
  | DropIndex string string
  | AddColumn string column
  | DropColumn string string
  | AddConstraint string constr
  | DropConstraint string string
  | CreateFunction string
  | DropFunction string
  | CreateTrigger string string string string
  | DropTrigger string string

definition update_table :: "string \<Rightarrow> (table \<Rightarrow> table) \<Rightarrow> schema \<Rightarrow> schema" where
  "update_table tn f s = s\<lparr>sc_tables := map (\<lambda>(n, t). if n = tn then (n, f t) else (n, t)) (sc_tables s)\<rparr>"

text \<open>Whether a foreign key's target exists, in the schema or in the table being made.\<close>

definition target_exists :: "schema \<Rightarrow> string \<times> string \<Rightarrow> bool" where
  "target_exists s r \<longleftrightarrow>
     (case map_of (sc_tables s) (fst r) of None \<Rightarrow> False | Some t \<Rightarrow> has_columns [snd r] t)"

definition index_names :: "schema \<Rightarrow> string list" where
  "index_names s = concat (map (\<lambda>(n, t). map fst (tb_indexes t)) (sc_tables s))"

definition trigger_functions :: "schema \<Rightarrow> string list" where
  "trigger_functions s = concat (map (\<lambda>(n, t). map (snd \<circ> snd) (tb_triggers t)) (sc_tables s))"

definition referred_to :: "string \<Rightarrow> schema \<Rightarrow> bool" where
  "referred_to tn s \<longleftrightarrow>
     list_ex (\<lambda>(n, t). n \<noteq> tn \<and> list_ex (\<lambda>c. case refers_to c of None \<Rightarrow> False | Some (t', _) \<Rightarrow> t' = tn) (tb_constraints t)) (sc_tables s)"

text \<open>One statement; None is the server's error. The DROPs of triggers and functions are written
  with IF EXISTS.\<close>

fun run_ddl :: "ddl \<Rightarrow> schema \<Rightarrow> schema option" where
  "run_ddl (CreateTable n cols cons) s =
     (if map_of (sc_tables s) n \<noteq> None then None
      else
        let t = \<lparr>tb_columns = cols, tb_constraints = cons, tb_indexes = [], tb_triggers = []\<rparr> in
        if distinct (map col_name cols) \<and> list_all (\<lambda>c. has_columns (constr_columns c) t) cons \<and>
           list_all (\<lambda>c. case refers_to c of None \<Rightarrow> True | Some r \<Rightarrow> target_exists s r) cons
        then Some (s\<lparr>sc_tables := sc_tables s @ [(n, t)]\<rparr>) else None)"
| "run_ddl (DropTable n) s =
     (if map_of (sc_tables s) n = None \<or> referred_to n s then None
      else Some (s\<lparr>sc_tables := filter (\<lambda>(m, t). m \<noteq> n) (sc_tables s)\<rparr>))"
| "run_ddl (CreateIndex i tn cs) s =
     (case map_of (sc_tables s) tn of
        None \<Rightarrow> None
      | Some t \<Rightarrow> if i \<in> set (index_names s) \<or> \<not> has_columns cs t then None
                  else Some (update_table tn (\<lambda>t. t\<lparr>tb_indexes := tb_indexes t @ [(i, cs)]\<rparr>) s))"
| "run_ddl (DropIndex i tn) s =
     (case map_of (sc_tables s) tn of
        None \<Rightarrow> None
      | Some t \<Rightarrow> if i \<notin> set (map fst (tb_indexes t)) then None
                  else Some (update_table tn (\<lambda>t. t\<lparr>tb_indexes := filter (\<lambda>(n, cs). n \<noteq> i) (tb_indexes t)\<rparr>) s))"
| "run_ddl (AddColumn tn c) s =
     (case map_of (sc_tables s) tn of
        None \<Rightarrow> None
      | Some t \<Rightarrow> if has_columns [col_name c] t then None
                  else Some (update_table tn (\<lambda>t. t\<lparr>tb_columns := tb_columns t @ [c]\<rparr>) s))"
| "run_ddl (DropColumn tn c) s =
     (case map_of (sc_tables s) tn of
        None \<Rightarrow> None
      | Some t \<Rightarrow> if \<not> has_columns [c] t then None
                  else Some (update_table tn (\<lambda>t. t\<lparr>tb_columns := filter (\<lambda>x. col_name x \<noteq> c) (tb_columns t),
                    tb_constraints := filter (\<lambda>k. c \<notin> set (constr_columns k)) (tb_constraints t),
                    tb_indexes := filter (\<lambda>(n, cs). c \<notin> set cs) (tb_indexes t)\<rparr>) s))"
| "run_ddl (AddConstraint tn k) s =
     (case map_of (sc_tables s) tn of
        None \<Rightarrow> None
      | Some t \<Rightarrow> if has_columns (constr_columns k) t
                  then Some (update_table tn (\<lambda>t. t\<lparr>tb_constraints := tb_constraints t @ [k]\<rparr>) s) else None)"
| "run_ddl (DropConstraint tn n) s =
     (case map_of (sc_tables s) tn of
        None \<Rightarrow> None
      | Some t \<Rightarrow> if Some n \<notin> set (map (constr_name tn) (tb_constraints t)) then None
                  else Some (update_table tn (\<lambda>t. t\<lparr>tb_constraints := filter (\<lambda>k. constr_name tn k \<noteq> Some n) (tb_constraints t)\<rparr>) s))"
| "run_ddl (CreateFunction f) s = Some (s\<lparr>sc_functions := filter (\<lambda>g. g \<noteq> f) (sc_functions s) @ [f]\<rparr>)"
| "run_ddl (DropFunction f) s =
     (if f \<in> set (trigger_functions s) then None
      else Some (s\<lparr>sc_functions := filter (\<lambda>g. g \<noteq> f) (sc_functions s)\<rparr>))"
| "run_ddl (CreateTrigger g event tn f) s =
     (case map_of (sc_tables s) tn of
        None \<Rightarrow> None
      | Some t \<Rightarrow> if g \<in> set (map fst (tb_triggers t)) \<or> f \<notin> set (sc_functions s) then None
                  else Some (update_table tn (\<lambda>t. t\<lparr>tb_triggers := tb_triggers t @ [(g, event, f)]\<rparr>) s))"
| "run_ddl (DropTrigger g tn) s =
     Some (update_table tn (\<lambda>t. t\<lparr>tb_triggers := filter (\<lambda>(n, ev, f). n \<noteq> g) (tb_triggers t)\<rparr>) s)"

fun run_ddls :: "ddl list \<Rightarrow> schema \<Rightarrow> schema option" where
  "run_ddls [] s = Some s"
| "run_ddls (x # xs) s = (case run_ddl x s of None \<Rightarrow> None | Some s' \<Rightarrow> run_ddls xs s')"

section \<open>The revisions\<close>

definition create_merchants :: "ddl list" where
  "create_merchants =
    [CreateTable ''merchants''
       [Column ''id'' SqlUUID False False,
        Column ''name'' (SqlString None) False False,
        Column ''api_key_hash'' (SqlString None) False False,
        Column ''status'' (SqlString None) False False,
        Column ''created_at'' SqlTimestamptz False True]
       [Check ''ck_merchants_status'' ''status IN ('active', 'suspended')'',
        PrimaryKey [''id''],
        Unique None [''api_key_hash'']]]"

definition create_outbox_events :: "ddl list" where
  "create_outbox_events =
    [CreateTable ''outbox_events''
       [Column ''id'' SqlUUID False False,
        Column ''aggregate_type'' (SqlString None) False False,
        Column ''aggregate_id'' SqlUUID False False,
        Column ''event_type'' (SqlString None) False False,
        Column ''payload'' SqlJSONB False False,
        Column ''status'' (SqlString None) False False,
        Column ''attempt_count'' SqlInteger False False,
        Column ''available_at'' SqlTimestamptz False True,
        Column ''failure_reason'' (SqlString None) True False,
        Column ''created_at'' SqlTimestamptz False True,
        Column ''updated_at'' SqlTimestamptz False True]
       [Check ''ck_outbox_events_status'' ''status IN ('PENDING', 'PROCESSING', 'PROCESSED', 'DEAD_LETTER')'',
        PrimaryKey [''id'']],
     CreateIndex ''ix_outbox_events_status_available_at'' ''outbox_events'' [''status'', ''available_at'']]"

definition create_webhook_events :: "ddl list" where
  "create_webhook_events =
    [CreateTable ''webhook_events''
       [Column ''id'' SqlUUID False False,
        Column ''provider_name'' (SqlString None) False False,
        Column ''provider_event_id'' (SqlString None) False False,
        Column ''event_type'' (SqlString None) False False,
        Column ''raw_payload'' SqlJSONB False False,
        Column ''signature'' (SqlString None) False False,
        Column ''processing_status'' (SqlString None) False False,
        Column ''received_at'' SqlTimestamptz False True]
       [Check ''ck_webhook_events_processing_status'' ''processing_status IN ('RECEIVED', 'PROCESSED', 'IGNORED')'',
        PrimaryKey [''id''],
        Unique (Some ''uq_webhook_events_provider_event'') [''provider_name'', ''provider_event_id'']]]"

definition create_audit_logs :: "ddl list" where
  "create_audit_logs =
    [CreateTable ''audit_logs''
       [Column ''id'' SqlUUID False False,
        Column ''merchant_id'' SqlUUID True False,
        Column ''actor'' (SqlString None) False False,
        Column ''action'' (SqlString None) False False,
        Column ''audit_metadata'' SqlJSONB False False,
        Column ''created_at'' SqlTimestamptz False True]
       [ForeignKey ''merchant_id'' ''merchants'' ''id'',
        PrimaryKey [''id'']],
     CreateIndex ''ix_audit_logs_merchant_created'' ''audit_logs'' [''merchant_id'', ''created_at'']]"

definition create_customers :: "ddl list" where
  "create_customers =
    [CreateTable ''customers''
       [Column ''id'' SqlUUID False False,
        Column ''merchant_id'' SqlUUID False False,
        Column ''external_reference'' (SqlString None) True False,
        Column ''created_at'' SqlTimestamptz False True]
       [ForeignKey ''merchant_id'' ''merchants'' ''id'',
        PrimaryKey [''id''],
        Unique (Some ''uq_customers_merchant_external_ref'') [''merchant_id'', ''external_reference'']],
     CreateIndex ''ix_customers_merchant_id'' ''customers'' [''merchant_id'']]"

definition create_payment_intents :: "ddl list" where
  "create_payment_intents =
    [CreateTable ''payment_intents''
       [Column ''id'' SqlUUID False False,
        Column ''merchant_id'' SqlUUID False False,
        Column ''customer_id'' SqlUUID True False,
        Column ''amount_minor'' SqlBigInteger False False,
        Column ''currency'' (SqlString (Some 3)) False False,
        Column ''status'' (SqlString None) False False,
        Column ''merchant_reference'' (SqlString None) True False,
        Column ''version'' SqlInteger False False,
        Column ''created_at'' SqlTimestamptz False True,
        Column ''updated_at'' SqlTimestamptz False True]
       [Check ''ck_payment_intents_currency_iso4217'' (''currency ~ '^[A-Z]{3}$'' @ [CHR 0x27]),
        Check ''ck_payment_intents_status'' ''status IN ('CREATED', 'PROCESSING', 'REQUIRES_ACTION', 'UNKNOWN', 'SUCCEEDED', 'FAILED', 'REFUND_PENDING', 'REFUNDED', 'REFUND_FAILED')'',
        Check ''ck_payment_intents_amount_positive'' ''amount_minor > 0'',
        ForeignKey ''customer_id'' ''customers'' ''id'',
        ForeignKey ''merchant_id'' ''merchants'' ''id'',
        PrimaryKey [''id'']],
     CreateIndex ''ix_payment_intents_merchant_created'' ''payment_intents'' [''merchant_id'', ''created_at''],
     CreateIndex ''ix_payment_intents_merchant_reference'' ''payment_intents'' [''merchant_id'', ''merchant_reference''],
     CreateIndex ''ix_payment_intents_merchant_status'' ''payment_intents'' [''merchant_id'', ''status'']]"

definition create_payment_methods :: "ddl list" where
  "create_payment_methods =
    [CreateTable ''payment_methods''
       [Column ''id'' SqlUUID False False,
        Column ''customer_id'' SqlUUID False False,
        Column ''type'' (SqlString None) False False,
        Column ''provider_token'' (SqlString None) False False,
        Column ''created_at'' SqlTimestamptz False True]
       [Check ''ck_payment_methods_type'' ''type IN ('token')'',
        ForeignKey ''customer_id'' ''customers'' ''id'',
        PrimaryKey [''id'']],
     CreateIndex ''ix_payment_methods_customer_id'' ''payment_methods'' [''customer_id'']]"

definition create_ledger_entries :: "ddl list" where
  "create_ledger_entries =
    [CreateTable ''ledger_entries''
       [Column ''id'' SqlUUID False False,
        Column ''payment_intent_id'' SqlUUID False False,
        Column ''ledger_transaction_id'' SqlUUID False False,
        Column ''account'' (SqlString None) False False,
        Column ''direction'' (SqlString None) False False,
        Column ''amount_minor'' SqlBigInteger False False,
        Column ''created_at'' SqlTimestamptz False True]
       [Check ''ck_ledger_entries_direction'' ''direction IN ('DEBIT', 'CREDIT')'',
        Check ''ck_ledger_entries_amount_positive'' ''amount_minor > 0'',
        ForeignKey ''payment_intent_id'' ''payment_intents'' ''id'',
        PrimaryKey [''id'']],
     CreateIndex ''ix_ledger_entries_payment_intent_id'' ''ledger_entries'' [''payment_intent_id''],
     CreateIndex ''ix_ledger_entries_transaction_id'' ''ledger_entries'' [''ledger_transaction_id'']]"

definition create_payment_attempts :: "ddl list" where
  "create_payment_attempts =
    [CreateTable ''payment_attempts''
       [Column ''id'' SqlUUID False False,
        Column ''payment_intent_id'' SqlUUID False False,
        Column ''provider_name'' (SqlString None) False False,
        Column ''status'' (SqlString None) False False,
        Column ''failure_classification'' (SqlString None) True False,
        Column ''attempt_number'' SqlInteger False False,
        Column ''created_at'' SqlTimestamptz False True]
       [Check ''ck_payment_attempts_failure_classification'' ''failure_classification IS NULL OR failure_classification IN ('PERMANENT', 'TRANSIENT', 'UNKNOWN')'',
        Check ''ck_payment_attempts_status'' ''status IN ('SUCCEEDED', 'DECLINED', 'TEMPORARY_FAILURE', 'UNKNOWN')'',
        ForeignKey ''payment_intent_id'' ''payment_intents'' ''id'',
        PrimaryKey [''id''],
        Unique (Some ''uq_payment_attempts_intent_attempt_no'') [''payment_intent_id'', ''attempt_number'']]]"

definition create_payment_events :: "ddl list" where
  "create_payment_events =
    [CreateTable ''payment_events''
       [Column ''id'' SqlUUID False False,
        Column ''payment_intent_id'' SqlUUID False False,
        Column ''from_status'' (SqlString None) True False,
        Column ''to_status'' (SqlString None) False False,
        Column ''actor'' (SqlString None) False False,
        Column ''event_metadata'' SqlJSONB False False,
        Column ''created_at'' SqlTimestamptz False True]
       [Check ''ck_payment_events_actor'' ''actor IN ('API', 'WORKER', 'WEBHOOK', 'RECONCILIATION')'',
        ForeignKey ''payment_intent_id'' ''payment_intents'' ''id'',
        PrimaryKey [''id'']],
     CreateIndex ''ix_payment_events_intent_created'' ''payment_events'' [''payment_intent_id'', ''created_at'']]"

definition create_refunds :: "ddl list" where
  "create_refunds =
    [CreateTable ''refunds''
       [Column ''id'' SqlUUID False False,
        Column ''payment_intent_id'' SqlUUID False False,
        Column ''amount_minor'' SqlBigInteger False False,
        Column ''status'' (SqlString None) False False,
        Column ''created_at'' SqlTimestamptz False True]
       [Check ''ck_refunds_status'' ''status IN ('PENDING', 'SUCCEEDED', 'FAILED')'',
        Check ''ck_refunds_amount_positive'' ''amount_minor > 0'',
        ForeignKey ''payment_intent_id'' ''payment_intents'' ''id'',
        PrimaryKey [''id'']],
     CreateIndex ''ix_refunds_payment_intent_id'' ''refunds'' [''payment_intent_id'']]"

definition create_idempotency_keys :: "ddl list" where
  "create_idempotency_keys =
    [CreateTable ''idempotency_keys''
       [Column ''id'' SqlUUID False False,
        Column ''merchant_id'' SqlUUID False False,
        Column ''idempotency_key'' (SqlString None) False False,
        Column ''request_fingerprint'' (SqlString None) False False,
        Column ''status'' (SqlString None) False False,
        Column ''payment_intent_id'' SqlUUID True False,
        Column ''refund_id'' SqlUUID True False,
        Column ''response_status'' SqlInteger True False,
        Column ''response_body'' SqlJSONB True False,
        Column ''created_at'' SqlTimestamptz False True,
        Column ''updated_at'' SqlTimestamptz False True,
        Column ''locked_at'' SqlTimestamptz True False]
       [Check ''ck_idempotency_keys_status'' ''status IN ('PENDING', 'COMPLETED', 'FAILED')'',
        ForeignKey ''merchant_id'' ''merchants'' ''id'',
        ForeignKey ''payment_intent_id'' ''payment_intents'' ''id'',
        ForeignKey ''refund_id'' ''refunds'' ''id'',
        PrimaryKey [''id''],
        Unique (Some ''uq_idempotency_keys_merchant_key'') [''merchant_id'', ''idempotency_key'']]]"

definition create_provider_transactions :: "ddl list" where
  "create_provider_transactions =
    [CreateTable ''provider_transactions''
       [Column ''id'' SqlUUID False False,
        Column ''payment_attempt_id'' SqlUUID False False,
        Column ''provider_name'' (SqlString None) False False,
        Column ''provider_transaction_id'' (SqlString None) False False,
        Column ''raw_status'' (SqlString None) False False,
        Column ''raw_response'' SqlJSONB False False,
        Column ''created_at'' SqlTimestamptz False True]
       [ForeignKey ''payment_attempt_id'' ''payment_attempts'' ''id'',
        PrimaryKey [''id''],
        Unique None [''payment_attempt_id''],
        Unique (Some ''uq_provider_transactions_provider_txn'') [''provider_name'', ''provider_transaction_id'']]]"

definition upgrade_7c2fff35d572 :: "ddl list" where
  "upgrade_7c2fff35d572 =
     create_merchants @ create_outbox_events @ create_webhook_events @ create_audit_logs @
     create_customers @ create_payment_intents @ create_payment_methods @ create_ledger_entries @
     create_payment_attempts @ create_payment_events @ create_refunds @ create_idempotency_keys @
     create_provider_transactions"

definition downgrade_7c2fff35d572 :: "ddl list" where
  "downgrade_7c2fff35d572 =
    [DropTable ''provider_transactions'',
     DropTable ''idempotency_keys'',
     DropIndex ''ix_refunds_payment_intent_id'' ''refunds'',
     DropTable ''refunds'',
     DropIndex ''ix_payment_events_intent_created'' ''payment_events'',
     DropTable ''payment_events'',
     DropTable ''payment_attempts'',
     DropIndex ''ix_ledger_entries_transaction_id'' ''ledger_entries'',
     DropIndex ''ix_ledger_entries_payment_intent_id'' ''ledger_entries'',
     DropTable ''ledger_entries'',
     DropIndex ''ix_payment_methods_customer_id'' ''payment_methods'',
     DropTable ''payment_methods'',
     DropIndex ''ix_payment_intents_merchant_status'' ''payment_intents'',
     DropIndex ''ix_payment_intents_merchant_reference'' ''payment_intents'',
     DropIndex ''ix_payment_intents_merchant_created'' ''payment_intents'',
     DropTable ''payment_intents'',
     DropIndex ''ix_customers_merchant_id'' ''customers'',
     DropTable ''customers'',
     DropIndex ''ix_audit_logs_merchant_created'' ''audit_logs'',
     DropTable ''audit_logs'',
     DropTable ''webhook_events'',
     DropIndex ''ix_outbox_events_status_available_at'' ''outbox_events'',
     DropTable ''outbox_events'',
     DropTable ''merchants'']"

definition upgrade_57b34aed3928 :: "ddl list" where
  "upgrade_57b34aed3928 =
    [CreateTable ''reconciliation_reports''
       [Column ''id'' SqlUUID False False,
        Column ''payment_intent_id'' SqlUUID False False,
        Column ''result'' (SqlString None) False False,
        Column ''internal_status'' (SqlString None) False False,
        Column ''provider_status'' (SqlString None) True False,
        Column ''details'' SqlJSONB False False,
        Column ''created_at'' SqlTimestamptz False True]
       [Check ''ck_reconciliation_reports_result'' ''result IN ('MATCHED', 'RESOLVED_SUCCEEDED', 'RESOLVED_FAILED', 'STILL_UNKNOWN', 'MISSING_PROVIDER_TRANSACTION', 'MISSING_INTERNAL_TRANSACTION', 'AMOUNT_MISMATCH', 'CURRENCY_MISMATCH')'',
        ForeignKey ''payment_intent_id'' ''payment_intents'' ''id'',
        PrimaryKey [''id'']],
     CreateIndex ''ix_reconciliation_reports_created_at'' ''reconciliation_reports'' [''created_at''],
     CreateIndex ''ix_reconciliation_reports_payment_intent_id'' ''reconciliation_reports'' [''payment_intent_id'']]"

definition downgrade_57b34aed3928 :: "ddl list" where
  "downgrade_57b34aed3928 =
    [DropIndex ''ix_reconciliation_reports_payment_intent_id'' ''reconciliation_reports'',
     DropIndex ''ix_reconciliation_reports_created_at'' ''reconciliation_reports'',
     DropTable ''reconciliation_reports'']"

definition upgrade_266b4c5bee0f :: "ddl list" where
  "upgrade_266b4c5bee0f =
    [AddColumn ''merchants'' (Column ''previous_api_key_hash'' (SqlString None) True False),
     AddColumn ''merchants'' (Column ''previous_api_key_expires_at'' SqlTimestamptz True False),
     AddConstraint ''merchants'' (Unique (Some ''uq_merchants_previous_api_key_hash'') [''previous_api_key_hash''])]"

definition downgrade_266b4c5bee0f :: "ddl list" where
  "downgrade_266b4c5bee0f =
    [DropConstraint ''merchants'' ''uq_merchants_previous_api_key_hash'',
     DropColumn ''merchants'' ''previous_api_key_expires_at'',
     DropColumn ''merchants'' ''previous_api_key_hash'']"

definition upgrade_ab10ded442e0 :: "ddl list" where
  "upgrade_ab10ded442e0 =
    [CreateFunction ''prevent_ledger_entries_mutation'',
     CreateTrigger ''ledger_entries_no_update'' ''UPDATE'' ''ledger_entries'' ''prevent_ledger_entries_mutation'',
     CreateTrigger ''ledger_entries_no_delete'' ''DELETE'' ''ledger_entries'' ''prevent_ledger_entries_mutation'']"

definition downgrade_ab10ded442e0 :: "ddl list" where
  "downgrade_ab10ded442e0 =
    [DropTrigger ''ledger_entries_no_delete'' ''ledger_entries'',
     DropTrigger ''ledger_entries_no_update'' ''ledger_entries'',
     DropFunction ''prevent_ledger_entries_mutation'']"

text \<open>A revision: its id, the one it revises, and its two functions.\<close>

record revision =
  rv_id :: string
  rv_down_revision :: "string option"
  rv_upgrade :: "ddl list"
  rv_downgrade :: "ddl list"

definition revisions :: "revision list" where
  "revisions =
    [\<lparr>rv_id = ''7c2fff35d572'', rv_down_revision = None,
      rv_upgrade = upgrade_7c2fff35d572, rv_downgrade = downgrade_7c2fff35d572\<rparr>,
     \<lparr>rv_id = ''ab10ded442e0'', rv_down_revision = Some ''7c2fff35d572'',
      rv_upgrade = upgrade_ab10ded442e0, rv_downgrade = downgrade_ab10ded442e0\<rparr>,
     \<lparr>rv_id = ''57b34aed3928'', rv_down_revision = Some ''ab10ded442e0'',
      rv_upgrade = upgrade_57b34aed3928, rv_downgrade = downgrade_57b34aed3928\<rparr>,
     \<lparr>rv_id = ''266b4c5bee0f'', rv_down_revision = Some ''57b34aed3928'',
      rv_upgrade = upgrade_266b4c5bee0f, rv_downgrade = downgrade_266b4c5bee0f\<rparr>]"

section \<open>The models\<close>

text \<open>What a \<open>mapped_column\<close> declares of its column. Defaults and \<open>onupdate\<close> of the Python side
  are not part of the schema.\<close>

record mapped_col =
  mc_type :: sql_type
  mc_nullable :: bool
  mc_primary_key :: bool
  mc_unique :: bool
  mc_foreign_key :: "(string \<times> string) option"
  mc_server_now :: bool

definition mapped_column :: "sql_type \<Rightarrow> bool \<Rightarrow> mapped_col" where
  "mapped_column ty nullable = \<lparr>mc_type = ty, mc_nullable = nullable, mc_primary_key = False, mc_unique = False,
     mc_foreign_key = None, mc_server_now = False\<rparr>"

definition uuid_pk :: mapped_col where
  "uuid_pk = (mapped_column SqlUUID False)\<lparr>mc_primary_key := True\<rparr>"

definition created_at_column :: mapped_col where
  "created_at_column = (mapped_column SqlTimestamptz False)\<lparr>mc_server_now := True\<rparr>"

datatype table_arg = Constraint constr | Index string "string list"

definition column_constraints :: "string \<times> mapped_col \<Rightarrow> constr list" where
  "column_constraints nc =
     (case nc of (n, c) \<Rightarrow>
        (if mc_unique c then [Unique None [n]] else []) @
        (case mc_foreign_key c of None \<Rightarrow> [] | Some (t, tc) \<Rightarrow> [ForeignKey n t tc]))"

definition declared_table :: "string \<Rightarrow> (string \<times> mapped_col) list \<Rightarrow> table_arg list \<Rightarrow> string \<times> table" where
  "declared_table tn cols args =
     (tn, \<lparr>tb_columns = map (\<lambda>(n, c). Column n (mc_type c) (mc_nullable c) (mc_server_now c)) cols,
           tb_constraints =
             PrimaryKey (map fst (filter (\<lambda>(n, c). mc_primary_key c) cols)) # concat (map column_constraints cols) @
             concat (map (\<lambda>a. case a of Constraint k \<Rightarrow> [k] | Index _ _ \<Rightarrow> []) args),
           tb_indexes = concat (map (\<lambda>a. case a of Index i cs \<Rightarrow> [(i, cs)] | Constraint _ \<Rightarrow> []) args),
           tb_triggers = []\<rparr>)"

text \<open>Python's \<open>repr\<close> of a tuple of at least two plain texts.\<close>

definition repr_tuple :: "string list \<Rightarrow> string" where
  "repr_tuple xs =
     ''('' @ concat (map (\<lambda>x. [CHR 0x27] @ x @ [CHR 0x27] @ '', '') (butlast xs)) @ [CHR 0x27] @ last xs @ [CHR 0x27] @ '')''"

definition PAYMENT_STATUSES :: "string list" where
  "PAYMENT_STATUSES = [''CREATED'', ''PROCESSING'', ''REQUIRES_ACTION'', ''UNKNOWN'', ''SUCCEEDED'', ''FAILED'',
     ''REFUND_PENDING'', ''REFUNDED'', ''REFUND_FAILED'']"

definition Merchant_model :: "string \<times> table" where
  "Merchant_model = declared_table ''merchants''
    [(''id'', uuid_pk),
     (''name'', mapped_column (SqlString None) False),
     (''api_key_hash'', (mapped_column (SqlString None) False)\<lparr>mc_unique := True\<rparr>),
     (''previous_api_key_hash'', (mapped_column (SqlString None) True)\<lparr>mc_unique := True\<rparr>),
     (''previous_api_key_expires_at'', mapped_column SqlTimestamptz True),
     (''status'', mapped_column (SqlString None) False),
     (''created_at'', created_at_column)]
    [Constraint (Check ''ck_merchants_status'' ''status IN ('active', 'suspended')'')]"

definition Customer_model :: "string \<times> table" where
  "Customer_model = declared_table ''customers''
    [(''id'', uuid_pk),
     (''merchant_id'', (mapped_column SqlUUID False)\<lparr>mc_foreign_key := Some (''merchants'', ''id'')\<rparr>),
     (''external_reference'', mapped_column (SqlString None) True),
     (''created_at'', created_at_column)]
    [Constraint (Unique (Some ''uq_customers_merchant_external_ref'') [''merchant_id'', ''external_reference'']),
     Index ''ix_customers_merchant_id'' [''merchant_id'']]"

definition PaymentMethod_model :: "string \<times> table" where
  "PaymentMethod_model = declared_table ''payment_methods''
    [(''id'', uuid_pk),
     (''customer_id'', (mapped_column SqlUUID False)\<lparr>mc_foreign_key := Some (''customers'', ''id'')\<rparr>),
     (''type'', mapped_column (SqlString None) False),
     (''provider_token'', mapped_column (SqlString None) False),
     (''created_at'', created_at_column)]
    [Constraint (Check ''ck_payment_methods_type'' ''type IN ('token')''),
     Index ''ix_payment_methods_customer_id'' [''customer_id'']]"

definition PaymentIntent_model :: "string \<times> table" where
  "PaymentIntent_model = declared_table ''payment_intents''
    [(''id'', uuid_pk),
     (''merchant_id'', (mapped_column SqlUUID False)\<lparr>mc_foreign_key := Some (''merchants'', ''id'')\<rparr>),
     (''customer_id'', (mapped_column SqlUUID True)\<lparr>mc_foreign_key := Some (''customers'', ''id'')\<rparr>),
     (''amount_minor'', mapped_column SqlBigInteger False),
     (''currency'', mapped_column (SqlString (Some 3)) False),
     (''status'', mapped_column (SqlString None) False),
     (''merchant_reference'', mapped_column (SqlString None) True),
     (''version'', mapped_column SqlInteger False),
     (''created_at'', created_at_column),
     (''updated_at'', (mapped_column SqlTimestamptz False)\<lparr>mc_server_now := True\<rparr>)]
    [Constraint (Check ''ck_payment_intents_amount_positive'' ''amount_minor > 0''),
     Constraint (Check ''ck_payment_intents_currency_iso4217'' (''currency ~ '^[A-Z]{3}$'' @ [CHR 0x27])),
     Constraint (Check ''ck_payment_intents_status'' (''status IN '' @ repr_tuple PAYMENT_STATUSES)),
     Index ''ix_payment_intents_merchant_status'' [''merchant_id'', ''status''],
     Index ''ix_payment_intents_merchant_created'' [''merchant_id'', ''created_at''],
     Index ''ix_payment_intents_merchant_reference'' [''merchant_id'', ''merchant_reference'']]"

definition PaymentAttempt_model :: "string \<times> table" where
  "PaymentAttempt_model = declared_table ''payment_attempts''
    [(''id'', uuid_pk),
     (''payment_intent_id'', (mapped_column SqlUUID False)\<lparr>mc_foreign_key := Some (''payment_intents'', ''id'')\<rparr>),
     (''provider_name'', mapped_column (SqlString None) False),
     (''status'', mapped_column (SqlString None) False),
     (''failure_classification'', mapped_column (SqlString None) True),
     (''attempt_number'', mapped_column SqlInteger False),
     (''created_at'', created_at_column)]
    [Constraint (Check ''ck_payment_attempts_status'' ''status IN ('SUCCEEDED', 'DECLINED', 'TEMPORARY_FAILURE', 'UNKNOWN')''),
     Constraint (Check ''ck_payment_attempts_failure_classification'' ''failure_classification IS NULL OR failure_classification IN ('PERMANENT', 'TRANSIENT', 'UNKNOWN')''),
     Constraint (Unique (Some ''uq_payment_attempts_intent_attempt_no'') [''payment_intent_id'', ''attempt_number''])]"

definition ProviderTransaction_model :: "string \<times> table" where
  "ProviderTransaction_model = declared_table ''provider_transactions''
    [(''id'', uuid_pk),
     (''payment_attempt_id'', (mapped_column SqlUUID False)\<lparr>mc_foreign_key := Some (''payment_attempts'', ''id''), mc_unique := True\<rparr>),
     (''provider_name'', mapped_column (SqlString None) False),
     (''provider_transaction_id'', mapped_column (SqlString None) False),
     (''raw_status'', mapped_column (SqlString None) False),
     (''raw_response'', mapped_column SqlJSONB False),
     (''created_at'', created_at_column)]
    [Constraint (Unique (Some ''uq_provider_transactions_provider_txn'') [''provider_name'', ''provider_transaction_id''])]"

definition IdempotencyKey_model :: "string \<times> table" where
  "IdempotencyKey_model = declared_table ''idempotency_keys''
    [(''id'', uuid_pk),
     (''merchant_id'', (mapped_column SqlUUID False)\<lparr>mc_foreign_key := Some (''merchants'', ''id'')\<rparr>),
     (''idempotency_key'', mapped_column (SqlString None) False),
     (''request_fingerprint'', mapped_column (SqlString None) False),
     (''status'', mapped_column (SqlString None) False),
     (''payment_intent_id'', (mapped_column SqlUUID True)\<lparr>mc_foreign_key := Some (''payment_intents'', ''id'')\<rparr>),
     (''refund_id'', (mapped_column SqlUUID True)\<lparr>mc_foreign_key := Some (''refunds'', ''id'')\<rparr>),
     (''response_status'', mapped_column SqlInteger True),
     (''response_body'', mapped_column SqlJSONB True),
     (''created_at'', created_at_column),
     (''updated_at'', (mapped_column SqlTimestamptz False)\<lparr>mc_server_now := True\<rparr>),
     (''locked_at'', mapped_column SqlTimestamptz True)]
    [Constraint (Unique (Some ''uq_idempotency_keys_merchant_key'') [''merchant_id'', ''idempotency_key'']),
     Constraint (Check ''ck_idempotency_keys_status'' ''status IN ('PENDING', 'COMPLETED', 'FAILED')'')]"

definition PaymentEvent_model :: "string \<times> table" where
  "PaymentEvent_model = declared_table ''payment_events''
    [(''id'', uuid_pk),
     (''payment_intent_id'', (mapped_column SqlUUID False)\<lparr>mc_foreign_key := Some (''payment_intents'', ''id'')\<rparr>),
     (''from_status'', mapped_column (SqlString None) True),
     (''to_status'', mapped_column (SqlString None) False),
     (''actor'', mapped_column (SqlString None) False),
     (''event_metadata'', mapped_column SqlJSONB False),
     (''created_at'', created_at_column)]
    [Constraint (Check ''ck_payment_events_actor'' ''actor IN ('API', 'WORKER', 'WEBHOOK', 'RECONCILIATION')''),
     Index ''ix_payment_events_intent_created'' [''payment_intent_id'', ''created_at'']]"

definition Refund_model :: "string \<times> table" where
  "Refund_model = declared_table ''refunds''
    [(''id'', uuid_pk),
     (''payment_intent_id'', (mapped_column SqlUUID False)\<lparr>mc_foreign_key := Some (''payment_intents'', ''id'')\<rparr>),
     (''amount_minor'', mapped_column SqlBigInteger False),
     (''status'', mapped_column (SqlString None) False),
     (''created_at'', created_at_column)]
    [Constraint (Check ''ck_refunds_amount_positive'' ''amount_minor > 0''),
     Constraint (Check ''ck_refunds_status'' ''status IN ('PENDING', 'SUCCEEDED', 'FAILED')''),
     Index ''ix_refunds_payment_intent_id'' [''payment_intent_id'']]"

definition OutboxEvent_model :: "string \<times> table" where
  "OutboxEvent_model = declared_table ''outbox_events''
    [(''id'', uuid_pk),
     (''aggregate_type'', mapped_column (SqlString None) False),
     (''aggregate_id'', mapped_column SqlUUID False),
     (''event_type'', mapped_column (SqlString None) False),
     (''payload'', mapped_column SqlJSONB False),
     (''status'', mapped_column (SqlString None) False),
     (''attempt_count'', mapped_column SqlInteger False),
     (''available_at'', (mapped_column SqlTimestamptz False)\<lparr>mc_server_now := True\<rparr>),
     (''failure_reason'', mapped_column (SqlString None) True),
     (''created_at'', created_at_column),
     (''updated_at'', (mapped_column SqlTimestamptz False)\<lparr>mc_server_now := True\<rparr>)]
    [Constraint (Check ''ck_outbox_events_status'' ''status IN ('PENDING', 'PROCESSING', 'PROCESSED', 'DEAD_LETTER')''),
     Index ''ix_outbox_events_status_available_at'' [''status'', ''available_at'']]"

definition WebhookEvent_model :: "string \<times> table" where
  "WebhookEvent_model = declared_table ''webhook_events''
    [(''id'', uuid_pk),
     (''provider_name'', mapped_column (SqlString None) False),
     (''provider_event_id'', mapped_column (SqlString None) False),
     (''event_type'', mapped_column (SqlString None) False),
     (''raw_payload'', mapped_column SqlJSONB False),
     (''signature'', mapped_column (SqlString None) False),
     (''processing_status'', mapped_column (SqlString None) False),
     (''received_at'', created_at_column)]
    [Constraint (Unique (Some ''uq_webhook_events_provider_event'') [''provider_name'', ''provider_event_id'']),
     Constraint (Check ''ck_webhook_events_processing_status'' ''processing_status IN ('RECEIVED', 'PROCESSED', 'IGNORED')'')]"

definition LedgerEntry_model :: "string \<times> table" where
  "LedgerEntry_model = declared_table ''ledger_entries''
    [(''id'', uuid_pk),
     (''payment_intent_id'', (mapped_column SqlUUID False)\<lparr>mc_foreign_key := Some (''payment_intents'', ''id'')\<rparr>),
     (''ledger_transaction_id'', mapped_column SqlUUID False),
     (''account'', mapped_column (SqlString None) False),
     (''direction'', mapped_column (SqlString None) False),
     (''amount_minor'', mapped_column SqlBigInteger False),
     (''created_at'', created_at_column)]
    [Constraint (Check ''ck_ledger_entries_amount_positive'' ''amount_minor > 0''),
     Constraint (Check ''ck_ledger_entries_direction'' ''direction IN ('DEBIT', 'CREDIT')''),
     Index ''ix_ledger_entries_transaction_id'' [''ledger_transaction_id''],
     Index ''ix_ledger_entries_payment_intent_id'' [''payment_intent_id'']]"

definition AuditLog_model :: "string \<times> table" where
  "AuditLog_model = declared_table ''audit_logs''
    [(''id'', uuid_pk),
     (''merchant_id'', (mapped_column SqlUUID True)\<lparr>mc_foreign_key := Some (''merchants'', ''id'')\<rparr>),
     (''actor'', mapped_column (SqlString None) False),
     (''action'', mapped_column (SqlString None) False),
     (''audit_metadata'', mapped_column SqlJSONB False),
     (''created_at'', created_at_column)]
    [Index ''ix_audit_logs_merchant_created'' [''merchant_id'', ''created_at'']]"

definition ReconciliationReport_model :: "string \<times> table" where
  "ReconciliationReport_model = declared_table ''reconciliation_reports''
    [(''id'', uuid_pk),
     (''payment_intent_id'', (mapped_column SqlUUID False)\<lparr>mc_foreign_key := Some (''payment_intents'', ''id'')\<rparr>),
     (''result'', mapped_column (SqlString None) False),
     (''internal_status'', mapped_column (SqlString None) False),
     (''provider_status'', mapped_column (SqlString None) True),
     (''details'', mapped_column SqlJSONB False),
     (''created_at'', created_at_column)]
    [Constraint (Check ''ck_reconciliation_reports_result'' ''result IN ('MATCHED', 'RESOLVED_SUCCEEDED', 'RESOLVED_FAILED', 'STILL_UNKNOWN', 'MISSING_PROVIDER_TRANSACTION', 'MISSING_INTERNAL_TRANSACTION', 'AMOUNT_MISMATCH', 'CURRENCY_MISMATCH')''),
     Index ''ix_reconciliation_reports_payment_intent_id'' [''payment_intent_id''],
     Index ''ix_reconciliation_reports_created_at'' [''created_at'']]"

definition declared_tables :: "(string \<times> table) list" where
  "declared_tables =
    [Merchant_model, Customer_model, PaymentMethod_model, PaymentIntent_model,
     PaymentAttempt_model, ProviderTransaction_model, IdempotencyKey_model, PaymentEvent_model,
     Refund_model, OutboxEvent_model, WebhookEvent_model, LedgerEntry_model,
     AuditLog_model, ReconciliationReport_model]"

section \<open>What the revisions build\<close>

fun schema_at :: "nat \<Rightarrow> schema" where
  "schema_at 0 = empty_schema"
| "schema_at (Suc k) = (case run_ddls (rv_upgrade (revisions ! k)) (schema_at k) of None \<Rightarrow> empty_schema | Some s \<Rightarrow> s)"

lemma upgrades_run:
  "run_ddls (rv_upgrade (revisions ! 0)) (schema_at 0) \<noteq> None" "run_ddls (rv_upgrade (revisions ! 1)) (schema_at 1) \<noteq> None"
  "run_ddls (rv_upgrade (revisions ! 2)) (schema_at 2) \<noteq> None" "run_ddls (rv_upgrade (revisions ! 3)) (schema_at 3) \<noteq> None"
  by code_simp+

lemma upgrade_reaches:
  "run_ddls (rv_upgrade (revisions ! k)) (schema_at k) \<noteq> None \<Longrightarrow>
   run_ddls (rv_upgrade (revisions ! k)) (schema_at k) = Some (schema_at (Suc k))"
  by auto

lemma downgrade_0: "run_ddls (rv_downgrade (revisions ! 0)) (schema_at (Suc 0)) = Some (schema_at 0)"
  by code_simp

lemma downgrade_1: "run_ddls (rv_downgrade (revisions ! 1)) (schema_at (Suc 1)) = Some (schema_at 1)"
  by code_simp

lemma downgrade_2: "run_ddls (rv_downgrade (revisions ! 2)) (schema_at (Suc 2)) = Some (schema_at 2)"
  by code_simp

lemma downgrade_3: "run_ddls (rv_downgrade (revisions ! 3)) (schema_at (Suc 3)) = Some (schema_at 3)"
  by code_simp

lemma revision_chain:
  "list_all (\<lambda>k. rv_down_revision (revisions ! k) = (if k = 0 then None else Some (rv_id (revisions ! (k - 1))))) [0, 1, 2, 3]"
  by (simp add: revisions_def)

text \<open>C36. Every revision revises the one before it, runs without error on the schema the earlier ones
  build, so every table is created after the tables it refers to, and its downgrade runs without
  error and restores exactly that schema.\<close>

theorem migrations_round_trip:
  "list_all (\<lambda>k. run_ddls (rv_upgrade (revisions ! k)) (schema_at k) = Some (schema_at (Suc k)) \<and>
     run_ddls (rv_downgrade (revisions ! k)) (schema_at (Suc k)) = Some (schema_at k) \<and>
     rv_down_revision (revisions ! k) = (if k = 0 then None else Some (rv_id (revisions ! (k - 1))))) [0, 1, 2, 3]"
  using upgrades_run [THEN upgrade_reaches] downgrade_0 downgrade_1 downgrade_2 downgrade_3 revision_chain
  by (simp only: list.pred_inject simp_thms)

fun unnamed :: "constr \<Rightarrow> constr" where
  "unnamed (Unique n cs) = Unique None cs"
| "unnamed c = c"

definition same_table :: "table \<Rightarrow> table \<Rightarrow> bool" where
  "same_table t u \<longleftrightarrow> set (tb_columns t) = set (tb_columns u) \<and>
     set (map unnamed (tb_constraints t)) = set (map unnamed (tb_constraints u)) \<and> set (tb_indexes t) = set (tb_indexes u)"

definition constraint_names :: "(string \<times> table) list \<Rightarrow> string list" where
  "constraint_names ts = List.map_filter id (concat (map (\<lambda>(n, t). map (constr_name n) (tb_constraints t)) ts))"

text \<open>C35. The tables the revisions build are the tables the models declare, with the same columns,
  types, defaults, checks, keys, references and indexes; the names of their constraints are the
  same but for one, the uniqueness of the previous key, which the revision names and the model
  does not; and the statuses the CHECK of payments admits are those of the state machine.\<close>

theorem migrations_build_the_models:
  "map fst (sc_tables (schema_at 4)) \<noteq> [] \<and>
   set (map fst (sc_tables (schema_at 4))) = set (map fst declared_tables) \<and>
   list_all (\<lambda>(n, t). case map_of (sc_tables (schema_at 4)) n of None \<Rightarrow> False | Some u \<Rightarrow> same_table t u) declared_tables \<and>
   filter (\<lambda>n. n \<notin> set (constraint_names declared_tables)) (constraint_names (sc_tables (schema_at 4))) =
     [''uq_merchants_previous_api_key_hash''] \<and>
   filter (\<lambda>n. n \<notin> set (constraint_names (sc_tables (schema_at 4)))) (constraint_names declared_tables) =
     [''merchants_previous_api_key_hash_key''] \<and>
   set PAYMENT_STATUSES = range payment_status_value"
proof -
  have "range payment_status_value = set (map payment_status_value
      [CREATED, PROCESSING, REQUIRES_ACTION, UNKNOWN, SUCCEEDED, FAILED, REFUND_PENDING, REFUNDED, REFUND_FAILED])"
  proof -
    have "st \<in> set [CREATED, PROCESSING, REQUIRES_ACTION, UNKNOWN, SUCCEEDED, FAILED, REFUND_PENDING, REFUNDED, REFUND_FAILED]" for st
      by (cases st) simp_all
    then show ?thesis by (metis (no_types, lifting) UNIV_eq_I list.set_map)
  qed
  also have "\<dots> = set PAYMENT_STATUSES" by (simp add: PAYMENT_STATUSES_def)
  finally have "set PAYMENT_STATUSES = range payment_status_value" ..
  moreover have "map fst (sc_tables (schema_at 4)) \<noteq> []" by code_simp
  moreover have "set (map fst (sc_tables (schema_at 4))) = set (map fst declared_tables)" by code_simp
  moreover have "list_all (\<lambda>(n, t). case map_of (sc_tables (schema_at 4)) n of None \<Rightarrow> False | Some u \<Rightarrow> same_table t u) declared_tables"
    by code_simp
  moreover have "filter (\<lambda>n. n \<notin> set (constraint_names declared_tables)) (constraint_names (sc_tables (schema_at 4))) =
     [''uq_merchants_previous_api_key_hash'']" by code_simp
  moreover have "filter (\<lambda>n. n \<notin> set (constraint_names (sc_tables (schema_at 4)))) (constraint_names declared_tables) =
     [''merchants_previous_api_key_hash_key'']" by code_simp
  ultimately show ?thesis by blast
qed

text \<open>The constraints an INSERT of a service can violate are constraints the revisions make.\<close>

definition violable :: "string list" where
  "violable = [''ck_payment_intents_amount_positive'', ''ck_payment_intents_currency_iso4217'', ''ck_refunds_amount_positive'',
     ''ck_ledger_entries_amount_positive'', ''uq_payment_attempts_intent_attempt_no'', ''provider_transactions_payment_attempt_id_key'',
     ''uq_provider_transactions_provider_txn'', ''merchants_api_key_hash_key'', ''uq_merchants_previous_api_key_hash'']"

lemma violable_exist: "set violable \<subseteq> set (constraint_names (sc_tables (schema_at 4)))"
  by code_simp

lemma violated_constraints_exist:
  "insert_payment_intent mid amt cur mref d = Inl (IntegrityError n) \<Longrightarrow> n \<in> set (constraint_names (sc_tables (schema_at 4)))"
  "insert_refund pid amt d = Inl (IntegrityError n) \<Longrightarrow> n \<in> set (constraint_names (sc_tables (schema_at 4)))"
  "add_pair build amt d = Inl (IntegrityError n) \<Longrightarrow> n \<in> set (constraint_names (sc_tables (schema_at 4)))"
  "insert_payment_attempt pid pn oc cl no d = Inl (IntegrityError n) \<Longrightarrow> n \<in> set (constraint_names (sc_tables (schema_at 4)))"
  "insert_provider_transaction aid pn ptx st rr d = Inl (IntegrityError n) \<Longrightarrow> n \<in> set (constraint_names (sc_tables (schema_at 4)))"
  "update_merchant m d = Inl (IntegrityError n) \<Longrightarrow> n \<in> set (constraint_names (sc_tables (schema_at 4)))"
  by (rule subsetD [OF violable_exist];
      auto simp: violable_def insert_payment_intent_def insert_refund_def add_pair_def insert_payment_attempt_def
        insert_provider_transaction_def update_merchant_def merchant_clash_def Let_def split: if_splits option.splits prod.splits)+

end
