(* ===== verification/AppendOnly.thy ===== *)
theory AppendOnly
  imports Scenarios
begin

text \<open>
  The tables that are only ever added to. \<open>ledger_entries\<close> is guarded in the database by triggers
  that refuse every UPDATE and DELETE (revision ab10ded442e0); no operation of the program ever
  meets them, nor rewrites the history in \<open>payment_events\<close>.
\<close>

definition extends :: "'r list \<Rightarrow> 'r list \<Rightarrow> bool" where
  "extends old new \<longleftrightarrow> (\<exists>added. new = old @ added)"

lemma extends_refl: "extends xs xs"
  by (simp add: extends_def)

lemma extends_append: "extends xs ys \<Longrightarrow> extends xs (ys @ zs)"
  by (auto simp: extends_def)

lemma extends_trans: "extends xs ys \<Longrightarrow> extends ys zs \<Longrightarrow> extends xs zs"
  by (auto simp: extends_def)

text \<open>Nothing of the given entries and events is lost or changed.\<close>

definition grown :: "ledger_entry list \<Rightarrow> payment_event list \<Rightarrow> db \<Rightarrow> bool" where
  "grown entries events d \<longleftrightarrow> extends entries (ledger_entries d) \<and> extends events (payment_events d)"

lemma grown_append:
  "grown es vs d \<Longrightarrow> ledger_entries d' = ledger_entries d @ a \<Longrightarrow> payment_events d' = payment_events d @ b \<Longrightarrow> grown es vs d'"
  by (simp add: grown_def extends_append)

lemma grown_same:
  "grown es vs d \<Longrightarrow> ledger_entries d' = ledger_entries d \<Longrightarrow> payment_events d' = payment_events d \<Longrightarrow> grown es vs d'"
  by (simp add: grown_def)

lemma grown_pair: "grown es vs d \<Longrightarrow> add_pair build amt d = Inr (tx, d') \<Longrightarrow> grown es vs d'"
  by (auto simp: add_pair_def Let_def grown_def extends_append split: if_splits prod.splits)

lemma grown_move: "grown es vs d \<Longrightarrow> grown es vs (move_row row t a e d)"
  by (rule grown_append [where a = "[]"]) (simp_all add: move_row_writes)

interpretation append_only: program_invariant "grown es vs" for es vs
proof
  fix d d' assume J: "grown es vs d"
  show "grown es vs d'" if "unrelated d d'" for d'
    using that by (intro grown_same [OF J]) (simp_all add: unrelated_def)
  show "grown es vs d'" if "created_rows rq d = Inr (i, d')" for rq i d'
    by (rule grown_append [OF J, where a = "[]"]) (simp_all add: created_rows_writes [OF that])
  show "grown es vs (move_row row t a e d)" for row t a e by (rule grown_move [OF J])
  show "grown es vs d'" if "add_pair build amt (move_row row SUCCEEDED a e d) = Inr (tx, d')" for build amt row a e tx d'
    by (rule grown_pair [OF grown_move [OF J] that])
  then show "grown es vs d'" if "add_pair (\<lambda>txn. build_payment_settled_pair txn (pi_id row) (pi_amount_minor row)) (pi_amount_minor row)
      (move_row row SUCCEEDED a e d) = Inr (tx, d')" for row a e tx d'
    using that .
  show "grown es vs d'" if "insert_refund p amt d = Inr (r, d')" for p amt r d'
    using insert_refund_writes [OF that] by (intro grown_same [OF J]) simp_all
  show r: "grown es vs (set_refund_status rid st d)" for rid st
    by (rule grown_same [OF J]) (simp_all add: refund_status_writes)
  show "grown es vs d'" if "add_pair build amt (set_refund_status rid st d) = Inr (tx, d')" for build amt rid st tx d'
    by (rule grown_pair [OF r that])
qed

lemma run_operations_grown:
  "schema_wf (fst sys) \<Longrightarrow> grown es vs (fst sys) \<Longrightarrow> grown es vs (fst (run_operations E ops sys))"
proof (induction ops arbitrary: sys)
  case (Cons x ops)
  obtain op t where x: "x = (op, t)" by force
  have "schema_wf (fst (run_operation E op t sys)) \<and> grown es vs (fst (run_operation E op t sys))"
    using Cons.prems by (intro run_operation_keeps append_only.perform_all append_only.J_set_clock)
  with Cons.IH show ?case by (simp add: x)
qed simp

end
