(* ===== verification/Responses.thy ===== *)
theory Responses
  imports Api
begin

text \<open>
  The response models of \<open>apps/api/schemas.py\<close>, as types of JSON values, and that every answer of
  the API has the type the schema declares for it. The routers answer with plain dictionaries
  (\<open>response_model=None\<close>), so nothing at run time checks this. For the three services behind an
  idempotency key it needs an invariant: a stored answer has the type of the request its
  fingerprint was computed from.
\<close>

section \<open>Types of JSON values\<close>

datatype field_type =
    TUuid
  | TStr
  | TInt
  | TDatetime
  | TDict
  | TOptional field_type
  | TList field_type
  | TDictOf field_type
  | TModel "(string \<times> field_type) list"

text \<open>Pydantic's check of a value: every declared field is there and has its type; a field the model
  does not declare is ignored.\<close>

fun conforms :: "field_type \<Rightarrow> json \<Rightarrow> bool"
  and fields_conform :: "(string \<times> field_type) list \<Rightarrow> (string \<times> json) list \<Rightarrow> bool" where
  "conforms TUuid j = (case j of JStr s \<Rightarrow> uuid_of_str s \<noteq> None | _ \<Rightarrow> False)"
| "conforms TStr j = (case j of JStr s \<Rightarrow> True | _ \<Rightarrow> False)"
| "conforms TInt j = (case j of JInt i \<Rightarrow> True | _ \<Rightarrow> False)"
| "conforms TDatetime j = (case j of JTime t \<Rightarrow> True | _ \<Rightarrow> False)"
| "conforms TDict j = (case j of JObj kvs \<Rightarrow> True | _ \<Rightarrow> False)"
| "conforms (TOptional ty) j = (j = JNull \<or> conforms ty j)"
| "conforms (TList ty) j = (case j of JArr xs \<Rightarrow> list_all (conforms ty) xs | _ \<Rightarrow> False)"
| "conforms (TDictOf ty) j = (case j of JObj kvs \<Rightarrow> list_all (\<lambda>kv. conforms ty (snd kv)) kvs | _ \<Rightarrow> False)"
| "conforms (TModel fs) j = (case j of JObj kvs \<Rightarrow> fields_conform fs kvs | _ \<Rightarrow> False)"
| "fields_conform [] kvs = True"
| "fields_conform ((n, ty) # fs) kvs =
     ((case dict_get kvs n of None \<Rightarrow> False | Some v \<Rightarrow> conforms ty v) \<and> fields_conform fs kvs)"

section \<open>The response models\<close>

definition payment_fields :: "(string \<times> field_type) list" where
  "payment_fields = [(''id'', TUuid), (''status'', TStr), (''amount'', TInt), (''currency'', TStr),
     (''merchant_reference'', TOptional TStr), (''created_at'', TDatetime), (''updated_at'', TDatetime)]"

definition PaymentResponse :: field_type where
  "PaymentResponse = TModel payment_fields"

definition RefundResponse :: field_type where
  "RefundResponse = TModel [(''id'', TUuid), (''payment_id'', TUuid), (''amount'', TInt), (''status'', TStr), (''created_at'', TDatetime)]"

definition PaymentListResponse :: field_type where
  "PaymentListResponse = TModel [(''items'', TList PaymentResponse), (''total'', TInt), (''limit'', TInt), (''offset'', TInt)]"

definition PaymentEventResponse :: field_type where
  "PaymentEventResponse = TModel [(''id'', TUuid), (''from_status'', TOptional TStr), (''to_status'', TStr), (''actor'', TStr),
     (''created_at'', TDatetime)]"

definition PaymentAttemptResponse :: field_type where
  "PaymentAttemptResponse = TModel [(''id'', TUuid), (''provider_name'', TStr), (''status'', TStr),
     (''failure_classification'', TOptional TStr), (''attempt_number'', TInt), (''created_at'', TDatetime)]"

definition LedgerEntryResponse :: field_type where
  "LedgerEntryResponse = TModel [(''id'', TUuid), (''ledger_transaction_id'', TUuid), (''account'', TStr), (''direction'', TStr),
     (''amount'', TInt), (''created_at'', TDatetime)]"

text \<open>\<open>class PaymentDetailResponse(PaymentResponse)\<close>: the inherited fields come first.\<close>

definition PaymentDetailResponse :: field_type where
  "PaymentDetailResponse = TModel (payment_fields @ [(''events'', TList PaymentEventResponse),
     (''attempts'', TList PaymentAttemptResponse), (''refunds'', TList RefundResponse), (''ledger_entries'', TList LedgerEntryResponse)])"

definition DashboardSummaryResponse :: field_type where
  "DashboardSummaryResponse = TModel [(''counts_by_status'', TDictOf TInt), (''total_payments'', TInt),
     (''total_succeeded_amount'', TInt), (''total_refunded_amount'', TInt)]"

definition ReconciliationReportResponse :: field_type where
  "ReconciliationReportResponse = TModel [(''id'', TUuid), (''payment_id'', TUuid), (''result'', TStr), (''internal_status'', TStr),
     (''provider_status'', TOptional TStr), (''details'', TDict), (''created_at'', TDatetime)]"

definition ReconciliationRunResponse :: field_type where
  "ReconciliationRunResponse = TModel [(''reports'', TList ReconciliationReportResponse)]"

lemmas response_models = payment_fields_def PaymentResponse_def RefundResponse_def PaymentListResponse_def
  PaymentEventResponse_def PaymentAttemptResponse_def LedgerEntryResponse_def PaymentDetailResponse_def
  DashboardSummaryResponse_def ReconciliationReportResponse_def ReconciliationRunResponse_def

section \<open>What the serialisers produce\<close>

lemma uuid_str_parses [simp]: "uuid_of_str (uuid_str u) \<noteq> None"
  by (simp add: uuid_of_str_def uuid_str_hex hex_val_hex_str)

lemma conforms_opt_str [simp]: "conforms (TOptional TStr) (opt_str x)"
  by (cases x) (simp_all add: opt_str_def)

lemma serialized_conform:
  "conforms PaymentResponse (JObj (serialize_payment i))"
  "conforms RefundResponse (JObj (serialize_refund r))"
  "conforms PaymentEventResponse (JObj (serialize_payment_event e))"
  "conforms PaymentAttemptResponse (JObj (serialize_payment_attempt a))"
  "conforms LedgerEntryResponse (JObj (serialize_ledger_entry l))"
  "conforms ReconciliationReportResponse (JObj (serialize_reconciliation_report rr))"
  "conforms DashboardSummaryResponse (serialize_dashboard_summary sm)"
  by (simp_all add: response_models serialize_payment_def serialize_refund_def serialize_payment_event_def
      serialize_payment_attempt_def serialize_ledger_entry_def serialize_reconciliation_report_def
      serialize_dashboard_summary_def dict_get_def list_all_iff case_prod_beta del: conforms.simps(6))


section \<open>What a program answers\<close>

definition answers :: "('a \<Rightarrow> bool) \<Rightarrow> ('p, 'a) prog \<Rightarrow> bool" where
  "answers Q m \<longleftrightarrow> (\<forall>s x s'. m s = (Inr x, s') \<longrightarrow> Q x)"

named_theorems answers_rules

lemma answers_ret [answers_rules]: "Q x \<Longrightarrow> answers Q (ret x)"
  by (simp add: answers_def ret_def)

lemma answers_raise [answers_rules]: "answers Q (raise e)"
  by (simp add: answers_def raise_def)

lemma answers_bnd [answers_rules]: "(\<And>x. answers Q (f x)) \<Longrightarrow> answers Q (bnd m f)"
  by (auto simp: answers_def bnd_def split: prod.splits sum.splits)

lemma answers_andthen [answers_rules]: "answers Q k \<Longrightarrow> answers Q (andthen m k)"
  unfolding andthen_def by (rule answers_bnd)

lemma answers_if [answers_rules]: "(b \<Longrightarrow> answers Q m) \<Longrightarrow> (\<not> b \<Longrightarrow> answers Q k) \<Longrightarrow> answers Q (if b then m else k)"
  by simp

lemma answers_case_option [answers_rules]:
  "(x = None \<Longrightarrow> answers Q m) \<Longrightarrow> (\<And>y. x = Some y \<Longrightarrow> answers Q (f y)) \<Longrightarrow> answers Q (case x of None \<Rightarrow> m | Some y \<Rightarrow> f y)"
  by (cases x) auto

lemma answers_case_prod [answers_rules]: "(\<And>a b. x = (a, b) \<Longrightarrow> answers Q (f a b)) \<Longrightarrow> answers Q (case x of (a, b) \<Rightarrow> f a b)"
  by (cases x) auto

lemma answersD: "answers Q m \<Longrightarrow> m s = (Inr x, s') \<Longrightarrow> Q x"
  by (auto simp: answers_def)

text \<open>An answer of a service: a status code and a body of the given type.\<close>

definition typed :: "field_type \<Rightarrow> response \<Rightarrow> bool" where
  "typed ty resp \<longleftrightarrow> (\<exists>c b. resp = (Some c, Some b) \<and> conforms ty b)"

lemma answers_respond [answers_rules]: "conforms ty b \<Longrightarrow> answers (typed ty) (respond k p ro c b)"
  by (auto simp: answers_def respond_def prog_defs typed_def complete_idempotency_key_def split: option.splits)

lemma create_typed: "answers (typed PaymentResponse) (create_payment_claimed P rq kid)"
  unfolding create_payment_claimed_def block_payment_def record_authorization_def
  by (intro answers_rules serialized_conform)

lemma capture_typed: "answers (typed PaymentResponse) (capture_claimed P m p kid)"
  unfolding capture_claimed_def by (intro answers_rules serialized_conform)

lemma refund_typed: "answers (typed RefundResponse) (refund_claimed P m p k amt kid)"
  unfolding refund_claimed_def settle_refund_def by (intro answers_rules serialized_conform)

text \<open>The reading endpoints and the reconciliation trigger.\<close>

lemma items_conform:
  "conforms (TList ty) (JArr (map (JObj \<circ> f) xs)) \<longleftrightarrow> (\<forall>x \<in> set xs. conforms ty (JObj (f x)))"
  by (simp add: list_all_iff)

lemma list_typed: "answers (conforms PaymentListResponse) (list_payments_endpoint st limit offset m)"
  unfolding list_payments_endpoint_def
  by (intro answers_rules) (simp add: PaymentListResponse_def dict_get_def serialized_conform items_conform del: conforms.simps(7))

lemma get_typed: "answers (conforms PaymentResponse) (get_payment_endpoint p m)"
  unfolding get_payment_endpoint_def by (intro answers_rules serialized_conform)

lemma detail_typed: "answers (conforms PaymentDetailResponse) (get_payment_detail_endpoint p m)"
  unfolding get_payment_detail_endpoint_def get_payment_detail_def bnd_assoc bnd_ret
  by (intro answers_rules)
    (simp add: PaymentDetailResponse_def payment_fields_def serialize_payment_def
      dict_get_def serialized_conform items_conform del: conforms.simps(6,7))

lemma refund_get_typed: "answers (conforms RefundResponse) (get_refund_endpoint r m)"
  unfolding get_refund_endpoint_def by (intro answers_rules serialized_conform)

lemma summary_typed: "answers (conforms DashboardSummaryResponse) (get_dashboard_summary_endpoint m)"
  unfolding get_dashboard_summary_endpoint_def by (intro answers_rules serialized_conform)

lemma reconciliation_typed: "answers (conforms ReconciliationRunResponse) (run_reconciliation_endpoint P m)"
  unfolding run_reconciliation_endpoint_def
  by (intro answers_rules)
    (simp add: ReconciliationRunResponse_def dict_get_def serialized_conform items_conform del: conforms.simps(7))


section \<open>Stored answers\<close>

text \<open>The paths the three services compute their fingerprints from, and the type of their answers.\<close>

definition model_of :: "string \<Rightarrow> field_type" where
  "model_of path = (if take 8 (rev path) = rev ''/refunds'' then RefundResponse else PaymentResponse)"

definition typed_row :: "(string \<Rightarrow> string) \<Rightarrow> idempotency_key \<Rightarrow> bool" where
  "typed_row sha256hex r \<longleftrightarrow>
     (\<exists>path body. CHR 0x0A \<notin> set path \<and> ik_request_fingerprint r = compute_fingerprint sha256hex ''POST'' path body \<and>
        typed (model_of path) (ik_response_status r, ik_response_body r))"

definition typed_keys :: "(string \<Rightarrow> string) \<Rightarrow> idempotency_key list \<Rightarrow> bool" where
  "typed_keys sha256hex ks \<longleftrightarrow> (\<forall>r \<in> set ks. ik_status r = IK_COMPLETED \<longrightarrow> typed_row sha256hex r)"

text \<open>Nothing but an answer completes a key.\<close>

definition no_new_completed :: "idempotency_key list \<Rightarrow> idempotency_key list \<Rightarrow> bool" where
  "no_new_completed k0 k1 \<longleftrightarrow> (\<forall>r \<in> set k1. ik_status r = IK_COMPLETED \<longrightarrow> r \<in> set k0)"

lemma typed_keys_old: "typed_keys sha k0 \<Longrightarrow> no_new_completed k0 k1 \<Longrightarrow> typed_keys sha k1"
  by (simp add: typed_keys_def no_new_completed_def)

lemma no_new_completed_update:
  "(\<And>r. ik_status (g r) \<noteq> IK_COMPLETED) \<Longrightarrow> no_new_completed ks (update_where q g ks)"
  by (auto simp: no_new_completed_def set_update_where)

lemma no_new_completed_refl: "no_new_completed ks ks"
  by (simp add: no_new_completed_def)

lemma claim_no_new_completed: "no_new_completed (idempotency_keys d) (idempotency_keys (snd (claim_rows [] m k f st d)))"
proof -
  have "no_new_completed (idempotency_keys d) (idempotency_keys (snd (insert_claim m k f d)))"
    by (auto simp: insert_claim_def no_new_completed_def Let_def)
  moreover have "no_new_completed (idempotency_keys d) (idempotency_keys (snd (reclaim e st' t l d)))" for e st' t l
    by (auto simp: reclaim_def Let_def reclaimed_row_def no_new_completed_refl intro!: no_new_completed_update)
  ultimately show ?thesis using claim_rows_snd [of m k f st d] by (auto simp: no_new_completed_refl)
qed

lemma release_no_new_completed: "no_new_completed ks (release kid t ks)"
  by (auto simp: release_def no_new_completed_refl intro!: no_new_completed_update split: option.splits)

locale typed_service = claimed_service body for body :: "uuid \<Rightarrow> ('p, response) prog" +
  fixes path :: string
  assumes body_typed: "answers (typed (model_of path)) (body kid)"
    and path_line: "CHR 0x0A \<notin> set path"
begin

lemma typed_keys_kept:
  assumes wf: "keys_wf d" and idle: "idle d s"
    and run: "serve body m k (compute_fingerprint sha ''POST'' path b) s = (res, s')" and ok: "typed_keys sha (idempotency_keys d)"
  shows "typed_keys sha (idempotency_keys (committed s'))"
proof -
  let ?f = "compute_fingerprint sha ''POST'' path b"
  obtain c d1 where claim: "claim_rows [] m k ?f DEFAULT_STALE_AFTER d = (c, d1)" by force
  have ok1: "typed_keys sha (idempotency_keys d1)"
    using typed_keys_old [OF ok claim_no_new_completed, of m k ?f DEFAULT_STALE_AFTER] claim by simp
  show ?thesis
  proof (cases "c = None \<or> outcome (the c) \<noteq> CLAIMED")
    case True
    with run idle claim ok ok1 show ?thesis
      by (cases c; cases "outcome (the c)")
        (auto simp: serve_def claim_idempotency_key_def on_claim_def prog_defs idle_def)
  next
    case False
    then obtain c' where c: "c = Some c'" and out: "outcome c' = CLAIMED" by auto
    let ?kid = "ik_id (key_row c')" and ?s = "s\<lparr>working := d1\<rparr>" and ?ks = "idempotency_keys d1"
    note row = claim_rows_claimed [OF wf claim [unfolded c] out]
    have dist: "distinct (map ik_id ?ks)"
      using claim_rows_keys_wf [OF wf, of m k ?f DEFAULT_STALE_AFTER] claim by (auto simp: keys_wf_def fresh_ids_def)
    have ran: "try_except (body ?kid) (fail_claim_and_raise ?kid) ?s = (res, s')"
      using run idle claim c out
      by (simp add: serve_def claim_idempotency_key_def on_claim_def prog_defs idle_def Let_def)
    have start: "in_claim (idempotency_keys d) ?ks ?s" using idle by (simp add: in_claim_def idle_def)
    obtain res1 s2 where body: "body ?kid ?s = (res1, s2)" by force
    show ?thesis
    proof (cases res1)
      case (Inr resp)
      with ran body have "s' = s2" by (simp add: try_except_def)
      moreover have "completed ?kid ?ks resp s2" by (rule tripleD(1) [OF body_completes start body [unfolded Inr]])
      moreover have "typed (model_of path) resp" by (rule answersD [OF body_typed body [unfolded Inr]])
      moreover have "x = key_row c'" if "x \<in> set ?ks" "ik_id x = ?kid" for x
        using that row(1) dist by (auto dest!: select_one_Some intro: distinct_map_inj_row)
      ultimately show ?thesis
        using ok1 row(2) path_line
        by (fastforce simp: completed_def typed_keys_def typed_row_def set_update_where complete_row_def)
    next
      case (Inl e)
      have "abandoned (idempotency_keys d) ?ks s2" by (rule tripleD(2) [OF body_completes start body [unfolded Inl]])
      then have "typed_keys sha (idempotency_keys (committed s2))" using ok ok1 by (auto simp: abandoned_def)
      moreover have "idempotency_keys (committed s') = release ?kid (now (committed s2)) (idempotency_keys (committed s2))"
        using ran body Inl by (auto simp: try_except_def fail_claim_and_raise_def prog_defs find_key_row_def
            fail_idempotency_key_def release_def split: option.splits if_splits)
      ultimately show ?thesis using typed_keys_old [OF _ release_no_new_completed] by simp
    qed
  qed
qed

text \<open>First or replayed, an answer has the type of its request, if the digest separates the
  fingerprints.\<close>

lemma typed_answer:
  assumes wf: "keys_wf d" and idle: "idle d s"
    and run: "serve body m k (compute_fingerprint sha ''POST'' path b) s = (Inr resp, s')"
    and ok: "typed_keys sha (idempotency_keys d)" and "inj sha"
  shows "typed (model_of path) resp"
proof -
  obtain r where r: "select_one (same_key m k) (idempotency_keys (committed s')) = Some r"
    "ik_request_fingerprint r = compute_fingerprint sha ''POST'' path b" "ik_status r = IK_COMPLETED"
    "resp = (ik_response_status r, ik_response_body r)"
    using wf idle run by (rule answered)
  from r(1) have "r \<in> set (idempotency_keys (committed s'))" by (auto dest: select_one_Some)
  with typed_keys_kept [OF wf idle run ok] r(3) have "typed_row sha r" by (simp add: typed_keys_def)
  then obtain path' b' where p: "CHR 0x0A \<notin> set path'" "compute_fingerprint sha ''POST'' path b = compute_fingerprint sha ''POST'' path' b'"
    "typed (model_of path') resp"
    unfolding typed_row_def r(2,4) [symmetric] by (metis r(2,4))
  from p(2) \<open>inj sha\<close> have "fingerprint_input ''POST'' path b = fingerprint_input ''POST'' path' b'"
    by (auto simp: compute_fingerprint_def dest: injD)
  with fingerprint_input_injective [of "''POST''" "''POST''" path path' b b'] p(1) path_line have "path = path'" by simp
  with p(3) show ?thesis by simp
qed

end


lemma uuid_str_line: "CHR 0x0A \<notin> set (uuid_str u)"
proof -
  have digits: "set (hex_str k n) \<subseteq> set ''0123456789abcdef''" for k n
  proof (induction k n rule: hex_str.induct)
    case (2 k n)
    have "hex_char (n mod 16) \<in> set ''0123456789abcdef''" unfolding hex_char_def by (rule nth_mem) simp
    then have "set [hex_char (n mod 16)] \<subseteq> set ''0123456789abcdef''" by (simp only: list.set insert_subset empty_subsetI simp_thms)
    with 2 show ?case by (simp only: hex_str.simps set_append Un_subset_iff simp_thms)
  qed (simp only: hex_str.simps list.set empty_subsetI)
  have "CHR 0x0A \<notin> set ''0123456789abcdef''" by simp
  with digits [of 32 u] have "CHR 0x0A \<notin> set (hex_str 32 u)" by (rule contra_subsetD)
  then show ?thesis
    by (simp only: uuid_str_def Let_def set_append) (auto dest: in_set_takeD in_set_dropD)
qed

text \<open>The paths of the three services.\<close>

abbreviation create_path :: string where
  "create_path \<equiv> ''/v1/payments''"

abbreviation capture_path :: "uuid \<Rightarrow> string" where
  "capture_path p \<equiv> ''/v1/payments/'' @ uuid_str p @ ''/capture''"

abbreviation refund_path :: "uuid \<Rightarrow> string" where
  "refund_path p \<equiv> ''/v1/payments/'' @ uuid_str p @ ''/refunds''"

lemma models_of_paths:
  "model_of create_path = PaymentResponse" "model_of (capture_path p) = PaymentResponse" "model_of (refund_path p) = RefundResponse"
  by (simp_all add: model_of_def)

interpretation typed_create: typed_service "create_payment_claimed P rq" create_path for P rq
  by unfold_locales (simp_all add: model_of_def create_typed)

interpretation typed_capture: typed_service "capture_claimed P m p" "capture_path p" for P m p
  by unfold_locales (simp_all add: model_of_def capture_typed uuid_str_line)

interpretation typed_refund: typed_service "refund_claimed P m p k amt" "refund_path p" for P m p k amt
  by unfold_locales (simp_all add: model_of_def refund_typed uuid_str_line)


section \<open>In every reachable state\<close>

lemma typed_keys_clock: "idempotency_keys (set_clock t d) = idempotency_keys d"
  by (simp add: set_clock_def)

lemma typed_keys_operation:
  assumes wf: "keys_wf (fst sys)" and ok: "typed_keys (env_sha256hex E) (idempotency_keys (fst sys))"
  shows "typed_keys (env_sha256hex E) (idempotency_keys (fst (run_operation E op t sys)))"
proof -
  let ?d = "set_clock t (fst sys)" and ?sha = "env_sha256hex E"
  let ?s = "open_session ?d (snd sys)"
  have wf': "keys_wf ?d" using wf by (simp add: keys_wf_def set_clock_def)
  have ok': "typed_keys ?sha (idempotency_keys ?d)" using ok by (simp add: typed_keys_clock)
  have "typed_keys ?sha (idempotency_keys (committed (snd (perform E op ?s))))"
  proof (cases "claims_key op")
    case True
    then show ?thesis
      by (cases op)
        (auto simp: snd_discard services_serve andthen_def bnd_def inc_run
          intro!: typed_create.typed_keys_kept [OF wf' _ prod.collapse [symmetric] ok']
            typed_capture.typed_keys_kept [OF wf' _ prod.collapse [symmetric] ok', simplified]
            typed_refund.typed_keys_kept [OF wf' _ prod.collapse [symmetric] ok', simplified])
  next
    case False
    then have "keeps (in_claim (idempotency_keys ?d) (idempotency_keys ?d)) (perform E op)"
      by (rule keys_other_operations)
    then have "in_claim (idempotency_keys ?d) (idempotency_keys ?d) (snd (perform E op ?s))"
      unfolding keeps_def by (elim allE impE) (auto simp: in_claim_def open_session_def)
    with ok' show ?thesis by (simp add: in_claim_def)
  qed
  then show ?thesis by (simp add: run_operation_def Let_def)
qed

lemma reachable_typed:
  "reachable allowed E sys \<Longrightarrow> schema_wf (fst sys) \<and> typed_keys (env_sha256hex E) (idempotency_keys (fst sys))"
proof (induction rule: reachable.induct)
  case (start t ms p)
  show ?case using schema_wf_initial by (simp add: typed_keys_def initial_db_def empty_db_def)
next
  case (step sys op t)
  then have "keys_wf (fst sys)" by (simp add: schema_wf_def)
  with step show ?case by (simp add: run_operation_wf typed_keys_operation)
qed

text \<open>The three services, on a session that has done nothing yet.\<close>

lemma service_answers_typed:
  assumes wf: "keys_wf d" and ok: "typed_keys sha (idempotency_keys d)" and inj: "inj sha" and idle: "idle d s"
  shows "create_payment sha P rq s = (Inr resp, s') \<Longrightarrow> typed PaymentResponse resp"
    and "capture_payment sha P m p k b s = (Inr resp, s') \<Longrightarrow> typed PaymentResponse resp"
    and "refund_payment sha P m p k b amt s = (Inr resp, s') \<Longrightarrow> typed RefundResponse resp"
proof -
  have idle': "idle d (s\<lparr>metrics := metrics s @ [n]\<rparr>)" for n using idle by simp
  show "create_payment sha P rq s = (Inr resp, s') \<Longrightarrow> typed PaymentResponse resp"
    using typed_create.typed_answer [OF wf idle' _ ok inj] unfolding models_of_paths
    by (simp add: create_payment_serve andthen_def bnd_def inc_run)
  show "capture_payment sha P m p k b s = (Inr resp, s') \<Longrightarrow> typed PaymentResponse resp"
    using typed_capture.typed_answer [OF wf idle _ ok inj] unfolding models_of_paths capture_payment_serve .
  show "refund_payment sha P m p k b amt s = (Inr resp, s') \<Longrightarrow> typed RefundResponse resp"
    using typed_refund.typed_answer [OF wf idle _ ok inj] unfolding models_of_paths refund_payment_serve .
qed

lemma answers_fst: "answers Q m \<Longrightarrow> fst (m s) = Inr x \<Longrightarrow> Q x"
  by (cases "m s") (auto simp: answers_def)

text \<open>C16. Every answer of the API has the type its response model declares. In any state the program
  reaches, what a create or capture request answers, for the first time or again, is a status
  code with a \<open>PaymentResponse\<close>, a refund request answers a \<open>RefundResponse\<close>, and the lists, the
  detail page, the dashboard and the reconciliation run are of their models; the digest is taken
  to have no collisions.\<close>

theorem answers_have_their_declared_types:
  assumes "reachable allowed E sys" and "inj (env_sha256hex E)" and "s = open_session (set_clock t (fst sys)) (snd sys)"
  shows "(create_payment (env_sha256hex E) (env_provider E) rq s = (Inr resp, s') \<longrightarrow> typed PaymentResponse resp) \<and>
    (capture_payment (env_sha256hex E) (env_provider E) m p k b s = (Inr resp, s') \<longrightarrow> typed PaymentResponse resp) \<and>
    (refund_payment (env_sha256hex E) (env_provider E) m p k b amt s = (Inr resp, s') \<longrightarrow> typed RefundResponse resp) \<and>
    (fst (list_payments_endpoint st limit offset merchant s) = Inr j \<longrightarrow> conforms PaymentListResponse j) \<and>
    (fst (get_payment_endpoint p merchant s) = Inr j \<longrightarrow> conforms PaymentResponse j) \<and>
    (fst (get_payment_detail_endpoint p merchant s) = Inr j \<longrightarrow> conforms PaymentDetailResponse j) \<and>
    (fst (get_refund_endpoint rid merchant s) = Inr j \<longrightarrow> conforms RefundResponse j) \<and>
    (fst (get_dashboard_summary_endpoint merchant s) = Inr j \<longrightarrow> conforms DashboardSummaryResponse j) \<and>
    (fst (run_reconciliation_endpoint (env_provider E) merchant s) = Inr j \<longrightarrow> conforms ReconciliationRunResponse j)"
proof -
  let ?d = "set_clock t (fst sys)"
  have "keys_wf ?d" and "typed_keys (env_sha256hex E) (idempotency_keys ?d)" and "idle ?d s"
    using reachable_typed [OF assms(1)] by (auto simp: schema_wf_def keys_wf_def set_clock_def assms(3))
  note services = service_answers_typed [OF this(1,2) assms(2) this(3)]
  show ?thesis
    by (intro conjI impI; (rule services, assumption)?)
      (fact answers_fst [OF list_typed] answers_fst [OF get_typed] answers_fst [OF detail_typed] answers_fst [OF refund_get_typed]
        answers_fst [OF summary_typed] answers_fst [OF reconciliation_typed])+
qed

text \<open>A run whose digest is the identity.\<close>

definition plain_env :: "mock_state env" where
  "plain_env = demo_env\<lparr>env_sha256hex := id\<rparr>"

theorem answers_have_their_declared_types_witness:
  "typed PaymentResponse (Some 201, Some (JObj (serialize_payment (demo_payment\<lparr>pi_status := PROCESSING, pi_version := 2, pi_updated_at := 1000\<rparr>))))"
proof -
  have "reachable (\<lambda>_. True) plain_env demo_start" unfolding demo_start_def by (rule reachable.start)
  moreover have "inj (env_sha256hex plain_env)" by (simp add: plain_env_def)
  moreover have "fst (create_payment (env_sha256hex plain_env) (env_provider plain_env) demo_request
      (open_session (set_clock 1000 (fst demo_start)) (snd demo_start))) =
    Inr (Some 201, Some (JObj (serialize_payment (demo_payment\<lparr>pi_status := PROCESSING, pi_version := 2, pi_updated_at := 1000\<rparr>))))"
    by (simp add: plain_env_def demo_defs demo_payment_def serialize_payment_def numeral_2_eq_2)
  ultimately show ?thesis
    using answers_have_their_declared_types [OF _ _ refl, THEN conjunct1] by (metis prod.collapse)
qed

end
