(* ===== verification/Observability.thy ===== *)
theory Observability
  imports Outbox
begin

text \<open>
  Logging, tracing and metrics (\<open>packages/observability\<close>): correlation identifiers in context
  variables and the JSON lines they end up in, the lazy tracer, the registry of metrics. What a
  task does is a list of actions on its context; the context of a task is its own, as with
  \<open>contextvars\<close>.
\<close>

section \<open>Log lines\<close>

text \<open>The variables hold texts, as annotated; a webhook body can put another value in one.\<close>

type_synonym log_context = "string \<Rightarrow> json option"

definition CONTEXT_VARS :: "string list" where
  "CONTEXT_VARS = [''request_id'', ''merchant_id'', ''payment_id'', ''provider_transaction_id'']"

text \<open>A record, with the texts the library makes of its time and of its exception.\<close>

record log_record =
  lr_timestamp :: string
  lr_levelname :: string
  lr_name :: string
  lr_message :: string
  lr_exc_info :: "string option"

definition format_record :: "log_context \<Rightarrow> log_record \<Rightarrow> (string \<times> json) list" where
  "format_record ctx record =
     [(''timestamp'', JStr (lr_timestamp record)), (''level'', JStr (lr_levelname record)),
      (''logger'', JStr (lr_name record)), (''message'', JStr (lr_message record))] @
     concat (map (\<lambda>name. case ctx name of None \<Rightarrow> [] | Some v \<Rightarrow> [(name, v)]) CONTEXT_VARS) @
     (case lr_exc_info record of None \<Rightarrow> [] | Some text \<Rightarrow> [(''exception'', JStr text)])"

section \<open>Tasks\<close>

text \<open>\<open>SetVar\<close> is \<open>var.set(val)\<close>, which nothing undoes; \<open>Bind\<close> is a \<open>with bind_context(\<dots>)\<close> block.\<close>

datatype action =
    Log log_record
  | SetVar string "json option"
  | Raise exn
  | Bind "(string \<times> json option) list" "action list"

definition unknown_vars :: "(string \<times> json option) list \<Rightarrow> bool" where
  "unknown_vars kwargs \<longleftrightarrow> (\<exists>kw \<in> set kwargs. fst kw \<notin> set CONTEXT_VARS)"

text \<open>Sets the variables, keeping a token with the value each had.\<close>

fun set_vars :: "(string \<times> json option) list \<Rightarrow> log_context \<Rightarrow> (string \<times> json option) list \<times> log_context" where
  "set_vars [] ctx = ([], ctx)"
| "set_vars ((name, val) # kwargs) ctx =
     (case set_vars kwargs (ctx(name := val)) of (tokens, ctx') \<Rightarrow> ((name, ctx name) # tokens, ctx'))"

definition reset_vars :: "(string \<times> json option) list \<Rightarrow> log_context \<Rightarrow> log_context" where
  "reset_vars tokens ctx = fold (\<lambda>(name, old) c. c(name := old)) tokens ctx"

fun run_action :: "action \<Rightarrow> log_context \<Rightarrow> exn option \<times> log_context \<times> (string \<times> json) list list"
  and run_actions :: "action list \<Rightarrow> log_context \<Rightarrow> exn option \<times> log_context \<times> (string \<times> json) list list" where
  "run_action (Log r) ctx = (None, ctx, [format_record ctx r])"
| "run_action (SetVar name val) ctx = (None, ctx(name := val), [])"
| "run_action (Raise e) ctx = (Some e, ctx, [])"
| "run_action (Bind kwargs body) ctx =
     (if unknown_vars kwargs then (Some ValueError, ctx, [])
      else case set_vars kwargs ctx of (tokens, ctx1) \<Rightarrow>
        (case run_actions body ctx1 of (res, ctx2, lines) \<Rightarrow> (res, reset_vars tokens ctx2, lines)))"
| "run_actions [] ctx = (None, ctx, [])"
| "run_actions (a # rest) ctx =
     (case run_action a ctx of
        (Some e, ctx1, lines) \<Rightarrow> (Some e, ctx1, lines)
      | (None, ctx1, lines) \<Rightarrow>
          (case run_actions rest ctx1 of (res, ctx2, lines2) \<Rightarrow> (res, ctx2, lines @ lines2)))"

text \<open>Whether an action may change a variable for the actions after it or inside it.\<close>

fun touches :: "string \<Rightarrow> action \<Rightarrow> bool" and touch :: "string \<Rightarrow> action list \<Rightarrow> bool" where
  "touches n (Log r) = False"
| "touches n (SetVar m v) = (n = m)"
| "touches n (Raise e) = False"
| "touches n (Bind kwargs body) = (n \<in> fst ` set kwargs \<or> touch n body)"
| "touch n [] = False"
| "touch n (a # rest) = (touches n a \<or> touch n rest)"

section \<open>Correlation\<close>

lemma context_names:
  "set CONTEXT_VARS = {''request_id'', ''merchant_id'', ''payment_id'', ''provider_transaction_id''}"
  by (simp add: CONTEXT_VARS_def)

lemma map_of_context:
  "map_of (concat (map (\<lambda>name. case ctx name of None \<Rightarrow> [] | Some v \<Rightarrow> [(name, v)]) names)) n =
     (if n \<in> set names then ctx n else None)"
  by (induction names) (auto simp: map_add_def split: option.splits)

lemma line_field:
  assumes "n \<in> set CONTEXT_VARS"
  shows "dict_get (format_record ctx r) n = ctx n"
proof -
  let ?fixed = "[(''timestamp'', JStr (lr_timestamp r)), (''level'', JStr (lr_levelname r)),
      (''logger'', JStr (lr_name r)), (''message'', JStr (lr_message r))]"
  let ?exc = "case lr_exc_info r of None \<Rightarrow> [] | Some text \<Rightarrow> [(''exception'', JStr text)]"
  have "map_of ?fixed n = None" "map_of ?exc n = None"
    using assms by (auto simp: CONTEXT_VARS_def split: option.split)
  then show ?thesis
    unfolding dict_get_def format_record_def map_of_append map_add_def map_of_context using assms
    by (simp split: option.split)
qed

lemma set_vars_Cons:
  "fst (set_vars ((name, val) # kwargs) ctx) = (name, ctx name) # fst (set_vars kwargs (ctx(name := val)))"
  "snd (set_vars ((name, val) # kwargs) ctx) = snd (set_vars kwargs (ctx(name := val)))"
  by (simp_all add: case_prod_unfold)

lemma set_vars_other: "n \<notin> fst ` set kwargs \<Longrightarrow> snd (set_vars kwargs ctx) n = ctx n"
  by (induction kwargs ctx rule: set_vars.induct) (simp_all add: case_prod_unfold)

lemma set_vars_tokens: "map fst (fst (set_vars kwargs ctx)) = map fst kwargs"
proof (induction kwargs arbitrary: ctx)
  case (Cons kw kwargs)
  obtain name val where "kw = (name, val)" by force
  with Cons show ?case by (simp only: set_vars_Cons list.map fst_conv)
qed simp

lemma token_names: "fst ` set (fst (set_vars kwargs ctx)) = fst ` set kwargs"
  using arg_cong [OF set_vars_tokens [of kwargs ctx], of set] by simp

lemma reset_other: "n \<notin> fst ` set tokens \<Longrightarrow> reset_vars tokens ctx n = ctx n"
  unfolding reset_vars_def by (induction tokens arbitrary: ctx) (auto simp: case_prod_unfold)

lemma reset_vars_restores:
  "distinct (map fst kwargs) \<Longrightarrow> n \<in> fst ` set kwargs \<Longrightarrow> reset_vars (fst (set_vars kwargs ctx)) ctx' n = ctx n"
proof (induction kwargs arbitrary: ctx ctx')
  case (Cons kw kwargs)
  obtain name val where kw: "kw = (name, val)" by force
  let ?tokens = "fst (set_vars kwargs (ctx(name := val)))"
  have eq: "reset_vars (fst (set_vars (kw # kwargs) ctx)) ctx' = reset_vars ?tokens (ctx'(name := ctx name))"
    unfolding kw set_vars_Cons by (simp add: reset_vars_def)
  show ?case
  proof (cases "n = name")
    case True
    with Cons.prems kw have "n \<notin> fst ` set ?tokens" by (simp add: token_names)
    then show ?thesis unfolding eq using True reset_other [of n ?tokens] by simp
  next
    case False
    with Cons.prems kw have "distinct (map fst kwargs)" "n \<in> fst ` set kwargs" by auto
    note IH = Cons.IH [OF this]
    have "(ctx(name := val)) n = ctx n" using False by simp
    with IH [of "ctx(name := val)"] show ?thesis unfolding eq by (simp del: fun_upd_apply)
  qed
qed simp

lemma set_vars_value: "distinct (map fst kwargs) \<Longrightarrow> (n, v) \<in> set kwargs \<Longrightarrow> snd (set_vars kwargs ctx) n = v"
proof (induction kwargs arbitrary: ctx)
  case (Cons kw kwargs)
  obtain name val where kw: "kw = (name, val)" by force
  show ?case
  proof (cases "(n, v) = kw")
    case True
    with Cons.prems(1) kw have "n \<notin> fst ` set kwargs" "n = name" "v = val" by auto
    then show ?thesis unfolding kw set_vars_Cons by (simp add: set_vars_other)
  next
    case False
    with Cons.prems have "distinct (map fst kwargs)" "(n, v) \<in> set kwargs" by auto
    then show ?thesis unfolding kw set_vars_Cons by (rule Cons.IH)
  qed
qed simp

text \<open>Actions that leave a variable alone log its value on every line.\<close>

definition shows_value :: "string \<Rightarrow> log_context \<Rightarrow> exn option \<times> log_context \<times> (string \<times> json) list list \<Rightarrow> bool" where
  "shows_value n ctx = (\<lambda>(res, ctx', lines). ctx' n = ctx n \<and> (\<forall>l \<in> set lines. dict_get l n = ctx n))"

lemma shows_valueI:
  "ctx' n = ctx n \<Longrightarrow> (\<And>l. l \<in> set lines \<Longrightarrow> dict_get l n = ctx n) \<Longrightarrow> shows_value n ctx (res, ctx', lines)"
  by (simp add: shows_value_def)

lemma untouched:
  assumes n: "n \<in> set CONTEXT_VARS"
  shows "\<not> touches n a \<Longrightarrow> shows_value n ctx (run_action a ctx)"
    and "\<not> touch n acts \<Longrightarrow> shows_value n ctx (run_actions acts ctx)"
proof (induction a ctx and acts ctx rule: run_action_run_actions.induct)
  case (4 kwargs body ctx)
  show ?case
  proof (cases "unknown_vars kwargs")
    case False
    obtain tokens ctx1 where t: "set_vars kwargs ctx = (tokens, ctx1)" by force
    obtain res1 ctx2 lines1 where b: "run_actions body ctx1 = (res1, ctx2, lines1)" by (rule prod_cases3)
    have names: "n \<notin> fst ` set tokens" using "4.prems" token_names [of kwargs ctx] t by simp
    have "ctx1 n = ctx n" using "4.prems" set_vars_other [of n kwargs ctx] t by simp
    moreover have "shows_value n ctx1 (res1, ctx2, lines1)"
      using "4.IH" [OF False t [symmetric]] "4.prems" b by simp
    ultimately have "shows_value n ctx (res1, reset_vars tokens ctx2, lines1)"
      using reset_other [OF names, of ctx2] by (simp add: shows_value_def)
    then show ?thesis using False by (simp add: t b)
  qed (simp add: shows_value_def)
next
  case (6 a rest ctx)
  obtain res1 ctx1 lines1 where a: "run_action a ctx = (res1, ctx1, lines1)" by (rule prod_cases3)
  obtain res2 ctx2 lines2 where r: "run_actions rest ctx1 = (res2, ctx2, lines2)" by (rule prod_cases3)
  have A: "shows_value n ctx (res1, ctx1, lines1)" using "6.IH"(1) "6.prems" a by simp
  show ?case
  proof (cases res1)
    case None
    have "shows_value n ctx1 (res2, ctx2, lines2)"
      using "6.IH"(2) [OF a [symmetric] None refl] "6.prems" r by simp
    with A have "shows_value n ctx (None, ctx2, lines1 @ lines2)" by (auto simp: shows_value_def)
    then show ?thesis by (auto simp: a r None shows_value_def)
  qed (use A in \<open>simp add: a shows_value_def\<close>)
qed (simp_all add: shows_value_def line_field n)

lemma bind_restores:
  assumes "distinct (map fst kwargs)" and "run_action (Bind kwargs body) ctx = (res, ctx', lines)" and "n \<in> fst ` set kwargs"
  shows "ctx' n = ctx n"
proof (cases "unknown_vars kwargs")
  case False
  obtain tokens ctx1 where t: "set_vars kwargs ctx = (tokens, ctx1)" by force
  obtain res1 ctx2 lines1 where b: "run_actions body ctx1 = (res1, ctx2, lines1)" by (rule prod_cases3)
  have "ctx' = reset_vars tokens ctx2" using assms(2) False by (simp add: t b)
  then show ?thesis using reset_vars_restores [OF assms(1,3), of ctx ctx2] by (simp add: t)
qed (use assms(2) in simp)

text \<open>A block that binds a variable its body leaves alone: every line in it has the bound value,
  nested blocks and exceptions or not, and every bound variable is restored.\<close>

lemma bind_scope:
  assumes "distinct (map fst kwargs)" and known: "\<not> unknown_vars kwargs" and n: "(n, v) \<in> set kwargs" "\<not> touch n body"
    and run: "run_action (Bind kwargs body) ctx = (res, ctx', lines)"
  shows "\<forall>l \<in> set lines. dict_get l n = v" and "\<forall>m \<in> fst ` set kwargs. ctx' m = ctx m"
proof -
  obtain tokens ctx1 where t: "set_vars kwargs ctx = (tokens, ctx1)" by force
  obtain res1 ctx2 lines1 where b: "run_actions body ctx1 = (res1, ctx2, lines1)" by (rule prod_cases3)
  have "n \<in> set CONTEXT_VARS" using known n(1) by (force simp: unknown_vars_def)
  from untouched(2) [OF this n(2), of ctx1] have "\<forall>l \<in> set lines1. dict_get l n = ctx1 n"
    by (simp add: b shows_value_def)
  moreover have "ctx1 n = v" using set_vars_value [OF assms(1) n(1), of ctx] t by simp
  moreover have "lines = lines1" using run known by (simp add: t b)
  ultimately show "\<forall>l \<in> set lines. dict_get l n = v" by simp
  show "\<forall>m \<in> fst ` set kwargs. ctx' m = ctx m" using bind_restores [OF assms(1) run] by blast
qed

section \<open>What the dispatcher does to the context\<close>

text \<open>The line of \<open>LoggingDispatcher\<close>, with the text the library makes of the payload, and the
  variables \<open>_handle_payment_outcome\<close> sets on its way: neither is bound, so nothing resets them.\<close>

definition dispatch_line :: "((string \<times> json) list \<Rightarrow> string) \<Rightarrow> string \<Rightarrow> outbox_event \<Rightarrow> log_record" where
  "dispatch_line repr time event =
     \<lparr>lr_timestamp = time, lr_levelname = ''INFO'', lr_name = ''payguard.outbox'',
      lr_message = ''outbox.dispatch event_type='' @ ob_event_type event @ '' aggregate_type='' @ ob_aggregate_type event @
        '' aggregate_id='' @ uuid_str (ob_aggregate_id event) @ '' payload='' @ repr (ob_payload event),
      lr_exc_info = None\<rparr>"

definition outcome_actions :: "webhook_event \<Rightarrow> db \<Rightarrow> action list" where
  "outcome_actions w d =
     (case payload_transaction_id (wh_raw_payload w) of
        Inl e \<Rightarrow> [Raise e]
      | Inr (Some (JStr ptx)) \<Rightarrow>
          if ptx = [] then []
          else SetVar ''provider_transaction_id'' (Some (JStr ptx)) #
            (case find_by_provider_transaction ptx d of
               None \<Rightarrow> []
             | Some intent \<Rightarrow> [SetVar ''payment_id'' (Some (JStr (uuid_str (pi_id intent))))])
      | Inr (Some j) \<Rightarrow> if json_truthy j then [SetVar ''provider_transaction_id'' (Some j), Raise DataError] else []
      | Inr None \<Rightarrow> [])"

definition dispatch_actions :: "((string \<times> json) list \<Rightarrow> string) \<Rightarrow> string \<Rightarrow> outbox_event \<Rightarrow> db \<Rightarrow> action list" where
  "dispatch_actions repr time event d =
     Log (dispatch_line repr time event) #
     (if ob_event_type event \<noteq> ''webhook.received'' then []
      else case payload_webhook_id (ob_payload event) of
        Inl e \<Rightarrow> [Raise e]
      | Inr wid \<Rightarrow>
          (case select_one (\<lambda>w. wh_id w = wid) (webhook_events d) of
             None \<Rightarrow> []
           | Some w \<Rightarrow>
               if wh_processing_status w \<noteq> WH_RECEIVED \<or> map_of EVENT_HANDLERS (wh_event_type w) = None then []
               else outcome_actions w d))"

text \<open>The worker dispatches one event after another in one task: a line logged for an event
  that has nothing to do with it carries the payment of the last webhook applied.\<close>

lemma stale_payment_id:
  assumes ev: "ob_event_type e1 = ''webhook.received''" "payload_webhook_id (ob_payload e1) = Inr wid"
    and w: "select_one (\<lambda>w. wh_id w = wid) (webhook_events d) = Some w" "wh_processing_status w = WH_RECEIVED"
      "map_of EVENT_HANDLERS (wh_event_type w) = Some tgt"
    and p: "payload_transaction_id (wh_raw_payload w) = Inr (Some (JStr ptx))" "ptx \<noteq> []"
      "find_by_provider_transaction ptx d = Some intent"
    and other: "ob_event_type e2 \<noteq> ''webhook.received''"
  shows "\<exists>ctx' l1 l2. run_actions (dispatch_actions repr t1 e1 d @ dispatch_actions repr t2 e2 d') ctx = (None, ctx', [l1, l2]) \<and>
    dict_get l1 ''payment_id'' = ctx ''payment_id'' \<and>
    dict_get l2 ''payment_id'' = Some (JStr (uuid_str (pi_id intent)))"
proof -
  have n: "''payment_id'' \<in> set CONTEXT_VARS" by (simp add: CONTEXT_VARS_def)
  have "dispatch_actions repr t1 e1 d @ dispatch_actions repr t2 e2 d' =
      [Log (dispatch_line repr t1 e1), SetVar ''provider_transaction_id'' (Some (JStr ptx)),
       SetVar ''payment_id'' (Some (JStr (uuid_str (pi_id intent)))), Log (dispatch_line repr t2 e2)]"
    using assms by (simp add: dispatch_actions_def outcome_actions_def)
  then show ?thesis by (simp add: line_field [OF n] del: fun_upd_apply) (simp add: line_field [OF n])
qed

section \<open>Tracing\<close>

text \<open>\<open>_provider\<close>, and the registry of the tracing library, which takes the first provider it is
  given. A provider is known by the exporter it sends its spans to. \<open>ts_spans\<close> lists the spans
  started: exporter, tracer, span.\<close>

datatype exporter = ConsoleSpanExporter | OtherExporter string

record tracing =
  ts_provider :: "exporter option"
  ts_global :: "exporter option"
  ts_spans :: "(exporter \<times> string \<times> string) list"

definition configure_tracing :: "exporter option \<Rightarrow> tracing \<Rightarrow> tracing" where
  "configure_tracing exporter st =
     (let x = (case exporter of None \<Rightarrow> ConsoleSpanExporter | Some x \<Rightarrow> x)
      in st\<lparr>ts_provider := Some x, ts_global := (case ts_global st of None \<Rightarrow> Some x | Some g \<Rightarrow> Some g)\<rparr>)"

definition resolve :: "tracing \<Rightarrow> exporter \<times> tracing" where
  "resolve st =
     (let st' = (if ts_provider st = None then configure_tracing None st else st)
      in (the (ts_provider st'), st'))"

datatype lazy_tracer = LazyTracer (tracer_name: string)

definition get_tracer :: "string \<Rightarrow> lazy_tracer" where
  "get_tracer name = LazyTracer name"

fun start_as_current_span :: "lazy_tracer \<Rightarrow> string \<Rightarrow> tracing \<Rightarrow> tracing" where
  "start_as_current_span (LazyTracer name) sp st =
     (case resolve st of (x, st') \<Rightarrow> st'\<lparr>ts_spans := ts_spans st' @ [(x, name, sp)]\<rparr>)"

text \<open>Whenever a tracer was made, its spans go to the exporter configured last, the console
  before any; the registry keeps the first.\<close>

lemma spans_follow_configuration:
  "ts_provider st = Some x \<Longrightarrow>
     fold (\<lambda>(tr, sp). start_as_current_span tr sp) uses st =
       st\<lparr>ts_spans := ts_spans st @ map (\<lambda>(tr, sp). (x, tracer_name tr, sp)) uses\<rparr>"
proof (induction uses arbitrary: st)
  case (Cons u uses)
  obtain name sp where u: "u = (LazyTracer name, sp)" by (metis lazy_tracer.exhaust surj_pair)
  let ?st = "st\<lparr>ts_spans := ts_spans st @ [(x, name, sp)]\<rparr>"
  have "start_as_current_span (LazyTracer name) sp st = ?st" using Cons.prems by (simp add: resolve_def Let_def)
  moreover have "ts_provider ?st = Some x" using Cons.prems by simp
  ultimately show ?case using Cons.IH [of ?st] by (simp add: u)
qed simp

lemma reconfiguration_reaches_every_tracer:
  "ts_spans (fold (\<lambda>(tr, sp). start_as_current_span tr sp) uses (configure_tracing (Some x) st)) =
     ts_spans st @ map (\<lambda>(tr, sp). (x, tracer_name tr, sp)) uses"
  using spans_follow_configuration [of "configure_tracing (Some x) st" x uses] by (simp add: configure_tracing_def Let_def)

lemma registry_keeps_the_first:
  "ts_global st = Some g \<Longrightarrow> ts_global (configure_tracing x st) = Some g"
  by (simp add: configure_tracing_def Let_def)

lemma unconfigured_spans_go_to_the_console:
  "ts_provider st = None \<Longrightarrow>
     ts_spans (start_as_current_span (get_tracer name) sp st) = ts_spans st @ [(ConsoleSpanExporter, name, sp)]"
  by (simp add: get_tracer_def resolve_def configure_tracing_def Let_def)

end
