(* ===== verification/Application.thy ===== *)
theory Application
  imports Observability Api
begin

text \<open>
  The application object (\<open>apps/api/main.py\<close>): the middleware that gives every request its
  identifier, the layer that turns exceptions into error answers inside it, the probes, and
  whether the worker runs inside the process. What a handler logs, and which context variables it
  sets, is a list of actions of \<open>Observability\<close>; what it answers is a value.
\<close>

record http_response =
  hr_status :: int
  hr_headers :: "(string \<times> string) list"
  hr_body :: json

text \<open>The installed handlers see the request's identifier; an exception that has none goes on.\<close>

definition exception_layer :: "string \<Rightarrow> exn + (int \<times> json) \<Rightarrow> exn + http_response" where
  "exception_layer request_id result =
     (case result of
        Inr (st, body) \<Rightarrow> Inr \<lparr>hr_status = st, hr_headers = [], hr_body = body\<rparr>
      | Inl e \<Rightarrow>
          (case payguard_error_handler (Some request_id) e of
             Some (st, body) \<Rightarrow> Inr \<lparr>hr_status = st, hr_headers = [], hr_body = body\<rparr>
           | None \<Rightarrow> Inl e))"

text \<open>\<open>call_next\<close> is the rest of the application: the actions of the handler and its outcome. The
  header is set after the block, so not when \<open>call_next\<close> raises.\<close>

definition request_id_middleware ::
    "uuid \<Rightarrow> (string \<Rightarrow> action list \<times> (exn + http_response)) \<Rightarrow> log_context \<Rightarrow> tracing \<Rightarrow>
     (exn + http_response) \<times> log_context \<times> (string \<times> json) list list \<times> tracing" where
  "request_id_middleware u call_next ctx tr =
     (let request_id = request_id_of u;
          tr' = start_as_current_span (get_tracer ''payguard.api'') ''http.request'' tr
      in case call_next request_id of (acts, out) \<Rightarrow>
        (case run_action (Bind [(''request_id'', Some (JStr request_id))]
                (acts @ (case out of Inl e \<Rightarrow> [Raise e] | Inr _ \<Rightarrow> []))) ctx of
           (raised, ctx', lines) \<Rightarrow>
             ((case (raised, out) of
                 (None, Inr response) \<Rightarrow>
                   Inr (response\<lparr>hr_headers := hr_headers response @ [(''X-Request-Id'', request_id)]\<rparr>)
               | (None, Inl e) \<Rightarrow> Inl e
               | (Some e, _) \<Rightarrow> Inl e),
              ctx', lines, tr')))"

definition serve_request ::
    "uuid \<Rightarrow> action list \<Rightarrow> exn + (int \<times> json) \<Rightarrow> log_context \<Rightarrow> tracing \<Rightarrow>
     (exn + http_response) \<times> log_context \<times> (string \<times> json) list list \<times> tracing" where
  "serve_request u acts result = request_id_middleware u (\<lambda>request_id. (acts, exception_layer request_id result))"

definition health :: json where
  "health = JObj [(''status'', JStr ''ok'')]"

text \<open>\<open>select_1\<close> is what connecting and selecting gives: nothing, or the exception of the driver.\<close>

definition ready :: "exn option \<Rightarrow> exn + json" where
  "ready select_1 = (case select_1 of Some e \<Rightarrow> Inl e | None \<Rightarrow> Inr (JObj [(''status'', JStr ''ready'')]))"

text \<open>\<open>_lifespan\<close>: whether the process starts a worker of its own.\<close>

definition worker_inprocess :: "environment \<Rightarrow> bool" where
  "worker_inprocess environ \<longleftrightarrow> environ ''RUN_WORKER_INPROCESS'' = Some ''1''"

text \<open>What authentication leaves in the context of the request.\<close>

definition merchant_actions :: "merchant \<Rightarrow> action list" where
  "merchant_actions merchant = [SetVar ''merchant_id'' (Some (JStr (uuid_str (m_id merchant))))]"

section \<open>Correlation\<close>

text \<open>\<open>body["error"]["request_id"]\<close>.\<close>

fun error_request_id :: "json \<Rightarrow> json option" where
  "error_request_id (JObj kvs) = (case dict_get kvs ''error'' of Some (JObj err) \<Rightarrow> dict_get err ''request_id'' | _ \<Rightarrow> None)"
| "error_request_id _ = None"

lemma exception_layer_error:
  "exception_layer rid (Inl (PayGuardError code msg)) =
     Inr \<lparr>hr_status = (case map_of STATUS_BY_CODE code of None \<Rightarrow> 400 | Some st \<Rightarrow> st), hr_headers = [],
          hr_body = JObj [(''error'', JObj [(''code'', JStr code), (''message'', JStr msg), (''request_id'', JStr rid)])]\<rparr>"
  by (simp add: exception_layer_def payguard_error_handler_def error_response_def)

lemma request_ids_differ: "u < 2 ^ 128 \<Longrightarrow> v < 2 ^ 128 \<Longrightarrow> request_id_of u = request_id_of v \<Longrightarrow> u = v"
proof -
  assume uv: "u < 2 ^ 128" "v < 2 ^ 128" and "request_id_of u = request_id_of v"
  then have "hex_str 32 u = hex_str 32 v" by (simp only: request_id_of_def same_append_eq)
  then have "Some (u mod 16 ^ 32) = Some (v mod 16 ^ 32)"
    using hex_val_hex_str [of 0 32 u] hex_val_hex_str [of 0 32 v] by (simp only: mult_zero_left add_0)
  moreover have "(16 :: nat) ^ 32 = 2 ^ 128" by simp
  ultimately show "u = v" using uv by (simp only: option.inject mod_less)
qed

lemma request_scope:
  assumes quiet: "\<And>rid. \<not> touch ''request_id'' (fst (call_next rid))"
    and run: "request_id_middleware u call_next ctx tr = (res, ctx', lines, tr')"
  shows "\<forall>l \<in> set lines. dict_get l ''request_id'' = Some (JStr (request_id_of u))" and "ctx' ''request_id'' = ctx ''request_id''"
    and "v \<in> set CONTEXT_VARS \<Longrightarrow> \<not> touch v (fst (call_next (request_id_of u))) \<Longrightarrow> ctx' v = ctx v"
    and "\<And>response. res = Inr response \<Longrightarrow> \<exists>r. snd (call_next (request_id_of u)) = Inr r \<and>
           response = r\<lparr>hr_headers := hr_headers r @ [(''X-Request-Id'', request_id_of u)]\<rparr>"
proof -
  let ?rid = "request_id_of u" and ?kw = "[(''request_id'', Some (JStr (request_id_of u)))]"
  obtain acts out where c: "call_next ?rid = (acts, out)" by force
  let ?body = "acts @ (case out of Inl e \<Rightarrow> [Raise e] | Inr _ \<Rightarrow> [])"
  obtain raised ctx1 lines1 where b: "run_action (Bind ?kw ?body) ctx = (raised, ctx1, lines1)" by (rule prod_cases3)
  have eq: "ctx' = ctx1" "lines = lines1"
    "res = (case (raised, out) of
       (None, Inr response) \<Rightarrow> Inr (response\<lparr>hr_headers := hr_headers response @ [(''X-Request-Id'', ?rid)]\<rparr>)
     | (None, Inl e) \<Rightarrow> Inl e | (Some e, _) \<Rightarrow> Inl e)"
    using run by (auto simp: request_id_middleware_def c Let_def b simp del: run_action.simps)
  have app: "touch n (xs @ ys) = (touch n xs \<or> touch n ys)" for n xs ys by (induction xs) auto
  have "\<not> touch ''request_id'' ?body" using quiet [of ?rid] by (simp add: c app split: sum.split)
  moreover have "distinct (map fst ?kw)" "\<not> unknown_vars ?kw" "(''request_id'', Some (JStr ?rid)) \<in> set ?kw"
    by (simp_all add: unknown_vars_def CONTEXT_VARS_def)
  ultimately have "\<forall>l \<in> set lines1. dict_get l ''request_id'' = Some (JStr ?rid)" "\<forall>m \<in> fst ` set ?kw. ctx1 m = ctx m"
    using bind_scope [OF _ _ _ _ b] by blast+
  then show "\<forall>l \<in> set lines. dict_get l ''request_id'' = Some (JStr ?rid)" "ctx' ''request_id'' = ctx ''request_id''"
    by (simp_all add: eq)
  then show "ctx' v = ctx v" if "v \<in> set CONTEXT_VARS" "\<not> touch v (fst (call_next ?rid))"
  proof (cases "v = ''request_id''")
    case False
    with that(2) have "\<not> touches v (Bind ?kw ?body)" by (simp add: c app split: sum.split)
    from untouched(1) [OF that(1) this, of ctx] show ?thesis unfolding b by (simp add: eq shows_value_def)
  qed simp
  show "\<exists>r. snd (call_next ?rid) = Inr r \<and> response = r\<lparr>hr_headers := hr_headers r @ [(''X-Request-Id'', ?rid)]\<rparr>"
    if "res = Inr response" for response
    using that eq(3) by (auto simp: c split: option.splits sum.splits)
qed

text \<open>A handler that only logs and sets variables raises nothing of its own.\<close>

definition plain :: "action list \<Rightarrow> bool" where
  "plain acts \<longleftrightarrow> list_all (\<lambda>a. case a of Log r \<Rightarrow> True | SetVar n v \<Rightarrow> True | _ \<Rightarrow> False) acts"

lemma plain_runs: "plain acts \<Longrightarrow> fst (run_actions (acts @ rest) ctx) = fst (run_actions rest (fst (snd (run_actions acts ctx))))"
proof (induction acts arbitrary: ctx)
  case (Cons a acts)
  then show ?case by (cases a) (auto simp: plain_def case_prod_unfold)
qed simp

lemma plain_answers:
  assumes "plain (fst (call_next (request_id_of u)))" and "snd (call_next (request_id_of u)) = Inr r"
  shows "\<exists>response. fst (request_id_middleware u call_next ctx tr) = Inr response"
proof -
  obtain acts where c: "call_next (request_id_of u) = (acts, Inr r)" using assms(2) by (metis prod.collapse)
  have "fst (run_actions acts ctx1) = None" for ctx1 using plain_runs [of acts "[]"] assms(1) c by simp
  then have "fst (run_action (Bind [(''request_id'', Some (JStr (request_id_of u)))] acts) ctx) = None"
    by (simp add: unknown_vars_def CONTEXT_VARS_def case_prod_unfold)
  then show ?thesis by (simp add: request_id_middleware_def c Let_def case_prod_unfold del: run_action.simps)
qed

section \<open>Properties\<close>

text \<open>C26. Answers can be traced: whatever a request's handler logs on its way, and whether it
  answers or raises, every log line of the request carries the request's identifier, and afterwards
  each context variable that the handler itself does not set has its former value, the identifier
  among them; an answer has the identifier in its \<open>X-Request-Id\<close> header, and an
  error of the domain is answered, with its table's status and the same identifier in its body.
  Two requests never share one.\<close>

theorem answers_can_be_traced:
  assumes "\<not> touch ''request_id'' acts" and "serve_request u acts result ctx tr = (res, ctx', lines, tr')"
  shows "(\<forall>l \<in> set lines. dict_get l ''request_id'' = Some (JStr (request_id_of u))) \<and>
    ctx' ''request_id'' = ctx ''request_id'' \<and> (\<forall>v \<in> set CONTEXT_VARS. \<not> touch v acts \<longrightarrow> ctx' v = ctx v) \<and>
    (\<forall>response. res = Inr response \<longrightarrow> (''X-Request-Id'', request_id_of u) \<in> set (hr_headers response) \<and>
       (\<forall>code msg. result = Inl (PayGuardError code msg) \<longrightarrow>
          hr_status response = (case map_of STATUS_BY_CODE code of None \<Rightarrow> 400 | Some st \<Rightarrow> st) \<and>
          error_request_id (hr_body response) = Some (JStr (request_id_of u)))) \<and>
    (plain acts \<longrightarrow> (\<forall>e. result = Inl e \<longrightarrow> (\<exists>code msg. e = PayGuardError code msg)) \<longrightarrow> (\<exists>response. res = Inr response)) \<and>
    (\<forall>v. u < 2 ^ 128 \<longrightarrow> v < 2 ^ 128 \<longrightarrow> request_id_of u = request_id_of v \<longrightarrow> u = v)"
proof -
  note scope = request_scope [OF _ assms(2) [unfolded serve_request_def], simplified, OF assms(1)]
  have "(''X-Request-Id'', request_id_of u) \<in> set (hr_headers response) \<and>
      (\<forall>code msg. result = Inl (PayGuardError code msg) \<longrightarrow>
         hr_status response = (case map_of STATUS_BY_CODE code of None \<Rightarrow> 400 | Some st \<Rightarrow> st) \<and>
         error_request_id (hr_body response) = Some (JStr (request_id_of u)))" if ok: "res = Inr response" for response
  proof -
    obtain r where r: "exception_layer (request_id_of u) result = Inr r"
      "response = r\<lparr>hr_headers := hr_headers r @ [(''X-Request-Id'', request_id_of u)]\<rparr>" using scope(4) [OF ok] by blast
    then show ?thesis by (auto simp: exception_layer_error dict_get_def)
  qed
  moreover have "\<exists>response. res = Inr response"
    if "plain acts" and "\<forall>e. result = Inl e \<longrightarrow> (\<exists>code msg. e = PayGuardError code msg)"
  proof -
    have "\<exists>r. exception_layer (request_id_of u) result = Inr r"
    proof (cases result)
      case (Inl e)
      with that(2) show ?thesis by (auto simp: exception_layer_error)
    qed (auto simp: exception_layer_def)
    then show ?thesis
      using plain_answers [of "\<lambda>rid. (acts, exception_layer rid result)" u _ ctx tr] that(1) assms(2) by (auto simp: serve_request_def)
  qed
  ultimately show ?thesis using scope(1,2) scope(3) request_ids_differ by blast
qed

theorem answers_can_be_traced_witness:
  "case serve_request 5 (merchant_actions demo_merchant) (Inl (PayGuardError ''RATE_LIMITED'' ''Too many requests.'')) (\<lambda>_. None)
       \<lparr>ts_provider = None, ts_global = None, ts_spans = []\<rparr> of
     (res, ctx', lines, tr') \<Rightarrow>
       ctx' ''request_id'' = None \<and> (\<exists>response. res = Inr response \<and> hr_status response = 429 \<and>
         error_request_id (hr_body response) = Some (JStr (request_id_of 5)))"
proof -
  obtain res ctx' lines tr' where run: "serve_request 5 (merchant_actions demo_merchant)
       (Inl (PayGuardError ''RATE_LIMITED'' ''Too many requests.'')) (\<lambda>_. None)
       \<lparr>ts_provider = None, ts_global = None, ts_spans = []\<rparr> = (res, ctx', lines, tr')" by (rule prod_cases4)
  have "\<not> touch ''request_id'' (merchant_actions demo_merchant)" by (simp add: merchant_actions_def)
  note t = answers_can_be_traced [OF this run]
  have "plain (merchant_actions demo_merchant)" by (simp add: plain_def merchant_actions_def)
  with t obtain response where "res = Inr response" by blast
  with t have "ctx' ''request_id'' = None" "hr_status response = 429" "error_request_id (hr_body response) = Some (JStr (request_id_of 5))"
    by (auto simp: STATUS_BY_CODE_def)
  with \<open>res = Inr response\<close> show ?thesis by (simp add: run)
qed

end
