(* ===== verification/Metrics.thy ===== *)
theory Metrics
  imports Program Api
begin

text \<open>
  The metrics (\<open>packages/observability/metrics.py\<close>): the registered collectors with their labels, and
  which time series the program can create. A session lists the counters its program increments
  as \<open>name\<close> or \<open>name:label\<close>.
\<close>

datatype collector = Counter | Gauge | Histogram

definition METRICS :: "(string \<times> collector \<times> string list) list" where
  "METRICS =
     [(''payment_requests_total'', Counter, []),
      (''payment_success_total'', Counter, []),
      (''payment_failure_total'', Counter, [''reason'']),
      (''payment_processing_duration_seconds'', Histogram, []),
      (''provider_latency_seconds'', Histogram, [''operation'']),
      (''provider_timeout_total'', Counter, []),
      (''idempotency_conflicts_total'', Counter, []),
      (''webhook_events_total'', Counter, [''event_type'']),
      (''webhook_duplicates_total'', Counter, []),
      (''refund_total'', Counter, []),
      (''refund_failures_total'', Counter, []),
      (''outbox_backlog'', Gauge, []),
      (''reconciliation_mismatches_total'', Counter, [''result'']),
      (''rate_limit_rejections_total'', Counter, [])]"

text \<open>The counter of a series, and whether the series has a label exactly when its counter does.\<close>

definition series_counter :: "string \<Rightarrow> string" where
  "series_counter s = takeWhile (\<lambda>c. c \<noteq> CHR '':'') s"

definition registered :: "string \<Rightarrow> bool" where
  "registered s \<longleftrightarrow>
     (case map_of METRICS (series_counter s) of
        Some (Counter, ls) \<Rightarrow> (ls = []) = (series_counter s = s)
      | _ \<Rightarrow> False)"

text \<open>The series of a program, whichever session it runs in.\<close>

definition counts :: "(string \<Rightarrow> bool) \<Rightarrow> 'p session \<Rightarrow> bool" where
  "counts R s \<longleftrightarrow> list_all R (metrics s)"

lemma counts_statements:
  "keeps (counts R) (execute f)" "keeps (counts R) (execute_returning g)" "keeps (counts R) (execute_checked h)"
  "keeps (counts R) commit" "keeps (counts R) rollback" "keeps (counts R) (call_provider c)"
  "keeps (counts R) (materialise row)" "keeps (counts R) (remember i)"
  by (auto simp: keeps_def counts_def execute_def execute_returning_def execute_checked_def commit_def rollback_def
      call_provider_def materialise_def remember_def Let_def split: prod.splits sum.splits)

lemma counts_inc: "R n \<Longrightarrow> keeps (counts R) (inc n)"
  by (simp add: keeps_def counts_def inc_def)

text \<open>The series of the counters whose labels are constants of the code.\<close>

definition CONSTANT_SERIES :: "string list" where
  "CONSTANT_SERIES =
     [''payment_requests_total'', ''payment_success_total'', ''payment_failure_total:blocked'', ''payment_failure_total:declined'',
      ''provider_timeout_total'', ''idempotency_conflicts_total'', ''refund_total'', ''refund_failures_total'',
      ''reconciliation_mismatches_total:AMOUNT_MISMATCH'', ''reconciliation_mismatches_total:CURRENCY_MISMATCH'',
      ''webhook_duplicates_total'', ''rate_limit_rejections_total'']"

lemma constant_series_registered: "list_all registered CONSTANT_SERIES"
  by (simp add: CONSTANT_SERIES_def registered_def series_counter_def METRICS_def)

lemma event_series_registered: "registered (''webhook_events_total:'' @ event_type)"
  by (simp add: registered_def series_counter_def METRICS_def)

abbreviation bounded_series :: "'p session \<Rightarrow> bool" where
  "bounded_series \<equiv> counts (\<lambda>n. n \<in> set CONSTANT_SERIES)"

lemma counts_bounded:
  "keeps bounded_series (inc ''payment_requests_total'')" "keeps bounded_series (inc ''payment_success_total'')"
  "keeps bounded_series (inc ''payment_failure_total:blocked'')" "keeps bounded_series (inc ''payment_failure_total:declined'')"
  "keeps bounded_series (inc ''provider_timeout_total'')" "keeps bounded_series (inc ''idempotency_conflicts_total'')"
  "keeps bounded_series (inc ''refund_total'')" "keeps bounded_series (inc ''refund_failures_total'')"
  "keeps bounded_series (inc ''reconciliation_mismatches_total:AMOUNT_MISMATCH'')"
  "keeps bounded_series (inc ''reconciliation_mismatches_total:CURRENCY_MISMATCH'')"
  by (rule counts_inc, simp add: CONSTANT_SERIES_def)+

lemmas counts_rules = keeps_rules counts_statements counts_bounded

lemma counts_lock: "keeps bounded_series (lock_payment p m)" "keeps bounded_series (relock p m)"
  unfolding relock_def lock_payment_def by (intro counts_rules)+

lemma counts_transition: "keeps bounded_series (apply_transition i t a e)"
  unfolding apply_transition_def by (intro counts_rules)

lemma counts_ledger: "keeps bounded_series (record_payment_settled p amt)" "keeps bounded_series (record_refund_settled p amt)"
  unfolding record_payment_settled_def record_refund_settled_def by (intro counts_rules)+

lemma counts_claim: "keeps bounded_series (claim_idempotency_key ws m k f st)"
  unfolding claim_idempotency_key_def by (intro counts_rules)

lemma counts_on_claim: "(\<And>k. keeps bounded_series (body k)) \<Longrightarrow> keeps bounded_series (on_claim claim body)"
  unfolding on_claim_def fail_claim_and_raise_def fail_idempotency_key_def by (intro counts_rules)

lemma counts_respond: "keeps bounded_series (respond k p r st body)"
  unfolding respond_def complete_idempotency_key_def by (intro counts_rules)

lemmas counts_parts = counts_lock counts_transition counts_ledger counts_claim counts_on_claim counts_respond

lemma counts_create: "keeps bounded_series (create_payment sha P rq)"
  unfolding create_payment_def create_payment_claimed_def create_intent_def start_processing_def assess_and_audit_def
    block_payment_def record_attempt_def record_authorization_def
  by (intro counts_rules counts_parts)

lemma counts_capture: "keeps bounded_series (capture_payment sha P m p k b)"
  unfolding capture_payment_def capture_claimed_def capture_locked_def record_attempt_def
  by (intro counts_rules counts_parts)

lemma counts_refund: "keeps bounded_series (refund_payment sha P m p k b amt)"
  unfolding refund_payment_def refund_claimed_def reserve_refund_def reserve_locked_def settle_refund_def
    settle_refund_row_def settle_payment_status_def
  by (intro counts_rules counts_parts)

lemma counts_reconcile: "keeps bounded_series (reconcile_payment p m P)"
  unfolding reconcile_payment_def apply_answer_def resolve_succeeded_def resolve_failed_def write_report_def
  by (intro counts_rules counts_parts)

lemma counts_pass: "keeps bounded_series (run_reconciliation_pass P m)"
proof -
  have "keeps bounded_series (materialise_all rows)" for rows
    by (induction rows) (auto intro!: counts_rules)
  moreover have "keeps bounded_series (reconcile_all P is)" for "is"
    by (induction "is") (auto intro!: counts_rules counts_reconcile)
  ultimately show ?thesis
    unfolding run_reconciliation_pass_def find_payments_needing_reconciliation_def by (intro counts_rules)
qed

lemma counts_effect: "keeps bounded_series (webhook_effect_dispatch e)"
  unfolding webhook_effect_dispatch_def logging_dispatch_def apply_webhook_event_def handle_payment_outcome_def
    settle_transaction_def settle_outcome_def set_webhook_status_def
  by (intro counts_rules counts_parts keeps_case_JStr)

lemma counts_failure: "keeps bounded_series (record_failure exn_text w e exc)"
  by (cases exc) (auto simp: record_failure_def Let_def intro!: counts_rules)

lemma counts_batch: "keeps bounded_series (batch_rounds exn_text webhook_effect_dispatch ws i n k)"
proof (induction n arbitrary: i k)
  case (Suc n)
  have "keeps bounded_series (process_next exn_text webhook_effect_dispatch (ws i))"
    unfolding process_next_def record_success_def
    by (intro counts_rules keeps_dispatch_event counts_effect counts_failure) (auto simp: record_success_def intro!: counts_rules)
  then show ?case by (auto intro!: counts_rules Suc.IH)
qed (simp add: keeps_ret)

lemma counts_requeue: "keeps bounded_series (requeue_dead_letter eid)"
  unfolding requeue_dead_letter_def by (intro counts_rules)

text \<open>Apart from webhook deliveries the program creates only series of a fixed list, all of them
  registered.\<close>

definition delivery :: "operation \<Rightarrow> bool" where
  "delivery op = (case op of ReceiveWebhook pn pe et pl sg \<Rightarrow> True | _ \<Rightarrow> False)"

lemma series_are_bounded:
  assumes "\<not> delivery op"
  shows "set (metrics (snd (perform E op (open_session d p)))) \<subseteq> set CONSTANT_SERIES"
proof -
  have "keeps bounded_series (perform E op)"
    using assms
    by (cases op) (auto simp: delivery_def run_batch_def intro!: keeps_discard counts_create counts_capture counts_refund counts_reconcile
        counts_pass counts_batch counts_requeue)
  moreover have "bounded_series (open_session d p)" by (simp add: counts_def open_session_def)
  ultimately show ?thesis by (auto simp: keeps_def counts_def list_all_iff)
qed

text \<open>A delivery labels its series with the type in its body, whatever that is.\<close>

lemma delivery_series_are_not:
  "metrics (snd (perform E (ReceiveWebhook pn pe et pl sg) (open_session d p))) =
     (''webhook_events_total:'' @ et) #
     (if \<exists>w \<in> set (webhook_events d). wh_provider_name w = pn \<and> wh_provider_event_id w = pe
      then [''webhook_duplicates_total''] else [])"
  by (auto simp: receive_webhook_def insert_webhook_event_def prog_defs open_session_def inc_def)

end
