(* ===== verification/Worker.thy ===== *)
theory Worker
  imports Permanence
begin

text \<open>
  The worker's loop (\<open>apps/worker/main.py\<close>) over \<open>run_batch\<close>: turns with a sleep between them,
  for as many turns as one asks. The theorem is that a worker left alone gets the outbox done. It
  rests on three facts about the dispatcher that applies webhooks: it adds at most one event, no
  event it adds is a received webhook, and it never violates a constraint of the database, so a
  failure can always be recorded. The work left, a number that each dispatch shrinks, bounds
  the rounds; the cap of the backoff bounds how long the worker can find nothing due.
\<close>

section \<open>What a dispatch leaves in the outbox\<close>

text \<open>The effect of a webhook adds at most one event, due at once, and it is not one of a
  received webhook: the types the transitions write are \<open>webhook.succeeded\<close> and
  \<open>webhook.failed\<close>.\<close>

definition quiet_at :: "instant \<Rightarrow> outbox_event list \<Rightarrow> 'p session \<Rightarrow> bool" where
  "quiet_at t es s \<longleftrightarrow> now (working s) = t \<and> outbox_events (working s) = es"

definition emitted :: "instant \<Rightarrow> outbox_event list \<Rightarrow> 'p session \<Rightarrow> bool" where
  "emitted t es s \<longleftrightarrow> now (working s) = t \<and>
     (outbox_events (working s) = es \<or>
      (\<exists>x. outbox_events (working s) = es @ [x] \<and> new_event x \<and>
         ob_event_type x \<noteq> ''webhook.received'' \<and> ob_available_at x = t))"

lemma quiet_emitted: "quiet_at t es s \<Longrightarrow> emitted t es s"
  by (simp add: quiet_at_def emitted_def)

lemma keeps_outbox_rows:
  assumes "\<And>d. now (f d) = now d" and "\<And>d. outbox_events (f d) = outbox_events d"
  shows "keeps (quiet_at t es) (execute f)" and "keeps (emitted t es) (execute f)"
  by (simp_all add: keeps_def quiet_at_def emitted_def execute_def assms)

lemma status_outbox:
  "keeps (quiet_at t es) (set_webhook_status w st)" "keeps (emitted t es) (set_webhook_status w st)"
  unfolding set_webhook_status_def by (rule keeps_outbox_rows; simp)+

lemma lock_outbox:
  "keeps (quiet_at t es) (materialise row)" "keeps (quiet_at t es) (relock p m)"
  unfolding relock_def lock_payment_def
  by (intro keeps_rules | simp add: keeps_def quiet_at_def materialise_def Let_def)+

lemma settled_outbox: "keeps (emitted t es) (record_payment_settled p amt)"
  by (auto simp: keeps_def emitted_def record_payment_settled_def execute_checked_def add_pair_def Let_def split: prod.splits)

lemma transition_outbox:
  assumes "ev \<noteq> ''webhook.received''"
  shows "triple (quiet_at t es) (apply_transition i tgt a ev) (\<lambda>_. emitted t es) (emitted t es)"
  using assms
  by (auto simp: triple_def apply_transition_run quiet_at_def emitted_def transition_rows_def insert_outbox_event_def
      insert_payment_event_def write_transition_def new_event_def Let_def)

lemma triple_quiet: "keeps (quiet_at t es) m \<Longrightarrow> triple (quiet_at t es) m (\<lambda>_. quiet_at t es) (emitted t es)"
  unfolding keeps_triple by (erule triple_weaken) (auto intro: quiet_emitted)

lemma triple_emitted: "keeps (quiet_at t es) m \<Longrightarrow> triple (quiet_at t es) m (\<lambda>_. emitted t es) (emitted t es)"
  unfolding keeps_triple by (erule triple_weaken) (auto intro: quiet_emitted)

lemma outcome_outbox:
  assumes "tgt = SUCCEEDED \<or> tgt = FAILED"
  shows "triple (quiet_at t es) (settle_outcome wid tgt i) (\<lambda>_. emitted t es) (emitted t es)"
proof -
  have type: "''webhook.'' @ ascii_lower (payment_status_value tgt) \<noteq> ''webhook.received''"
    using assms by (auto simp: ascii_lower_def Let_def)
  have rest: "triple (emitted t es)
      (andthen (if tgt = SUCCEEDED then andthen (record_payment_settled (pi_id l) (pi_amount_minor l)) (ret ()) else ret ())
        (set_webhook_status wid WH_PROCESSED)) (\<lambda>_. emitted t es) (emitted t es)" for l
    unfolding keeps_triple [symmetric] by (intro keeps_rules status_outbox settled_outbox)
  show ?thesis
    unfolding settle_outcome_def
    by (intro triple_if triple_bnd [OF transition_outbox [OF type] rest] triple_emitted [OF status_outbox(1)])
qed

lemma transaction_outbox:
  assumes "tgt = SUCCEEDED \<or> tgt = FAILED"
  shows "triple (quiet_at t es) (settle_transaction wid tgt ptx) (\<lambda>_. emitted t es) (emitted t es)"
  unfolding settle_transaction_def
proof (rule triple_bnd [OF triple_quiet [OF keeps_query]])
  fix row
  have "triple (quiet_at t es) (bnd (materialise r) (\<lambda>intent.
         bnd (relock (pi_id intent) (pi_merchant_id intent)) (settle_outcome wid tgt)))
     (\<lambda>_. emitted t es) (emitted t es)" for r
    by (intro triple_bnd [OF triple_quiet [OF lock_outbox(1)]] triple_bnd [OF triple_quiet [OF lock_outbox(2)]]
        outcome_outbox assms)
  then show "triple (quiet_at t es) (case row of None \<Rightarrow> set_webhook_status wid WH_IGNORED
     | Some r \<Rightarrow> bnd (materialise r) (\<lambda>intent. bnd (relock (pi_id intent) (pi_merchant_id intent)) (settle_outcome wid tgt)))
     (\<lambda>_. emitted t es) (emitted t es)"
    by (cases row) (simp_all add: triple_emitted [OF status_outbox(1)])
qed

lemma handler_outbox:
  assumes "tgt = SUCCEEDED \<or> tgt = FAILED"
  shows "triple (quiet_at t es) (handle_payment_outcome w tgt) (\<lambda>_. emitted t es) (emitted t es)"
  unfolding handle_payment_outcome_def
proof (rule triple_bnd [OF triple_quiet [OF keeps_lift_result]])
  fix ptx
  show "triple (quiet_at t es) (case ptx of None \<Rightarrow> set_webhook_status (wh_id w) WH_IGNORED
     | Some j \<Rightarrow> if \<not> json_truthy j then set_webhook_status (wh_id w) WH_IGNORED
         else (case j of JStr s \<Rightarrow> settle_transaction (wh_id w) tgt s | _ \<Rightarrow> raise DataError))
     (\<lambda>_. emitted t es) (emitted t es)"
    using triple_emitted [OF status_outbox(1)] triple_emitted [OF keeps_raise] transaction_outbox [OF assms]
    by (auto split: option.split json.split)
qed

lemma effect_outbox:
  "triple (quiet_at t es) (webhook_effect_dispatch e) (\<lambda>_. emitted t es) (emitted t es)"
proof -
  have "triple (quiet_at t es) (case row of None \<Rightarrow> ret ()
     | Some w \<Rightarrow> if wh_processing_status w \<noteq> WH_RECEIVED then ret ()
         else (case map_of EVENT_HANDLERS (wh_event_type w) of
             None \<Rightarrow> set_webhook_status (wh_id w) WH_IGNORED
           | Some target \<Rightarrow> handle_payment_outcome w target)) (\<lambda>_. emitted t es) (emitted t es)" for row
    by (intro triple_case_option triple_if triple_emitted [OF keeps_ret] triple_emitted [OF status_outbox(1)] handler_outbox)
      (auto simp: EVENT_HANDLERS_def split: if_splits)
  then have "triple (quiet_at t es) (apply_webhook_event wid) (\<lambda>_. emitted t es) (emitted t es)" for wid
    unfolding apply_webhook_event_def by (rule triple_bnd [OF triple_quiet [OF keeps_query]])
  then show ?thesis
    unfolding webhook_effect_dispatch_def logging_dispatch_def andthen_def
    using triple_emitted [OF keeps_ret]
    by (intro triple_bnd [OF triple_quiet [OF keeps_ret]])
      (auto intro: triple_bnd [OF triple_quiet [OF keeps_lift_result]])
qed

section \<open>A dispatch never breaks the transaction\<close>

definition no_violation :: "exn + 'a \<Rightarrow> bool" where
  "no_violation r \<longleftrightarrow> (\<forall>c. r \<noteq> Inl (IntegrityError c))"

lemma held_amount: "held J i s \<Longrightarrow> 0 < pi_amount_minor i"
proof -
  assume I: "held J i s"
  then obtain row where "row \<in> set (payment_intents (working s))" "agrees i row" by (rule held_row)
  moreover have "schema_wf (working s)" using I by (simp add: inv_with_def stored_def)
  ultimately show ?thesis using agrees_fields [of i row] by (auto simp: schema_wf_def payments_wf_def)
qed

lemma outcome_no_violation:
  assumes "0 < pi_amount_minor i"
  shows "no_violation (fst (settle_outcome wid tgt i s))"
  using assms
  by (auto simp: no_violation_def settle_outcome_def apply_transition_run bnd_def andthen_def ret_def moved_def
      set_webhook_status_def execute_def record_payment_settled_def execute_checked_def add_pair_def Let_def
      split: prod.splits sum.splits if_splits)

lemma transaction_no_violation:
  assumes I: "session_inv J s"
  shows "no_violation (fst (settle_transaction wid tgt ptx s))"
proof (cases "find_by_provider_transaction ptx (working s)")
  case None
  then show ?thesis by (simp add: no_violation_def settle_transaction_def bnd_def query_def set_webhook_status_def execute_def)
next
  case (Some r)
  then have "r \<in> set (payment_intents (working s))"
    by (auto simp: find_by_provider_transaction_def dest: select_one_Some)
  with I have m: "session_inv J s \<and> r \<in> set (payment_intents (working s)) \<and> True" by simp
  have "\<not> (\<exists>e s'. materialise r s = (Inl e, s'))" by (simp add: materialise_def Let_def)
  then obtain i s1 where s1: "materialise r s = (Inr i, s1)" by (cases "materialise r s"; cases "fst (materialise r s)") auto
  with tripleD(1) [OF triple_materialise [where J = J and G = "\<lambda>_. True"] m] have "held J i s1" by blast
  then have I1: "session_inv J s1" by (rule inv_with_weaken)
  obtain x s2 where x: "relock (pi_id i) (pi_merchant_id i) s1 = (x, s2)" by force
  have run: "settle_transaction wid tgt ptx s = bnd (relock (pi_id i) (pi_merchant_id i)) (settle_outcome wid tgt) s1"
    by (simp add: settle_transaction_def bnd_def query_def Some s1)
  show ?thesis
  proof (cases x)
    case (Inl e)
    then have "e = AssertionError" using x
      by (auto simp: relock_def lock_payment_def bnd_def query_def ret_def raise_def materialise_def Let_def split: option.splits)
    then show ?thesis by (simp add: run bnd_def x Inl no_violation_def)
  next
    case (Inr l)
    then have "held J l s2" using tripleD(1) [OF triple_relock' I1] x by blast
    then show ?thesis using outcome_no_violation [OF held_amount] by (simp add: run bnd_def x Inr)
  qed
qed

lemma effect_no_violation:
  assumes "session_inv J s"
  shows "no_violation (fst (webhook_effect_dispatch e s))"
proof -
  have status: "no_violation (fst (set_webhook_status wid st s))" for wid st
    by (simp add: no_violation_def set_webhook_status_def execute_def)
  have "no_violation (fst (handle_payment_outcome w tgt s))" for w tgt
  proof (cases "payload_transaction_id (wh_raw_payload w)")
    case (Inl e)
    then have "e = AttributeError" by (auto simp: payload_transaction_id_def split: option.splits json.splits)
    with Inl show ?thesis by (simp add: handle_payment_outcome_def bnd_def lift_result_def no_violation_def)
  next
    case (Inr p)
    then show ?thesis
      using status transaction_no_violation [OF assms]
      by (auto simp: handle_payment_outcome_def bnd_def lift_result_def raise_def no_violation_def split: option.split json.split)
  qed
  then have "no_violation (fst (apply_webhook_event wid s))" for wid
    using status by (auto simp: apply_webhook_event_def bnd_def query_def ret_def no_violation_def split: option.split)
  then show ?thesis
    by (auto simp: webhook_effect_dispatch_def logging_dispatch_def andthen_def bnd_def ret_def lift_result_def
        no_violation_def payload_webhook_id_def split: option.splits json.splits sum.splits)
qed

section \<open>The work that is left\<close>

text \<open>How many dispatches an event can still cost: one, if it is only logged; for a received
  webhook twice the attempts it has left, because each may add an event.\<close>

definition effort :: "outbox_event \<Rightarrow> nat" where
  "effort e =
     (if ob_status e \<noteq> OB_PENDING then 0
      else if ob_event_type e = ''webhook.received'' then 2 * Suc (MAX_ATTEMPTS - 1 - ob_attempt_count e)
      else 1)"

definition workload :: "db \<Rightarrow> nat" where
  "workload d = sum_list (map effort (outbox_events d))"

text \<open>Everything pending is due by \<open>h\<close>.\<close>

definition horizon :: "instant \<Rightarrow> db \<Rightarrow> bool" where
  "horizon h d \<longleftrightarrow> (\<forall>e \<in> set (outbox_events d). ob_status e = OB_PENDING \<longrightarrow> ob_available_at e \<le> h)"

lemma effort_0: "effort e = 0 \<longleftrightarrow> ob_status e \<noteq> OB_PENDING"
  by (simp add: effort_def)

lemma workload_0: "workload d = 0 \<longleftrightarrow> (\<forall>e \<in> set (outbox_events d). ob_status e \<noteq> OB_PENDING)"
  by (simp add: workload_def effort_0)

lemma effort_update:
  "distinct (map ob_id rows) \<Longrightarrow> e \<in> set rows \<Longrightarrow>
     sum_list (map effort (update_where (\<lambda>x. ob_id x = ob_id e) f rows)) + effort e =
       sum_list (map effort rows) + effort (f e)"
proof (induction rows)
  case (Cons x rows)
  show ?case
  proof (cases "x = e")
    case True
    with Cons.prems have "\<forall>y \<in> set rows. ob_id y \<noteq> ob_id e" by (auto simp: image_iff)
    then have "update_where (\<lambda>x. ob_id x = ob_id e) f rows = rows" by (induction rows) auto
    with True show ?thesis by simp
  next
    case False
    with Cons.prems have "ob_id x \<noteq> ob_id e" by (auto simp: image_iff)
    with False Cons show ?thesis by simp
  qed
qed simp

lemma failed_effort:
  "ob_status e = OB_PENDING \<Longrightarrow> ob_event_type e = ''webhook.received'' \<Longrightarrow> effort (failed_event w r e) + 1 < effort e"
  by (simp add: effort_def failed_event_def Let_def MAX_ATTEMPTS_def) arith

lemma only_webhooks_fail:
  "ob_event_type e \<noteq> ''webhook.received'' \<Longrightarrow> webhook_effect_dispatch e s = (Inr (), s)"
  by (simp add: webhook_effect_dispatch_def logging_dispatch_def andthen_def bnd_def ret_def)

text \<open>Rewriting the row of the claimed event, after the dispatch added at most one.\<close>

lemma rewrite_workload:
  assumes em: "emitted t (outbox_events d) s1" and dist: "distinct (map ob_id (outbox_events (working s1)))"
    and e: "e \<in> set (outbox_events d)"
    and less: "effort (f e) + (if outbox_events (working s1) = outbox_events d then 0 else 1) < effort e"
  shows "workload (set_outbox_event (ob_id e) f (working s1)) < workload d"
proof -
  have "e \<in> set (outbox_events (working s1))" using em e by (auto simp: emitted_def)
  note up = effort_update [OF dist this, of f]
  have "sum_list (map effort (outbox_events (working s1))) \<le>
      workload d + (if outbox_events (working s1) = outbox_events d then 0 else 1)"
    using em by (auto simp: emitted_def workload_def effort_def)
  with up less show ?thesis by (simp add: workload_def set_outbox_event_def)
qed

lemma rewrite_horizon:
  assumes "emitted t (outbox_events d) s1" and "horizon h d" and "t \<le> h"
    and "\<And>x. x \<in> set (outbox_events (working s1)) \<Longrightarrow> ob_status x = OB_PENDING \<Longrightarrow> ob_available_at x \<le> h \<Longrightarrow>
           ob_status (f x) = OB_PENDING \<Longrightarrow> ob_available_at (f x) \<le> h"
    and "\<And>x. ob_status (f x) = OB_PENDING \<Longrightarrow> ob_status x = OB_PENDING"
  shows "horizon h (set_outbox_event i f (working s1))"
  using assms by (auto simp: horizon_def emitted_def set_outbox_event_def set_update_where)

text \<open>What becomes of an event: it stays, and only a pending one changes its status, to processed
  or, if it is a received webhook, to a dead letter.\<close>

definition carried :: "db \<Rightarrow> db \<Rightarrow> bool" where
  "carried d d' \<longleftrightarrow>
     (\<forall>e \<in> set (outbox_events d). \<exists>e' \<in> set (outbox_events d'). ob_id e' = ob_id e \<and> ob_event_type e' = ob_event_type e \<and>
        (ob_status e' = ob_status e \<or>
         ob_status e = OB_PENDING \<and>
           (ob_status e' = OB_PROCESSED \<or> ob_event_type e = ''webhook.received'' \<and> ob_status e' = OB_DEAD_LETTER)))"

lemma carried_refl: "outbox_events d' = outbox_events d \<Longrightarrow> carried d d'"
  by (auto simp: carried_def)

lemma carried_trans: "carried d d1 \<Longrightarrow> carried d1 d2 \<Longrightarrow> carried d d2"
  unfolding carried_def by (metis (no_types, lifting))

lemma rewrite_carried:
  assumes "emitted t (outbox_events d) s1" and "distinct (map ob_id (outbox_events (working s1)))"
    and e: "e \<in> set (outbox_events d)" "ob_status e = OB_PENDING" "ob_id (f e) = ob_id e" "ob_event_type (f e) = ob_event_type e"
    and f: "ob_status (f e) = OB_PENDING \<or> ob_status (f e) = OB_PROCESSED \<or>
      ob_event_type e = ''webhook.received'' \<and> ob_status (f e) = OB_DEAD_LETTER"
  shows "carried d (set_outbox_event (ob_id e) f (working s1))"
proof -
  have sub: "set (outbox_events d) \<subseteq> set (outbox_events (working s1))" using assms(1) by (auto simp: emitted_def)
  have "x = e" if "x \<in> set (outbox_events d)" "ob_id x = ob_id e" for x
    using sub that e(1) assms(2) by (metis (no_types, lifting) distinct_map_inj_row subsetD)
  with sub e f show ?thesis by (fastforce simp: carried_def set_outbox_event_def set_update_where)
qed

section \<open>Rounds and batches\<close>

abbreviation worker_session :: "'p session \<Rightarrow> bool" where
  "worker_session \<equiv> session_inv (\<lambda>_. True)"

text \<open>A poll of the only worker, with the jitter a draw from the unit interval.\<close>

definition lone_poll :: "poll \<Rightarrow> bool" where
  "lone_poll w \<longleftrightarrow> poll_locked w = (\<lambda>_. False) \<and> 0 \<le> poll_random w \<and> poll_random w \<le> 1"

lemma broken_violation:
  assumes "claim_one w (working s) = Some e"
    and "dispatch e (s\<lparr>working := set_clock (poll_now w) (working s)\<rparr>) = (Inl exc, s1)"
    and "process_next exn_text dispatch w s = (r, s')" and "r = Inl PendingRollbackError"
  shows "\<exists>c. exc = IntegrityError c"
  using assms by (cases exc) (auto simp: process_next_def dispatch_event_def record_failure_def set_clock_def prog_defs Let_def)

text \<open>One round: nothing is due and the outbox stays as it is, or the work left shrinks.\<close>

lemma round_progress:
  assumes I: "worker_session s" and w: "lone_poll w" and h: "poll_now w + seconds 300 \<le> h" "horizon h (working s)"
    and run: "process_next exn_text webhook_effect_dispatch w s = (r, s')"
  shows "worker_session s'" and "committed s' = working s'" and "horizon h (working s')"
    and "r = Inr None \<and> outbox_events (working s') = outbox_events (working s) \<and>
           (\<forall>e \<in> set (outbox_events (working s)). \<not> due (poll_now w) e) \<or>
         (\<exists>st. r = Inr (Some st)) \<and> workload (working s') < workload (working s)"
    and "carried (working s) (working s')"
proof -
  show "worker_session s'" using keepsD [OF schema.worker.inv_process_next I run] .
  let ?d = "working s" and ?s = "s\<lparr>working := set_clock (poll_now w) (working s)\<rparr>"
  have I1: "worker_session ?s"
    by (rule keepsD [OF schema.worker.inv_clock I, of "poll_now w" "Inr ()"]) (simp add: execute_def)
  have claimed: "e \<in> set (outbox_events ?d)" "ob_status e = OB_PENDING" "emitted (poll_now w) (outbox_events ?d) s1"
      "distinct (map ob_id (outbox_events (working s1)))" "poll_now w \<le> h" "no_violation res"
      "ob_event_type e \<noteq> ''webhook.received'' \<Longrightarrow> res = Inr () \<and> outbox_events (working s1) = outbox_events ?d"
    if c: "claim_one w ?d = Some e" and d: "webhook_effect_dispatch e ?s = (res, s1)" for e s1 res
  proof -
    show "e \<in> set (outbox_events ?d)" "ob_status e = OB_PENDING"
      using claim_one_Some(1,2) [OF c] by (simp_all add: due_def)
    have "quiet_at (poll_now w) (outbox_events ?d) ?s" by (simp add: quiet_at_def set_clock_def)
    then show "emitted (poll_now w) (outbox_events ?d) s1"
      using tripleD [OF effect_outbox] d by (cases res) blast+
    have "worker_session s1" using keepsD [OF schema.worker.inv_dispatch I1 d] .
    then show "distinct (map ob_id (outbox_events (working s1)))"
      by (simp add: inv_with_def stored_def schema_wf_def fresh_ids_def)
    show "poll_now w \<le> h" using h(1) by (simp add: seconds_def)
    show "no_violation res" using effect_no_violation [OF I1, of e] d by simp
    show "res = Inr () \<and> outbox_events (working s1) = outbox_events ?d" if "ob_event_type e \<noteq> ''webhook.received''"
      using d only_webhooks_fail [OF that, of ?s] by (auto simp: set_clock_def)
  qed
  have "committed s' = working s' \<and> horizon h (working s') \<and> carried (working s) (working s') \<and>
      (r = Inr None \<and> outbox_events (working s') = outbox_events (working s) \<and>
           (\<forall>e \<in> set (outbox_events (working s)). \<not> due (poll_now w) e) \<or>
         (\<exists>st. r = Inr (Some st)) \<and> workload (working s') < workload (working s))"
    using run
  proof (cases rule: effect.process_next_cases)
    case idle
    with w h(2) carried_refl [of "working s'" "working s"] show ?thesis
      by (auto simp: claim_one_None lone_poll_def horizon_def)
  next
    case (processed e s1)
    note c = claimed [OF processed(1,2)]
    let ?f = "\<lambda>x. x\<lparr>ob_status := OB_PROCESSED\<rparr>"
    have "effort (?f e) + (if outbox_events (working s1) = outbox_events ?d then 0 else 1) < effort e"
      using c(2,7) by (auto simp: effort_def)
    then have "workload (working s') < workload ?d" unfolding processed(4) by (intro rewrite_workload [OF c(3,4,1)])
    moreover have "carried ?d (working s')" unfolding processed(4) by (rule rewrite_carried [OF c(3,4,1,2)]) simp_all
    ultimately show ?thesis using rewrite_horizon [OF c(3) h(2) c(5), of ?f "ob_id e"] processed by simp
  next
    case (failed e exc s1)
    note c = claimed [OF failed(1,2)]
    let ?f = "failed_event w (exn_text exc)"
    have "effort (?f e) + 1 < effort e" using c(2,7) by (intro failed_effort) auto
    then have "workload (working s') < workload ?d" unfolding failed(4) by (intro rewrite_workload [OF c(3,4,1)]) simp
    moreover have "horizon h (working s')" unfolding failed(4)
    proof (rule rewrite_horizon [OF c(3) h(2) c(5)])
      fix x show "ob_available_at (?f x) \<le> h" if "ob_status (?f x) = OB_PENDING"
        using that h(1) w compute_backoff_cap [of "poll_random w" "ob_attempt_count x + 1"]
        by (auto simp: failed_event_def Let_def lone_poll_def split: if_splits)
    qed (auto simp: failed_event_def Let_def split: if_splits)
    moreover have "carried ?d (working s')" unfolding failed(4)
      using c(2,7) by (intro rewrite_carried [OF c(3,4,1,2)]) (auto simp: failed_event_def Let_def)
    ultimately show ?thesis using failed(3,5) by simp
  next
    case (broken e exc s1)
    then show ?thesis using broken_violation [OF broken(1,2) run broken(3)] claimed(6) [OF broken(1,2)] by (auto simp: no_violation_def)
  qed
  then show "committed s' = working s'" "horizon h (working s')" "carried (working s) (working s')"
    "r = Inr None \<and> outbox_events (working s') = outbox_events (working s) \<and>
           (\<forall>e \<in> set (outbox_events (working s)). \<not> due (poll_now w) e) \<or>
         (\<exists>st. r = Inr (Some st)) \<and> workload (working s') < workload (working s)" by blast+
qed

text \<open>A batch: it returns, leaves nothing uncommitted, and does nothing only when nothing is due.\<close>

definition progressed :: "instant \<Rightarrow> instant \<Rightarrow> 'p session \<Rightarrow> nat \<Rightarrow> 'p session \<Rightarrow> bool" where
  "progressed h t s m s' \<longleftrightarrow> worker_session s' \<and> committed s' = working s' \<and> horizon h (working s') \<and> carried (working s) (working s') \<and>
     (if m = 0 then outbox_events (working s') = outbox_events (working s) \<and>
                    (\<forall>e \<in> set (outbox_events (working s)). \<not> due t e)
      else workload (working s') < workload (working s))"

lemma batch_progress:
  assumes ws: "\<And>i. lone_poll (ws i)" "\<And>i. poll_now (ws i) + seconds 300 \<le> h"
  shows "worker_session s \<Longrightarrow> horizon h (working s) \<Longrightarrow>
    \<exists>m s'. batch_rounds exn_text webhook_effect_dispatch ws i (Suc n) k s = (Inr (k + m), s') \<and>
      progressed h (poll_now (ws i)) s m s'"
proof (induction n arbitrary: i k s)
  case 0
  obtain r s1 where run: "process_next exn_text webhook_effect_dispatch (ws i) s = (r, s1)" by force
  note p = round_progress [OF 0(1) ws 0(2) run]
  from p(4) show ?case
  proof (elim disjE conjE exE)
    assume "r = Inr None" "outbox_events (working s1) = outbox_events (working s)"
      "\<forall>e \<in> set (outbox_events (working s)). \<not> due (poll_now (ws i)) e"
    with run p(1-3,5) show ?thesis by (intro exI [of _ 0] exI [of _ s1]) (simp add: bnd_def ret_def progressed_def)
  next
    fix st assume "r = Inr (Some st)" "workload (working s1) < workload (working s)"
    with run p(1-3,5) show ?thesis by (intro exI [of _ 1] exI [of _ s1]) (simp add: bnd_def ret_def progressed_def)
  qed
next
  case (Suc n)
  obtain r s1 where run: "process_next exn_text webhook_effect_dispatch (ws i) s = (r, s1)" by force
  note p = round_progress [OF Suc.prems(1) ws Suc.prems(2) run]
  from p(4) show ?case
  proof (elim disjE conjE exE)
    assume "r = Inr None" "outbox_events (working s1) = outbox_events (working s)"
      "\<forall>e \<in> set (outbox_events (working s)). \<not> due (poll_now (ws i)) e"
    with run p(1-3,5) show ?thesis by (intro exI [of _ 0] exI [of _ s1]) (simp add: bnd_def ret_def progressed_def)
  next
    fix st assume r: "r = Inr (Some st)" and less: "workload (working s1) < workload (working s)"
    from Suc.IH [OF p(1,3), of "Suc i" "k + 1"] obtain m s2 where
      b: "batch_rounds exn_text webhook_effect_dispatch ws (Suc i) (Suc n) (k + 1) s1 = (Inr (k + 1 + m), s2)"
        "progressed h (poll_now (ws (Suc i))) s1 m s2" by blast
    have "workload (working s2) \<le> workload (working s1)"
      using b(2) by (auto simp: progressed_def workload_def split: if_splits)
    then have "progressed h (poll_now (ws i)) s (m + 1) s2"
      using b(2) less carried_trans [OF p(5), of "working s2"] by (simp add: progressed_def)
    moreover have "batch_rounds exn_text webhook_effect_dispatch ws i (Suc (Suc n)) k s = (Inr (k + (m + 1)), s2)"
      using run r b(1) by (simp add: bnd_def del: batch_rounds.simps(2) add: batch_rounds.simps(2) [of _ _ _ i])
    ultimately show ?thesis by blast
  qed
qed

section \<open>The loop\<close>

definition POLL_INTERVAL_SECONDS :: int where "POLL_INTERVAL_SECONDS = 1"
definition IDLE_POLL_INTERVAL_SECONDS :: int where "IDLE_POLL_INTERVAL_SECONDS = 5"

text \<open>The first \<open>n\<close> turns of \<open>run_worker_loop\<close>, the first of them turn \<open>k\<close>; round \<open>i\<close> of turn \<open>k\<close>
  reads the poll \<open>wss k i\<close>. Each turn has a session of its own and ends in a sleep: the result
  lists the backlog gauge, the number of events processed and the sleep of each. Nothing
  catches an exception of a turn: it ends the loop.\<close>

fun run_worker_loop ::
    "(exn \<Rightarrow> string) \<Rightarrow> (nat \<Rightarrow> nat \<Rightarrow> poll) \<Rightarrow> nat \<Rightarrow> nat \<Rightarrow> db \<times> 'p \<Rightarrow> (exn + (nat \<times> nat \<times> int) list) \<times> db \<times> 'p" where
  "run_worker_loop exn_text wss k 0 sys = (Inr [], sys)"
| "run_worker_loop exn_text wss k (Suc n) sys =
     (case worker_turn exn_text (wss k) (fst sys) (snd sys) of
        (Inl e, s) \<Rightarrow> (Inl e, committed s, prov_state s)
      | (Inr (pending, processed), s) \<Rightarrow>
          (let pause = (if processed \<noteq> 0 then POLL_INTERVAL_SECONDS else IDLE_POLL_INTERVAL_SECONDS) in
           case run_worker_loop exn_text wss (Suc k) n (committed s, prov_state s) of
             (Inl e, sys') \<Rightarrow> (Inl e, sys')
           | (Inr turns, sys') \<Rightarrow> (Inr ((pending, processed, pause) # turns), sys')))"

text \<open>A worker on its own, and between two turns at least the shorter sleep.\<close>

definition paced :: "(nat \<Rightarrow> nat \<Rightarrow> poll) \<Rightarrow> bool" where
  "paced wss \<longleftrightarrow> (\<forall>k i. lone_poll (wss k i)) \<and>
     (\<forall>k i j. poll_now (wss k i) + seconds POLL_INTERVAL_SECONDS \<le> poll_now (wss (Suc k) j))"

lemma turn_progress:
  assumes "schema_wf d" and "\<And>i. lone_poll (ws i)" and "\<And>i. poll_now (ws i) + seconds 300 \<le> h" and "horizon h d"
  shows "\<exists>m s'. worker_turn exn_text ws d p = (Inr (backlog d, m), s') \<and> progressed h (poll_now (ws 0)) (open_session d p) m s'"
proof -
  have "worker_session (open_session d p)" using assms(1) by (simp add: session_inv_open)
  moreover have "horizon h (working (open_session d p))" using assms(4) by (simp add: open_session_def)
  ultimately obtain m s' where
    b: "batch_rounds exn_text webhook_effect_dispatch ws 0 (Suc 49) 0 (open_session d p) = (Inr (0 + m), s')"
      "progressed h (poll_now (ws 0)) (open_session d p) m s'"
    using batch_progress [where ws = ws and h = h and k = 0 and i = 0 and n = 49, OF assms(2,3)] by blast
  have "run_batch exn_text webhook_effect_dispatch ws BATCH_SIZE (open_session d p) = (Inr m, s')"
    using b(1) by (simp only: run_batch_def BATCH_SIZE_def) (simp del: batch_rounds.simps)
  then have "worker_turn exn_text ws d p = (Inr (backlog d, m), s')"
    by (simp add: worker_turn_def bnd_def query_def ret_def open_session_def)
  with b(2) show ?thesis by blast
qed

text \<open>With everything due \<open>c\<close> seconds after the first poll, \<open>c + 1\<close> turns get something done.\<close>

lemma loop_drains:
  assumes wss: "paced wss"
  shows "schema_wf d \<Longrightarrow> horizon (poll_now (wss k 0) + seconds (int c)) d \<Longrightarrow> c \<le> 300 \<Longrightarrow>
    workload d = 0 \<or> c + 1 + 301 * (workload d - 1) \<le> n \<Longrightarrow>
    \<exists>turns d' p'. run_worker_loop exn_text wss k n (d, p) = (Inr turns, d', p') \<and> length turns = n \<and>
      workload d' = 0 \<and> carried d d'"
proof (induction n arbitrary: k c d p)
  case 0
  then show ?case by (simp add: carried_refl)
next
  case (Suc n)
  let ?h = "poll_now (wss (Suc k) 0) + seconds 300"
  have pace: "poll_now (wss k i) + seconds 1 \<le> poll_now (wss (Suc k) 0)" and lone: "lone_poll (wss k i)" for i
    using wss by (simp_all add: paced_def POLL_INTERVAL_SECONDS_def)
  have late: "poll_now (wss k i) + seconds 300 \<le> ?h" for i using pace [of i] by (simp add: seconds_def)
  have "horizon ?h d" using Suc.prems(2,3) pace [of 0] by (fastforce simp: horizon_def seconds_def)
  from turn_progress [where ws = "wss k" and exn_text = exn_text and p = p, OF Suc.prems(1) lone late this] obtain m s where
    turn: "worker_turn exn_text (wss k) d p = (Inr (backlog d, m), s)" and
    pr: "progressed ?h (poll_now (wss k 0)) (open_session d p) m s" by blast
  have s: "worker_session s" "committed s = working s" "horizon ?h (committed s)" "carried d (committed s)"
    using pr by (simp_all add: progressed_def open_session_def)
  have wf: "schema_wf (committed s)" by (rule session_inv_committed(2) [OF s(1)])
  have "\<exists>c' \<le> 300. horizon (poll_now (wss (Suc k) 0) + seconds (int c')) (committed s) \<and>
      (workload (committed s) = 0 \<or> c' + 1 + 301 * (workload (committed s) - 1) \<le> n)"
  proof (cases "m = 0")
    case False
    then have "workload (committed s) < workload d" using pr s(2) by (simp add: progressed_def open_session_def)
    with Suc.prems(4) s(3) show ?thesis by (intro exI [of _ 300]) auto
  next
    case True
    then have same: "outbox_events (committed s) = outbox_events d" and idle: "\<forall>e \<in> set (outbox_events d). \<not> due (poll_now (wss k 0)) e"
      using pr s(2) by (simp_all add: progressed_def open_session_def)
    then have work: "workload (committed s) = workload d" by (simp add: workload_def)
    show ?thesis
    proof (cases "workload d = 0")
      case True
      with work s(3) show ?thesis by (intro exI [of _ 300]) simp
    next
      case False
      then obtain e where e: "e \<in> set (outbox_events d)" "ob_status e = OB_PENDING" by (auto simp: workload_0)
      have "c \<noteq> 0"
      proof
        assume "c = 0"
        with Suc.prems(2) e have "due (poll_now (wss k 0)) e" by (simp add: horizon_def due_def seconds_def)
        with idle e(1) show False by blast
      qed
      then obtain c' where c: "c = Suc c'" by (cases c) auto
      have "horizon (poll_now (wss (Suc k) 0) + seconds (int c')) (committed s)"
        using Suc.prems(2) pace [of 0] same by (fastforce simp: horizon_def seconds_def c)
      with False Suc.prems(3,4) work c show ?thesis by (intro exI [of _ c']) simp
    qed
  qed
  then obtain c' where c': "c' \<le> 300" "horizon (poll_now (wss (Suc k) 0) + seconds (int c')) (committed s)"
    "workload (committed s) = 0 \<or> c' + 1 + 301 * (workload (committed s) - 1) \<le> n" by blast
  from Suc.IH [OF wf c'(2,1,3), of "prov_state s"] obtain turns d' p' where
    rest: "run_worker_loop exn_text wss (Suc k) n (committed s, prov_state s) = (Inr turns, d', p')" "length turns = n"
      "workload d' = 0" "carried (committed s) d'" by blast
  from carried_trans [OF s(4) rest(4)] rest turn show ?case by (simp add: Let_def)
qed

section \<open>Properties\<close>

text \<open>C14. The outbox is drained: from every state the program reaches, a worker on its own never
  stops on an exception, and after at most 301 turns for each unit of work left (its backoff never
  exceeds 300 seconds, a turn comes at least every second) no event is pending: each event that
  was is processed, or is a received webhook that failed eight times and is a dead letter.\<close>

theorem worker_drains_the_outbox:
  assumes "reachable allowed E (d, p)" and "paced wss"
    and "horizon (poll_now (wss 0 0) + seconds 300) d" and "301 * workload d \<le> n"
  shows "\<exists>turns d' p'. run_worker_loop (env_exn_text E) wss 0 n (d, p) = (Inr turns, d', p') \<and> length turns = n \<and>
    (\<forall>e \<in> set (outbox_events d'). ob_status e \<noteq> OB_PENDING) \<and>
    (\<forall>e \<in> set (outbox_events d). ob_status e = OB_PENDING \<longrightarrow>
       (\<exists>e' \<in> set (outbox_events d'). ob_id e' = ob_id e \<and>
          (ob_status e' = OB_PROCESSED \<or> ob_event_type e = ''webhook.received'' \<and> ob_status e' = OB_DEAD_LETTER)))"
proof -
  have "schema_wf d" using schema.reachable_all [OF TrueI assms(1)] by simp
  moreover have "horizon (poll_now (wss 0 0) + seconds (int 300)) d" using assms(3) by simp
  moreover have "workload d = 0 \<or> 300 + 1 + 301 * (workload d - 1) \<le> n" using assms(4) by (cases "workload d") auto
  ultimately obtain turns d' p' where
    run: "run_worker_loop (env_exn_text E) wss 0 n (d, p) = (Inr turns, d', p')" "length turns = n" "workload d' = 0" "carried d d'"
    using loop_drains [OF assms(2), of d 0 300 n "env_exn_text E" p] by auto
  have "\<exists>e' \<in> set (outbox_events d'). ob_id e' = ob_id e \<and>
      (ob_status e' = OB_PROCESSED \<or> ob_event_type e = ''webhook.received'' \<and> ob_status e' = OB_DEAD_LETTER)"
    if "e \<in> set (outbox_events d)" "ob_status e = OB_PENDING" for e
    using run(3,4) that unfolding workload_0 carried_def by metis
  with run show ?thesis by (auto simp: workload_0)
qed

definition demo_delivery :: operation where
  "demo_delivery = ReceiveWebhook ''mock'' ''evt_1'' ''payment.succeeded'' [] ''sig''"

definition worker_env :: "mock_state env" where
  "worker_env = \<lparr>env_sha256hex = (\<lambda>_. ''digest''), env_exn_text = (\<lambda>_. ''error''), env_provider = MockProvider id\<rparr>"

definition demo_polls :: "nat \<Rightarrow> nat \<Rightarrow> poll" where
  "demo_polls k i = \<lparr>poll_now = 10 + seconds (int k), poll_locked = \<lambda>_. False, poll_random = 0\<rparr>"

theorem worker_drains_the_outbox_witness:
  "\<exists>d p turns d' p'. (d, p) = run_operation worker_env demo_delivery 5 (initial_db 0 [], mock_init) \<and> workload d = 16 \<and>
     run_worker_loop (env_exn_text worker_env) demo_polls 0 4816 (d, p) = (Inr turns, d', p') \<and> length turns = 4816 \<and>
     (\<forall>e \<in> set (outbox_events d'). ob_status e \<noteq> OB_PENDING)"
proof -
  obtain d p where dp: "(d, p) = run_operation worker_env demo_delivery 5 (initial_db 0 [], mock_init)" by (metis surj_pair)
  have r: "reachable (\<lambda>_. True) worker_env (d, p)" unfolding dp by (intro reachable.intros) simp
  have events: "outbox_events d = [\<lparr>ob_id = 2, ob_aggregate_type = ''webhook_event'', ob_aggregate_id = 1,
      ob_event_type = ''webhook.received'', ob_payload = [(''webhook_event_id'', JStr (uuid_str 1))],
      ob_status = OB_PENDING, ob_attempt_count = 0, ob_available_at = 5, ob_failure_reason = None, ob_created_at = 5\<rparr>]"
    using arg_cong [OF dp, of fst]
    by (simp add: run_operation_def worker_env_def demo_delivery_def receive_webhook_def initial_db_def empty_db_def
        open_session_def set_clock_def insert_webhook_event_def insert_outbox_event_def prog_defs Let_def)
  have w: "workload d = 16" by (simp add: workload_def events effort_def MAX_ATTEMPTS_def)
  have "paced demo_polls" by (simp add: paced_def demo_polls_def lone_poll_def POLL_INTERVAL_SECONDS_def seconds_def)
  moreover have "horizon (poll_now (demo_polls 0 0) + seconds 300) d" by (simp add: horizon_def events demo_polls_def seconds_def)
  ultimately obtain turns d' p' where
    "run_worker_loop (env_exn_text worker_env) demo_polls 0 4816 (d, p) = (Inr turns, d', p')" "length turns = 4816"
    "\<forall>e \<in> set (outbox_events d'). ob_status e \<noteq> OB_PENDING"
    using worker_drains_the_outbox [OF r, of demo_polls 4816] w by fastforce
  with dp w show ?thesis by blast
qed

end
