(* ===== verification/Scripts.thy ===== *)
theory Scripts
  imports Scenarios Api
begin

text \<open>
  Operator scripts besides the two of \<open>Merchants\<close>: \<open>seed_demo_merchant.py\<close>, \<open>run_reconciliation.py\<close> and the
  first three walkthroughs of \<open>demo_scenarios.py\<close>. What a script prints is its result.
\<close>

section \<open>The demo merchant\<close>

definition DEMO_API_KEY :: string where
  "DEMO_API_KEY = ''sk_test_demo_public_9f3a7c2e1b6d4f8a0c5e9b2d7f1a4c6e''"

definition DEMO_MERCHANT_NAME :: string where
  "DEMO_MERCHANT_NAME = ''Demo Merchant''"

definition seed_demo_merchant :: "(string \<Rightarrow> string) \<Rightarrow> ('p, merchant) prog" where
  "seed_demo_merchant sha256hex =
     (let key_hash = hash_api_key sha256hex DEMO_API_KEY in
      bnd (query (\<lambda>d. filter (\<lambda>m. m_api_key_hash m = key_hash) (merchants d))) (\<lambda>rows.
      bnd (lift_result (scalar_one_or_none rows)) (\<lambda>existing.
      case existing of
        Some merchant \<Rightarrow> ret merchant
      | None \<Rightarrow>
          bnd (execute_checked (insert_merchant DEMO_MERCHANT_NAME key_hash)) (\<lambda>merchant.
          andthen commit (ret merchant)))))"

lemma demo_key_presentable: "presentable DEMO_API_KEY"
  by (simp add: presentable_def DEMO_API_KEY_def strip_def is_space_def)

text \<open>Running the script again finds the merchant and writes nothing.\<close>

lemma seeded_again:
  assumes "filter (\<lambda>m. m_api_key_hash m = sha256hex DEMO_API_KEY) (merchants d) = [m]"
  shows "seed_demo_merchant sha256hex (open_session d p) = (Inr m, open_session d p)"
  using assms by (simp add: seed_demo_merchant_def hash_api_key_def prog_defs open_session_def scalar_one_or_none_def Let_def)

text \<open>Seeding the demo merchant is idempotent: on a database where the demo key is nobody's, the
  script adds one merchant that the key authenticates from then on, and every later run returns
  that merchant and changes nothing.\<close>

theorem demo_merchant_is_seeded_once:
  assumes "credentials_wf d" and "sha256hex DEMO_API_KEY \<notin> \<Union> (credentials_of ` set (merchants d))"
  shows "\<exists>m s. seed_demo_merchant sha256hex (open_session d p) = (Inr m, s) \<and> m_name m = DEMO_MERCHANT_NAME \<and>
    merchants (committed s) = merchants d @ [m] \<and> admitted sha256hex DEMO_API_KEY t (committed s) = Inr m \<and>
    seed_demo_merchant sha256hex (open_session (committed s) q) = (Inr m, open_session (committed s) q)"
proof -
  let ?h = "sha256hex DEMO_API_KEY"
  define m where "m = \<lparr>m_id = next_uuid d, m_name = DEMO_MERCHANT_NAME, m_api_key_hash = ?h, m_previous_api_key_hash = None,
    m_previous_api_key_expires_at = None, m_status = M_active, m_created_at = now d\<rparr>"
  let ?d = "d\<lparr>next_uuid := Suc (next_uuid d), merchants := merchants d @ [m]\<rparr>"
  have none: "filter (\<lambda>m. m_api_key_hash m = ?h) (merchants d) = []"
    using assms(2) by (auto simp: filter_empty_conv credentials_of_def)
  have clash: "merchant_clash m (merchants d) = None"
    using assms(2) by (auto simp: merchant_clash_def m_def credentials_of_def)
  have "\<exists>s. seed_demo_merchant sha256hex (open_session d p) = (Inr m, s) \<and> committed s = ?d"
    using clash none
    by (simp add: seed_demo_merchant_def insert_merchant_def hash_api_key_def prog_defs open_session_def scalar_one_or_none_def
        Let_def m_def)
  then obtain s where s: "seed_demo_merchant sha256hex (open_session d p) = (Inr m, s)" "committed s = ?d" by blast
  have cred: "credentials_of m = {?h}" by (simp add: m_def credentials_of_def)
  have "fresh_ids m_id (merchants d @ [m]) (Suc (next_uuid d))"
    using assms(1) by (intro fresh_ids_insert) (simp_all add: credentials_wf_def m_def)
  then have wf: "credentials_wf ?d"
    using assms cred unfolding credentials_wf_def by auto
  have mem: "m \<in> set (merchants ?d)" "key_matches ?h t m" "m_status m = M_active" "m_name m = DEMO_MERCHANT_NAME"
    by simp (simp_all add: m_def key_matches_def)
  have "filter (\<lambda>m. m_api_key_hash m = ?h) (merchants ?d) = [m]" using none by (simp add: m_def)
  from seeded_again [where d = ?d and sha256hex = sha256hex, OF this] admitted_iff(1) [where sha256hex = sha256hex, OF wf demo_key_presentable mem(1,2)] mem(3,4) s show ?thesis by auto
qed

theorem demo_merchant_is_seeded_once_witness:
  "\<exists>m s. seed_demo_merchant (\<lambda>k. k) (open_session demo_merchants ()) = (Inr m, s) \<and> length (merchants (committed s)) = 2 \<and>
     admitted (\<lambda>k. k) DEMO_API_KEY 1000 (committed s) = Inr m"
proof -
  have "DEMO_API_KEY \<notin> \<Union> (credentials_of ` set (merchants demo_merchants))"
    by (simp add: demo_merchants_wf credentials_of_def) (simp add: demo_merchant_def DEMO_API_KEY_def)
  then obtain m s where "seed_demo_merchant (\<lambda>k. k) (open_session demo_merchants ()) = (Inr m, s)"
    "merchants (committed s) = merchants demo_merchants @ [m]" "admitted (\<lambda>k. k) DEMO_API_KEY 1000 (committed s) = Inr m"
    using demo_merchant_is_seeded_once [where sha256hex = "\<lambda>k. k" and p = "()" and q = "()" and t = 1000, OF demo_merchants_wf(1)] by blast
  then show ?thesis by (simp add: demo_merchants_wf)
qed

text \<open>The lookup reads the current key only. After the demo merchant's key was rotated, the script
  adds a second merchant, and until the old key's overlap ends the demo key matches both: every
  request with it fails.\<close>

lemma reseeding_breaks_the_demo_key:
  assumes m: "m \<in> set (merchants d)" "m_previous_api_key_hash m = Some (sha256hex DEMO_API_KEY)"
      "m_previous_api_key_expires_at m = Some e" "t < e"
    and cur: "\<And>n. n \<in> set (merchants d) \<Longrightarrow> m_api_key_hash n \<noteq> sha256hex DEMO_API_KEY"
  shows "\<exists>m' s. seed_demo_merchant sha256hex (open_session d p) = (Inr m', s) \<and> merchants (committed s) = merchants d @ [m'] \<and>
    admitted sha256hex DEMO_API_KEY t (committed s) = Inl MultipleResultsFound"
proof -
  let ?h = "sha256hex DEMO_API_KEY"
  define m' where "m' = \<lparr>m_id = next_uuid d, m_name = DEMO_MERCHANT_NAME, m_api_key_hash = ?h, m_previous_api_key_hash = None,
    m_previous_api_key_expires_at = None, m_status = M_active, m_created_at = now d\<rparr>"
  let ?d = "d\<lparr>next_uuid := Suc (next_uuid d), merchants := merchants d @ [m']\<rparr>"
  have none: "filter (\<lambda>m. m_api_key_hash m = ?h) (merchants d) = []" using cur by (auto simp: filter_empty_conv)
  have clash: "merchant_clash m' (merchants d) = None" using cur by (auto simp: merchant_clash_def m'_def)
  have "\<exists>s. seed_demo_merchant sha256hex (open_session d p) = (Inr m', s) \<and> committed s = ?d"
    using clash none
    by (simp add: seed_demo_merchant_def insert_merchant_def hash_api_key_def prog_defs open_session_def scalar_one_or_none_def
        Let_def m'_def)
  moreover have "admitted sha256hex DEMO_API_KEY t ?d = Inl MultipleResultsFound"
  proof -
    have "m \<in> set (filter (key_matches ?h t) (merchants d))" using m by (simp add: key_matches_def)
    then obtain x xs where "filter (key_matches ?h t) (merchants d) = x # xs" by (cases "filter (key_matches ?h t) (merchants d)") auto
    moreover have "key_matches ?h t m'" by (simp add: key_matches_def m'_def)
    ultimately have two: "scalar_one_or_none (filter (key_matches ?h t) (merchants d @ [m'])) = Inl MultipleResultsFound"
      by (simp add: scalar_one_or_none_def split: list.split)
    have "bearer_key (Some (''Bearer '' @ DEMO_API_KEY)) = Some DEMO_API_KEY"
      using demo_key_presentable by (intro bearer_key_simp) (simp_all add: presentable_def)
    with two show ?thesis
      unfolding admitted_def get_current_merchant_def
      by (simp add: hash_api_key_def bnd_def query_def lift_result_def open_session_def set_clock_def del: filter_append)
  qed
  ultimately show ?thesis by auto
qed

section \<open>The reconciliation script\<close>

text \<open>The script asks a provider made for the occasion, which has seen nothing.\<close>

definition run_reconciliation_main :: "(nat \<Rightarrow> uuid) \<Rightarrow> db \<Rightarrow> (exn + reconciliation_report list) \<times> mock_state session" where
  "run_reconciliation_main uuid4 d = run_reconciliation_pass (MockProvider uuid4) None (open_session d mock_init)"

text \<open>What such a pass must not touch: the statuses of payments, the ledger, attempts.\<close>

definition money_rows :: "db \<Rightarrow> (uuid \<times> payment_status) list \<times> ledger_entry list \<times> payment_attempt list" where
  "money_rows d = (map (\<lambda>p. (pi_id p, pi_status p)) (payment_intents d), ledger_entries d, payment_attempts d)"

definition idle_money :: "(uuid \<times> payment_status) list \<times> ledger_entry list \<times> payment_attempt list \<Rightarrow> mock_state session \<Rightarrow> bool" where
  "idle_money x s \<longleftrightarrow> money_rows (working s) = x \<and> money_rows (committed s) = x \<and> prov_state s = mock_init"

lemma idle_statements:
  "keeps (idle_money x) commit" "keeps (idle_money x) (materialise row)" "keeps (idle_money x) (remember i)"
  "keeps (idle_money x) (write_report p r st ps dt)"
  by (simp_all add: keeps_def idle_money_def commit_def materialise_def remember_def write_report_run money_rows_def Let_def)

lemma idle_lock: "keeps (idle_money x) (lock_payment p m)" "keeps (idle_money x) (relock p m)"
  unfolding relock_def lock_payment_def by (intro keeps_rules idle_statements)+

lemma idle_transition:
  assumes "pi_status i = UNKNOWN"
  shows "keeps (idle_money x) (apply_transition i UNKNOWN a e)"
proof -
  have "money_rows (transition_rows p UNKNOWN UNKNOWN v a e d) = money_rows d" for p v d
    by (simp add: money_rows_def transition_rows_def insert_outbox_event_def insert_payment_event_def write_transition_def
        map_update_where)
  then have "keeps (idle_money x) (execute (transition_rows p UNKNOWN UNKNOWN v a e))" for p v
    by (simp add: keeps_def idle_money_def execute_def)
  then show ?thesis unfolding apply_transition_def Let_def assms by (intro keeps_rules idle_statements)
qed

lemma idle_answer:
  assumes "pr_outcome res = PO_UNKNOWN"
  shows "keeps (idle_money x) (apply_answer nm res i)"
  unfolding apply_answer_def using assms
  by (auto intro!: keeps_rules idle_statements idle_transition)

lemma fresh_mock_answer:
  "triple (idle_money x) (call_provider (prov_get_payment_status_by_idempotency_key (MockProvider u) k))
     (\<lambda>res s. pr_outcome res = PO_UNKNOWN \<and> idle_money x s) (idle_money x)"
  by (simp add: triple_def call_provider_def MockProvider_def mock_get_payment_status_by_idempotency_key_def mock_init_def
      idle_money_def unknown_result_def)

lemma idle_reconcile: "keeps (idle_money x) (reconcile_payment p m (MockProvider u))"
proof -
  have "triple (\<lambda>s. pr_outcome res = PO_UNKNOWN \<and> idle_money x s) (bnd (relock p m) (apply_answer nm res))
      (\<lambda>_. idle_money x) (idle_money x)" for res nm
    by (cases "pr_outcome res = PO_UNKNOWN")
      (auto simp: triple_def [of "\<lambda>s. False"] keeps_triple [symmetric] intro!: keeps_rules idle_lock idle_answer)
  then have ask: "keeps (idle_money x) (bnd (call_provider (prov_get_payment_status_by_idempotency_key (MockProvider u) k))
      (\<lambda>res. bnd (relock p m) (apply_answer nm res)))" for k nm
    unfolding keeps_triple by (rule triple_bnd [OF fresh_mock_answer])
  show ?thesis unfolding reconcile_payment_def by (rule ask | rule keeps_rules idle_statements idle_lock)+
qed

lemma script_resolves_nothing:
  "money_rows (committed (snd (run_reconciliation_main uuid4 d))) = money_rows d"
proof -
  have "keeps (idle_money x) (materialise_all rows)" for x rows
    by (induction rows) (auto intro!: keeps_rules idle_statements)
  moreover have "keeps (idle_money x) (reconcile_all (MockProvider uuid4) is)" for x "is"
    by (induction "is") (auto intro!: keeps_rules idle_reconcile)
  ultimately have "keeps (idle_money x) (run_reconciliation_pass (MockProvider uuid4) None)" for x
    unfolding run_reconciliation_pass_def find_payments_needing_reconciliation_def by (intro keeps_rules)
  moreover have "idle_money (money_rows d) (open_session d mock_init)" by (simp add: idle_money_def open_session_def)
  ultimately show ?thesis unfolding run_reconciliation_main_def keeps_def idle_money_def by blast
qed

section \<open>Walkthroughs\<close>

text \<open>A request of the in-process client at time \<open>t\<close>: a session of its own on the committed rows,
  after the guards (the script's merchant is new, its bucket full).\<close>

definition call_api :: "('p, 'a) prog \<Rightarrow> instant \<Rightarrow> db \<times> 'p \<Rightarrow> (exn + 'a) \<times> db \<times> 'p" where
  "call_api endpoint t sys =
     (case endpoint (open_session (set_clock t (fst sys)) (snd sys)) of
        (res, s) \<Rightarrow> (res, committed s, prov_state s))"

definition demo_payload :: "int \<Rightarrow> string \<Rightarrow> payment_create_request" where
  "demo_payload amount token = \<lparr>pc_amount = amount, pc_currency = ''USD'', pc_merchant_reference = None, pc_method_type = ''token'',
     pc_method_token = token, pc_billing_country = None, pc_shipping_country = None, pc_customer_ip = None\<rparr>"

text \<open>\<open>response.json()[name]\<close> of an answered request.\<close>

fun answer_field :: "string \<Rightarrow> exn + response \<Rightarrow> json option" where
  "answer_field name (Inr (st, Some (JObj kvs))) = dict_get kvs name"
| "answer_field name _ = None"

definition answer_id :: "exn + response \<Rightarrow> uuid option" where
  "answer_id r = (case answer_field ''id'' r of Some (JStr u) \<Rightarrow> uuid_of_str u | _ \<Rightarrow> None)"

definition demo_create ::
    "'p env \<Rightarrow> (payment_create_request \<Rightarrow> string) \<Rightarrow> merchant \<Rightarrow> int \<Rightarrow> string \<Rightarrow> string \<Rightarrow> instant \<Rightarrow> db \<times> 'p \<Rightarrow>
     (exn + response) \<times> db \<times> 'p" where
  "demo_create E dumps merchant amount token key =
     call_api (create_payment_endpoint (env_sha256hex E) (env_provider E) (demo_payload amount token) (Some key)
       (dumps (demo_payload amount token)) (Some ''127.0.0.1'') merchant)"

text \<open>The walkthroughs return the statuses they print; \<open>t\<close> is when each request is made, \<open>k\<close> are
  the drawn idempotency keys.\<close>

definition demo_1_happy_path ::
    "'p env \<Rightarrow> (payment_create_request \<Rightarrow> string) \<Rightarrow> merchant \<Rightarrow> string \<Rightarrow> string \<Rightarrow> instant \<Rightarrow> instant \<Rightarrow> db \<times> 'p \<Rightarrow> json option list" where
  "demo_1_happy_path E dumps merchant k1 k2 t1 t2 sys =
     (case demo_create E dumps merchant 4999 ''pm_demo_ok'' k1 t1 sys of (create, sys1) \<Rightarrow>
        (case answer_id create of
           None \<Rightarrow> [answer_field ''status'' create]
         | Some payment_id \<Rightarrow>
             (case call_api (capture_payment_endpoint (env_sha256hex E) (env_provider E) payment_id (Some k2) [] merchant) t2 sys1 of
                (capture, sys2) \<Rightarrow> [answer_field ''status'' create, answer_field ''status'' capture])))"

definition demo_2_declined ::
    "'p env \<Rightarrow> (payment_create_request \<Rightarrow> string) \<Rightarrow> merchant \<Rightarrow> string \<Rightarrow> instant \<Rightarrow> db \<times> 'p \<Rightarrow> json option list" where
  "demo_2_declined E dumps merchant k t sys =
     (case demo_create E dumps merchant 2500 ''pm_demo_declined'' k t sys of (create, sys1) \<Rightarrow> [answer_field ''status'' create])"

definition demo_3_timeout_reconciliation ::
    "'p env \<Rightarrow> (payment_create_request \<Rightarrow> string) \<Rightarrow> merchant \<Rightarrow> uuid \<Rightarrow> string \<Rightarrow> instant \<Rightarrow> instant \<Rightarrow> instant \<Rightarrow> db \<times> 'p \<Rightarrow>
     json option list \<times> reconciliation_result list" where
  "demo_3_timeout_reconciliation E dumps merchant u k t1 t2 t3 sys =
     (case demo_create E dumps merchant 7500 (''pm_demo_timeout_'' @ hex_str 32 u) k t1 sys of (create, sys1) \<Rightarrow>
        (case answer_id create of
           None \<Rightarrow> ([answer_field ''status'' create], [])
         | Some payment_id \<Rightarrow>
             (case call_api (run_reconciliation_pass (env_provider E) (Some (m_id merchant))) t2 sys1 of
                (Inl e, sys2) \<Rightarrow> ([answer_field ''status'' create], [])
              | (Inr reports, sys2) \<Rightarrow>
                  (case call_api (get_payment_endpoint payment_id merchant) t3 sys2 of
                     (check, sys3) \<Rightarrow>
                       ([answer_field ''status'' create,
                         answer_field ''status'' (case check of Inl e \<Rightarrow> Inl e | Inr body \<Rightarrow> Inr (Some 200, Some body))],
                        map rr_result (filter (\<lambda>r. rr_payment_intent_id r = payment_id) reports))))))"

lemmas walkthrough_defs = demo_defs call_api_def create_payment_endpoint_def capture_payment_endpoint_def
  demo_payload_def require_idempotency_key_def declined_result_def demo_merchant_def HIGH_RISK_IP_PREFIXES_def starts_with_def

definition walk_created :: "(exn + response) \<times> db \<times> mock_state" where
  "walk_created = demo_create demo_env (\<lambda>_. []) demo_merchant 4999 ''pm_demo_ok'' ''k1'' 1000 demo_start"

definition walk_payment :: payment_intent where
  "walk_payment = \<lparr>pi_id = 2, pi_merchant_id = 7, pi_customer_id = None, pi_amount_minor = 4999, pi_currency = ''USD'',
     pi_status = PROCESSING, pi_merchant_reference = None, pi_version = 2, pi_created_at = 1000, pi_updated_at = 1000\<rparr>"

lemma walk_created_answer: "fst walk_created = Inr (Some 201, Some (JObj (serialize_payment walk_payment)))"
  unfolding walk_created_def demo_create_def by (simp add: walkthrough_defs walk_payment_def numeral_2_eq_2)

lemma walk_captured_answer:
  "fst (call_api (capture_payment_endpoint (env_sha256hex demo_env) (env_provider demo_env) 2 (Some ''k2'') [] demo_merchant) 2000
     (snd walk_created)) =
   Inr (Some 200, Some (JObj (serialize_payment (walk_payment\<lparr>pi_status := SUCCEEDED, pi_version := 3\<rparr>))))"
  unfolding walk_created_def demo_create_def by (simp add: walkthrough_defs walk_payment_def numeral_2_eq_2)

lemma answer_of_payment:
  "dict_get (serialize_payment p) ''status'' = Some (JStr (payment_status_value (pi_status p)))"
  "pi_id p < 2 ^ 128 \<Longrightarrow> answer_id (Inr (st, Some (JObj (serialize_payment p)))) = Some (pi_id p)"
  by (simp_all add: answer_id_def dict_get_def serialize_payment_def uuid_of_str_uuid_str)

lemma happy_path_prints:
  "demo_1_happy_path demo_env (\<lambda>_. []) demo_merchant ''k1'' ''k2'' 1000 2000 demo_start = [Some (JStr ''PROCESSING''), Some (JStr ''SUCCEEDED'')]"
proof -
  have "pi_id walk_payment = 2" "pi_status walk_payment = PROCESSING" by (simp_all add: walk_payment_def)
  then show ?thesis
    unfolding demo_1_happy_path_def walk_created_def [symmetric]
    by (simp add: case_prod_unfold walk_created_answer walk_captured_answer answer_of_payment)
qed

lemma declined_prints:
  "demo_2_declined demo_env (\<lambda>_. []) demo_merchant ''k1'' 1000 demo_start = [Some (JStr ''FAILED'')]"
proof -
  have "fst (demo_create demo_env (\<lambda>_. []) demo_merchant 2500 ''pm_demo_declined'' ''k1'' 1000 demo_start) =
      Inr (Some 201, Some (JObj (serialize_payment (walk_payment\<lparr>pi_amount_minor := 2500, pi_status := FAILED, pi_version := 3\<rparr>))))"
    unfolding demo_create_def by (simp add: walkthrough_defs walk_payment_def numeral_2_eq_2)
  then show ?thesis by (simp add: demo_2_declined_def case_prod_unfold answer_of_payment)
qed

text \<open>The third, with the draws that made its token.\<close>

lemma drawn_hex: "hex_str 32 5 = ''00000000000000000000000000000005''"
  by code_simp

definition walk_lost :: "(exn + response) \<times> db \<times> mock_state" where
  "walk_lost = demo_create demo_env (\<lambda>_. []) demo_merchant 7500 (''pm_demo_timeout_'' @ hex_str 32 5) ''k1'' 1000 demo_start"

definition walk_lost_payment :: payment_intent where
  "walk_lost_payment = walk_payment\<lparr>pi_amount_minor := 7500, pi_status := UNKNOWN, pi_version := 3\<rparr>"

lemma walk_lost_answer: "fst walk_lost = Inr (Some 201, Some (JObj (serialize_payment walk_lost_payment)))"
  unfolding walk_lost_def demo_create_def drawn_hex
  by (simp add: walkthrough_defs unknown_result_def walk_payment_def walk_lost_payment_def numeral_2_eq_2)

definition walk_resolved :: "(exn + reconciliation_report list) \<times> db \<times> mock_state" where
  "walk_resolved = call_api (run_reconciliation_pass (env_provider demo_env) (Some (m_id demo_merchant))) 2000 (snd walk_lost)"

lemma walk_resolved_rows:
  "\<exists>reports. fst walk_resolved = Inr reports \<and>
     map rr_result (filter (\<lambda>r. rr_payment_intent_id r = 2) reports) = [RESOLVED_SUCCEEDED]"
  unfolding walk_resolved_def walk_lost_def demo_create_def drawn_hex by (simp add: walkthrough_defs reconciliation_defs)

lemma walk_check:
  "fst (call_api (get_payment_endpoint 2 demo_merchant) 3000 (snd walk_resolved)) =
     Inr (JObj (serialize_payment (walk_lost_payment\<lparr>pi_status := SUCCEEDED, pi_version := 4, pi_updated_at := 2000\<rparr>)))"
  unfolding walk_resolved_def walk_lost_def demo_create_def drawn_hex
  by (simp add: walkthrough_defs reconciliation_defs get_payment_endpoint_def get_payment_def walk_lost_payment_def walk_payment_def
      numeral_2_eq_2)

lemma reconciliation_prints:
  "demo_3_timeout_reconciliation demo_env (\<lambda>_. []) demo_merchant 5 ''k1'' 1000 2000 3000 demo_start =
     ([Some (JStr ''UNKNOWN''), Some (JStr ''SUCCEEDED'')], [RESOLVED_SUCCEEDED])"
proof -
  have f: "pi_id walk_lost_payment = 2" "pi_status walk_lost_payment = UNKNOWN" by (simp_all add: walk_lost_payment_def walk_payment_def)
  obtain reports where r: "fst walk_resolved = Inr reports"
    "map rr_result (filter (\<lambda>r. rr_payment_intent_id r = 2) reports) = [RESOLVED_SUCCEEDED]" by (rule exE [OF walk_resolved_rows]) (elim conjE, rule that)
  have lost: "walk_lost = (Inr (Some 201, Some (JObj (serialize_payment walk_lost_payment))), snd walk_lost)"
    by (rule prod_eqI) (simp_all only: walk_lost_answer fst_conv snd_conv)
  have resolved: "walk_resolved = (Inr reports, snd walk_resolved)" by (rule prod_eqI) (simp_all only: r(1) fst_conv snd_conv)
  have "demo_3_timeout_reconciliation demo_env (\<lambda>_. []) demo_merchant 5 ''k1'' 1000 2000 3000 demo_start =
      (case walk_resolved of
         (Inl e, sys2) \<Rightarrow> ([Some (JStr ''UNKNOWN'')], [])
       | (Inr reports, sys2) \<Rightarrow>
           (case call_api (get_payment_endpoint 2 demo_merchant) 3000 sys2 of
              (check, sys3) \<Rightarrow>
                ([Some (JStr ''UNKNOWN''), answer_field ''status'' (case check of Inl e \<Rightarrow> Inl e | Inr body \<Rightarrow> Inr (Some 200, Some body))],
                 map rr_result (filter (\<lambda>r. rr_payment_intent_id r = 2) reports))))"
    unfolding demo_3_timeout_reconciliation_def walk_lost_def [symmetric] walk_resolved_def
    by (subst lost) (simp add: answer_of_payment f cong: sum.case_cong)
  also have "\<dots> = ([Some (JStr ''UNKNOWN''), Some (JStr ''SUCCEEDED'')], [RESOLVED_SUCCEEDED])"
    by (subst resolved) (simp add: case_prod_unfold walk_check answer_of_payment r(2))
  finally show ?thesis .
qed

end
