(* ===== verification/Spec2Isabelle.thy ===== *)
theory Spec2Isabelle
  imports ReconcileRace Isolation Failures Migrations AppendOnly Responses Application Metrics Worker Scripts
begin

text \<open>
  PayGuard is a payment service: merchants create, capture and refund payments over an HTTP API;
  a payment provider authorises and settles them and reports back by webhook; a worker delivers
  what the services put in an outbox; a reconciliation pass asks the provider about payments
  whose outcome got lost. This development models the Python program under \<open>src/packages\<close> and
  \<open>src/apps\<close> as HOL functions and proves what its documents promise: no request is served twice,
  the ledger balances and follows the payments, refunds never exceed a payment, every status
  change is a legal one and is announced, and every refused request leaves things as they were.

  \<^bold>\<open>The parts and the theories.\<close> In the order of their imports:

  \<^item> \<open>Prelude\<close>: identifiers and their texts, JSON, tables as lists of rows, shared lemmas and
    fact collections.
  \<^item> \<open>Domain\<close> (\<open>domain/state_machine.py\<close>, \<open>errors.py\<close>, \<open>security.py\<close>): statuses, both transition
    tables and their checks, exceptions as one datatype, API keys. The locale \<open>status_machine\<close> is
    the contract both tables meet.
  \<^item> \<open>Providers\<close> (\<open>providers\<close>): a provider is a record of calls on a state of its own; the mock
    with its scenarios and the chaos wrapper over a stream of random numbers. The locale
    \<open>truthful_provider\<close> says what a lookup must agree with.
  \<^item> \<open>Database\<close> (\<open>database/models.py\<close>, \<open>session.py\<close>): the rows, INSERTs with the constraints that can
    reject them, and the session a service runs in: the rows its transaction sees, the rows
    committed, the identity map of payment objects, the counters, the provider's state. A service
    is a function from a session to a value or an exception and the session it leaves; \<open>bnd\<close>,
    \<open>try_except\<close>, \<open>commit\<close>, \<open>rollback\<close> compose it the way the code is composed. \<open>keeps\<close> and
    \<open>triple\<close> are the program logic the invariants are proved in.
  \<^item> \<open>Idempotency\<close> (\<open>idempotency/service.py\<close>): the claim protocol with its retry loop, which other
    transactions may disturb between two statements and which goes on with the object the session
    already holds; the locale \<open>claim_store\<close> is what claims at any times owe each other.
  \<^item> \<open>Ledger\<close> (\<open>ledger\<close>), \<open>Risk\<close> (\<open>risk/service.py\<close>): entry pairs and audits; signals, score, level.
  \<^item> \<open>Payments\<close> and \<open>Queries\<close> (\<open>payments/service.py\<close>): create, capture and refund, cut into the
    transactions the code commits; then the reading half.
  \<^item> \<open>Schema\<close>, \<open>Invariants\<close>: the constraints as an invariant of the rows, and the contract an
    invariant of the payment services has to meet, as two locales: \<open>charge_invariant\<close> for creations
    and captures, \<open>payment_invariant\<close> with refunds.
  \<^item> \<open>Webhooks\<close> (\<open>webhooks\<close>), \<open>Outbox\<close> (\<open>outbox\<close>, \<open>apps/worker/main.py\<close>), \<open>Reconciliation\<close>
    (\<open>reconciliation/service.py\<close>): signature, receipt and effect of a webhook; claiming, backoff,
    dead letters, batches (against an abstract queue that other workers hold parts of), requeue;
    one payment and a pass. Each extends the contract.
  \<^item> \<open>Books\<close>, \<open>Histories\<close>: the invariants themselves (balance, refund bound, books and status,
    lawful histories, complete outbox), as interpretations of the contract.
  \<^item> \<open>Program\<close>: the operations of all entry points, one after another, each in its own session;
    \<open>reachable\<close> states by rule induction.
  \<^item> \<open>Replay\<close>, \<open>Permanence\<close>: what the idempotency frame gives a client, now and after any further
    operations. \<open>AppendOnly\<close>: ledger and events only grow.
  \<^item> \<open>Scenarios\<close>, \<open>Effects\<close>, \<open>Incidents\<close>: concrete runs; what single requests do on each branch;
    reachable runs in which the code does not do what its comments say.
  \<^item> \<open>RefundRace\<close> (\<open>refund_payment\<close> again): refunds in two transactions with the provider call between
    them, any number in flight, interleaved with each other, crashes and other operations; every
    invariant of the contract holds in such races, payment requests and reconciliations never disturb
    a refund in flight, and there is one way in which a history is lost when a webhook does.
  \<^item> \<open>ReconcileRace\<close> (\<open>reconcile_payment\<close> again): reconciliations of different payments in two transactions,
    the same way, and what becomes of one whose payment another pass resolves first.
  \<^item> \<open>Merchants\<close> (\<open>merchants/service.py\<close>, \<open>get_current_merchant\<close>, two scripts): key rotation and
    authentication. \<open>RateLimit\<close> (\<open>ratelimit/service.py\<close>): the Lua token bucket; the locale
    \<open>stored_numbers\<close> is what it needs of Lua's number texts. \<open>Config\<close>: the \<open>.env\<close> reader and the
    settings.
  \<^item> \<open>Api\<close> (\<open>apps/api\<close>): error envelope, schemas, guards, every endpoint. \<open>Isolation\<close>: what one tenant
    sees depends on its own rows. \<open>Failures\<close>: what requests can fail with, and that refusals have
    no effect.
  \<^item> \<open>Migrations\<close> (\<open>database/migrations/versions\<close>, \<open>database/models.py\<close>): the revisions as DDL, run
    and compared with the models.
  \<^item> \<open>Responses\<close> (\<open>apps/api/schemas.py\<close>): the response models as types of JSON values, and that every
    answer is of its type; the locale \<open>typed_service\<close> is what a service owes for that.
  \<^item> \<open>Observability\<close> (\<open>observability/logging.py\<close>, \<open>tracing.py\<close>): log lines, context variables and their
    blocks, the lazy tracer. \<open>Metrics\<close> (\<open>metrics.py\<close>): the collectors and the series the program creates.
    \<open>Application\<close> (\<open>apps/api/main.py\<close>): the request-id middleware around the error handlers, the probes.
  \<^item> \<open>Worker\<close> (\<open>apps/worker/main.py\<close>): the loop, turn after turn, and the work it has left.
  \<^item> \<open>Scripts\<close> (\<open>scripts\<close>): the demo merchant, the reconciliation script, three walkthroughs.

  \<^bold>\<open>What is shown.\<close> This theory states what spans components: over every state reached by whole operations one after
  another, with any provider, the audits are clean, rows are well-formed, histories are lawful and
  announced, the ledger is append-only; without webhooks and worker the books of a payment agree
  with its status and the dashboard with the ledger (with them, \<open>Incidents\<close> has a run in which they
  do not). Racing refunds are bounded by their payment and keep books and histories, as do racing
  reconciliations of different payments, and the last refund to settle settles the payment; an
  answered request is answered the same way ever after, and a failed one can be sent again. The component theories add: of claims
  within the staleness window one wins, and the loop ends; a batch implements an abstract queue; a webhook counts once; a signature is accepted
  exactly when it should be; reconciliation reports what it did; rotation keeps the old key for
  its overlap; the rate limit bounds what it grants; pages cover a list; endpoints are isolated;
  migrations build the models and undo themselves; a worker left alone drains the outbox; answers
  have their declared types and can be traced to their log lines.

  \<^bold>\<open>Correspondence.\<close> A table is a list of records in insertion order with the columns the
  code reads or writes; a statement is a function on the database; an exception is a value of
  \<open>exn\<close>. An INSERT is executed where the code adds the object. Instants are microseconds, a UUID
  is a number and \<open>uuid4\<close> a counter, \<open>isoformat\<close> texts are kept as the instant. Texts are
  Latin-1. Money is an unbounded integer that a column checks to be 64-bit. Digests, HMAC, JSON
  parsing, \<open>float\<close> of a text, random numbers, clocks and the provider are arguments of the
  definitions that use them.

  \<^bold>\<open>Bounds and fuel.\<close> The claim loop is a partial function; it is shown to end for every positive
  \<open>stale_after\<close> and any list of interfering transactions (a retry finds its own fresh lock in the
  object it holds). A worker turn runs \<open>BATCH_SIZE\<close> rounds, as the code
  does; the loop around it takes the number of turns as an argument, and 301 turns for each unit of
  work left are enough, one unit being a dispatch. The backoff and the token bucket compute with rationals; of the script's rounding only the
  one by \<open>tostring\<close> is represented, to a twenty-thousandth for clocks before the year 2286.

  \<^bold>\<open>Not modelled.\<close> Claims meet interference, refunds and reconciliations race; other operations run one after
  another, and row locks have no waiting; so \<open>reachable\<close> is about
  whole operations, and \<open>RefundRace\<close> and \<open>ReconcileRace\<close> about those cut at their commits. Foreign keys
  are not checked on INSERT (the code inserts referenced rows first). Payment objects are kept
  across commits, and key objects within a claim; other objects a session holds across a commit are
  read from their rows. Taking a held payment object from the identity map always refreshes its
  \<open>updated_at\<close>, which SQLAlchemy does when the attribute has expired. The column \<open>event_metadata\<close>, always
  an empty object, is left out. An INSERT raises where its object is added and not at the flush, so
  counters drawn before a later IntegrityError may differ. NUL characters, which Postgres refuses in
  texts and JSON, are not refused on a webhook's INSERT. The context variables a handler sets stay set
  in the context the middleware returns, which is the request task's own copy.
  Logging, tracing and metrics have no effect on any result, so they are modelled beside the
  services and not inside them; latency histograms are left out, and sleeping only as the time between
  two polls. FastAPI, Starlette, SQLAlchemy, Alembic, Redis and the tracing and metrics libraries
  themselves, routing, CORS and the start-up code of processes are libraries and wiring; of the
  scripts the chaos burst and the load test, which run requests concurrently against a live
  server, are left out; the dashboard is TypeScript.

  \<^bold>\<open>Left to do.\<close> Creations cut at their commits as refunds are; refunds, reconciliations and turns of
  the worker in flight together.
\<close>

section \<open>Money\<close>

lemma initial_invariants:
  "ledger_balanced (initial_db t ms)" "refunds_bounded (initial_db t ms)" "books_ok (initial_db t ms)"
  "history_ok (initial_db t ms)" "outbox_complete (initial_db t ms)"
  by (simp_all add: initial_db_def empty_db_def ledger_balanced_def ledger_transaction_is_balanced_def sum_by_direction_def
      refunds_bounded_def books_ok_def history_ok_def outbox_complete_def payment_messages_def)

lemmas reachable_ledger = ledger.reachable_all [OF initial_invariants(1)]
  and reachable_bounded = bounded.reachable_all [OF initial_invariants(2)]
  and reachable_books = books.reachable_payments [OF initial_invariants(3)]
  and reachable_history = history.reachable_all [OF initial_invariants(4)]
  and reachable_outbox = outbox.reachable_all [OF initial_invariants(5)]

lemma refunded_le_reserved: "schema_wf d \<Longrightarrow> refunded_amount p d \<le> reserved_amount p d"
  unfolding refunded_amount_def reserved_amount_def
  by (rule select_sum_mono_pred) (auto simp: schema_wf_def refunds_wf_def less_imp_le)

lemma receivable_nonneg:
  assumes "schema_wf d" and "books_ok d" and "refunds_bounded d" and "p \<in> set (payment_intents d)"
  shows "0 \<le> settled_amount p - refunded_amount (pi_id p) d"
proof (cases "pi_status p \<in> SETTLED")
  case True
  from assms have "refunded_amount (pi_id p) d \<le> pi_amount_minor p"
    using refunded_le_reserved [OF assms(1), of "pi_id p"] by (fastforce simp: refunds_bounded_def)
  with True show ?thesis by (simp add: settled_amount_def)
next
  case False
  then have "refunded_amount (pi_id p) d = 0"
    using assms(2,4) unfolding refunded_amount_def by (intro select_sum_none) (auto simp: books_ok_def)
  with False show ?thesis by (simp add: settled_amount_def)
qed

lemma balanced_audits:
  assumes "ledger_balanced d"
  shows "find_unbalanced_ledger_transactions d = [] \<and> fst (global_ledger_balance d) = snd (global_ledger_balance d)"
proof -
  have "t \<notin> set (find_unbalanced_ledger_transactions d)" for t
    using assms by (simp add: find_unbalanced_iff ledger_balanced_def)
  then have "find_unbalanced_ledger_transactions d = []"
    using last_in_set by blast
  with assms show ?thesis by (simp add: balanced_globally)
qed

text \<open>C1. Whatever sequence of payment requests and reconciliations the program has served, with
  any provider, the books of every payment agree with its status: the clearing account carries
  the amount exactly when the payment is settled, once, and what the merchant is owed is that
  amount less the refunds paid, never negative.\<close>

theorem books_follow_status:
  assumes "reachable not_worker E sys" and "p \<in> set (payment_intents (fst sys))"
  shows "account_balance PAYMENT_CLEARING (pi_id p) (fst sys) = - settled_amount p \<and>
    account_balance REFUND_LIABILITY (pi_id p) (fst sys) = refunded_amount (pi_id p) (fst sys) \<and>
    account_balance MERCHANT_RECEIVABLE (pi_id p) (fst sys) = settled_amount p - refunded_amount (pi_id p) (fst sys) \<and>
    0 \<le> account_balance MERCHANT_RECEIVABLE (pi_id p) (fst sys)"
  using reachable_books [OF assms(1)] reachable_bounded [OF assms(1)] assms(2)
    receivable_nonneg [of "fst sys" p]
  by (auto simp: books_ok_def books_match_def)

theorem books_follow_status_witness:
  "account_balance MERCHANT_RECEIVABLE 2 (fst demo_refunded) = 600"
proof -
  have "account_balance MERCHANT_RECEIVABLE (pi_id demo_payment) (fst demo_refunded) =
      settled_amount demo_payment - refunded_amount (pi_id demo_payment) (fst demo_refunded)"
    using books_follow_status [OF demo_reachable, of demo_payment] by (simp add: demo_refunded_rows)
  moreover have "refunded_amount 2 (fst demo_refunded) = 400"
    unfolding demo_refunded_def demo_captured_def demo_created_def by (simp add: demo_defs)
  ultimately show ?thesis by (simp add: demo_payment_def settled_amount_def SETTLED_def)
qed

text \<open>C2. In every reachable state, webhooks and worker included, the audits of
  \<open>ledger/invariants.py\<close> find nothing: no transaction is unbalanced, and debits equal credits
  over the whole table.\<close>

theorem ledger_audits_clean:
  assumes "reachable allowed E sys"
  shows "find_unbalanced_ledger_transactions (fst sys) = [] \<and>
    fst (global_ledger_balance (fst sys)) = snd (global_ledger_balance (fst sys))"
  using reachable_ledger [OF assms] by (simp add: balanced_audits)

theorem ledger_audits_clean_witness:
  "find_unbalanced_ledger_transactions (fst demo_refunded) = []"
  using ledger_audits_clean [OF demo_reachable, of "\<lambda>_. True"] by simp

text \<open>Whatever the program is asked to do, webhooks and worker included, and whatever the
  provider answers, the refunds of a payment that were paid or are in flight never add up to
  more than the payment.\<close>

theorem refunds_never_exceed_payment:
  assumes "reachable allowed E sys" and "p \<in> set (payment_intents (fst sys))"
  shows "refunded_amount (pi_id p) (fst sys) \<le> reserved_amount (pi_id p) (fst sys) \<and>
    reserved_amount (pi_id p) (fst sys) \<le> pi_amount_minor p"
  using reachable_bounded [OF assms(1)] assms(2) refunded_le_reserved [of "fst sys"]
  by (simp add: refunds_bounded_def)

theorem refunds_never_exceed_payment_witness: "reserved_amount 2 (fst demo_refunded) \<le> 1000"
  using refunds_never_exceed_payment [OF demo_reachable [of "\<lambda>_. True"], of demo_payment]
  by (simp add: demo_refunded_rows) (simp add: demo_payment_def)

text \<open>C8. Whatever sequence of payment requests and reconciliations the program has served, webhooks
  and worker left out, the dashboard's figures agree with the books and with the list: refunds and
  settled amounts are what the ledger accounts of the merchant's payments carry, and the number of
  payments is the total the list reports.\<close>

theorem dashboard_agrees_with_ledger:
  assumes "reachable not_worker E sys"
  shows "ds_total_refunded_amount (get_dashboard_summary m (fst sys)) =
      (\<Sum>p \<leftarrow> filter (\<lambda>p. pi_merchant_id p = m) (payment_intents (fst sys)). account_balance REFUND_LIABILITY (pi_id p) (fst sys)) \<and>
    ds_total_succeeded_amount (get_dashboard_summary m (fst sys)) =
      (\<Sum>p \<leftarrow> filter (\<lambda>p. pi_merchant_id p = m \<and> pi_status p = SUCCEEDED) (payment_intents (fst sys)).
        - account_balance PAYMENT_CLEARING (pi_id p) (fst sys)) \<and>
    ds_total_payments (get_dashboard_summary m (fst sys)) = snd (list_payments m None limit offset (fst sys))"
proof -
  have b: "account_balance REFUND_LIABILITY (pi_id p) (fst sys) = refunded_amount (pi_id p) (fst sys)"
      "account_balance PAYMENT_CLEARING (pi_id p) (fst sys) = - settled_amount p" if "p \<in> set (payment_intents (fst sys))" for p
    using reachable_books [OF assms] that by (simp_all add: books_ok_def books_match_def)
  have "pi_status p = SUCCEEDED \<Longrightarrow> settled_amount p = pi_amount_minor p" for p
    by (simp add: settled_amount_def SETTLED_def)
  then have "ds_total_succeeded_amount (get_dashboard_summary m (fst sys)) =
      (\<Sum>p \<leftarrow> filter (\<lambda>p. pi_merchant_id p = m \<and> pi_status p = SUCCEEDED) (payment_intents (fst sys)).
        - account_balance PAYMENT_CLEARING (pi_id p) (fst sys))"
    unfolding get_dashboard_summary_def Let_def select_sum_def
    by (simp, intro arg_cong [where f = sum_list] map_cong) (simp_all add: b)
  moreover have "ds_total_refunded_amount (get_dashboard_summary m (fst sys)) =
      (\<Sum>p \<leftarrow> filter (\<lambda>p. pi_merchant_id p = m) (payment_intents (fst sys)). account_balance REFUND_LIABILITY (pi_id p) (fst sys))"
    unfolding get_dashboard_summary_def Let_def
    by (simp add: total_refunded_split, intro arg_cong [where f = sum_list] map_cong) (simp_all add: b)
  ultimately show ?thesis by (simp add: counted_payments [of m "fst sys" limit offset])
qed

theorem dashboard_agrees_with_ledger_witness:
  "ds_total_refunded_amount (get_dashboard_summary 7 (fst demo_refunded)) = account_balance REFUND_LIABILITY 2 (fst demo_refunded)"
  using dashboard_agrees_with_ledger [OF demo_reachable [of not_worker], of 7]
  by (simp add: demo_refunded_rows) (simp add: demo_payment_def)

section \<open>Racing refunds\<close>

lemmas racing_ledger = ledger.racing_all [OF initial_invariants(1)]
  and racing_bounded = bounded.racing_all [OF initial_invariants(2)]
  and racing_books = books.racing_payments [OF initial_invariants(3)]
  and racing_history = history.racing_all [OF initial_invariants(4)]

text \<open>C3. Refunds that race never overpay. From any state the program reaches, any number of refunds
  may be in flight at once, of one payment or of many, answered and settled in any order, lost
  in crashes, with other operations in between that leave them undisturbed: what is refunded or
  reserved of a payment stays within its amount, and the ledger's audits find nothing.\<close>

theorem racing_refunds_never_exceed_payment:
  assumes "reachable allowed E sys" and "racing allowed' E sys r" and "p \<in> set (payment_intents (rc_db r))"
  shows "refunded_amount (pi_id p) (rc_db r) \<le> reserved_amount (pi_id p) (rc_db r) \<and>
    reserved_amount (pi_id p) (rc_db r) \<le> pi_amount_minor p \<and>
    find_unbalanced_ledger_transactions (rc_db r) = [] \<and>
    fst (global_ledger_balance (rc_db r)) = snd (global_ledger_balance (rc_db r))"
  using racing_bounded [OF assms(1,2)] racing_ledger [OF assms(1,2)] assms(3) refunded_le_reserved [of "rc_db r"]
  by (simp add: race_ok_def refunds_bounded_def balanced_audits)

theorem racing_refunds_never_exceed_payment_witness:
  "find_unbalanced_ledger_transactions (rc_db demo_landed) = [] \<and> refunded_amount 2 (rc_db demo_landed) \<le> 1000"
proof -
  obtain p where "p \<in> set (payment_intents (rc_db demo_landed))" "pi_id p = 2" "pi_amount_minor p = 1000"
    using demo_landed_view by (auto simp: refund_view_def)
  with racing_refunds_never_exceed_payment [OF demo_captured_reachable demo_landed_racing, of p] show ?thesis by auto
qed

text \<open>C4. Racing refunds keep the books and the history: with payment requests and reconciliations
  around them, the accounts of every payment follow its status to the minor unit, and its events
  are a path of the state machine that its version counts.\<close>

theorem racing_refunds_keep_the_books:
  assumes "reachable not_worker E sys" and "racing not_worker E sys r" and "p \<in> set (payment_intents (rc_db r))"
  shows "account_balance PAYMENT_CLEARING (pi_id p) (rc_db r) = - settled_amount p \<and>
    account_balance REFUND_LIABILITY (pi_id p) (rc_db r) = refunded_amount (pi_id p) (rc_db r) \<and>
    account_balance MERCHANT_RECEIVABLE (pi_id p) (rc_db r) = settled_amount p - refunded_amount (pi_id p) (rc_db r) \<and>
    lawful None (events_of (pi_id p) (rc_db r)) \<and> pi_version p = int (length (events_of (pi_id p) (rc_db r)))"
  using racing_books [OF assms(1,2)] racing_history [OF assms(1,2)] assms(3)
  by (simp add: race_ok_def books_ok_def books_match_def history_ok_def history_matches_def Let_def)

theorem racing_refunds_keep_the_books_witness: "account_balance PAYMENT_CLEARING 2 (rc_db demo_landed) = - 1000"
proof -
  obtain p where "p \<in> set (payment_intents (rc_db demo_landed))" "pi_id p = 2" "pi_amount_minor p = 1000" "pi_status p = REFUNDED"
    using demo_landed_view by (auto simp: refund_view_def)
  with racing_refunds_keep_the_books [OF demo_captured_reachable demo_landed_racing, of p] show ?thesis
    by (simp add: settled_amount_def SETTLED_def)
qed

text \<open>C5. The last refund to settle settles the payment. After any payment requests and
  reconciliations (no webhooks, no worker), and while any number of refunds race among such
  requests, in whatever order they are answered, settled or lost in crashes, a payment is in
  REFUND_PENDING exactly while one of its refunds is pending: no order of settlements leaves it
  there when none is left, and none takes it out too early.\<close>

theorem last_refund_settles_payment:
  assumes "reachable not_worker E sys" and "racing not_worker E sys r" and "p \<in> set (payment_intents (rc_db r))"
  shows "pi_status p = REFUND_PENDING \<longleftrightarrow> pending_refunds (pi_id p) (rc_db r) \<noteq> 0"
proof -
  have "refund_statuses_ok (fst sys)" using reachable_refund_statuses [OF assms(1)] by simp
  from racing_refund_statuses [OF racing_ledger [OF assms(1)] this assms(2)] have "refund_statuses_ok (rc_db r)" .
  with assms(3) show ?thesis by (simp add: refund_statuses_ok_def)
qed

theorem last_refund_settles_payment_witness: "pending_refunds 2 (rc_db demo_race) \<noteq> 0 \<and> pending_refunds 2 (rc_db demo_landed) = 0"
proof -
  obtain p where "p \<in> set (payment_intents (rc_db demo_race))" "pi_id p = 2" "pi_status p = REFUND_PENDING"
    using demo_race_view by (auto simp: refund_view_def)
  moreover obtain q where "q \<in> set (payment_intents (rc_db demo_landed))" "pi_id q = 2" "pi_status q = REFUNDED"
    using demo_landed_view by (auto simp: refund_view_def)
  ultimately show ?thesis
    using last_refund_settles_payment [OF demo_captured_reachable demo_race_racing, of p]
      last_refund_settles_payment [OF demo_captured_reachable demo_landed_racing, of q]
    by auto
qed

text \<open>C6. Payment requests and reconciliations never disturb a refund in flight: whatever refunds are
  between their two transactions, after any such request, run as a whole in between, each of them
  still has its pending reservation and its payment is as its session last saw it, in
  REFUND_PENDING. (A webhook does disturb it.)\<close>

theorem requests_leave_racing_refunds_alone:
  assumes "reachable not_worker E sys" and "racing not_worker E sys r" and "not_worker op" and "f \<in> set (rc_flights r)"
  shows "racing not_worker E sys (operate_step E op t r) \<and> f \<in> set (rc_flights (operate_step E op t r)) \<and>
    fl_refund f \<in> set (refunds (rc_db (operate_step E op t r))) \<and> rf_status (fl_refund f) = RF_PENDING \<and>
    (\<exists>obj row. fl_objects f = [fl_payment_id f \<mapsto> obj] \<and> pi_status obj = REFUND_PENDING \<and>
       row \<in> set (payment_intents (rc_db (operate_step E op t r))) \<and> obj\<lparr>pi_updated_at := pi_updated_at row\<rparr> = row)"
proof -
  have step: "racing not_worker E sys (operate_step E op t r)"
    by (rule racing_operates [OF racing_ledger [OF assms(1,2)] assms(2,3)])
  have same: "rc_flights (operate_step E op t r) = rc_flights r" by (simp add: operate_step_def case_prod_beta)
  have "airborne (rc_db (operate_step E op t r)) f"
    using racing_ledger [OF assms(1) step] assms(4) by (simp add: race_ok_def list_all_iff same)
  then show ?thesis using step assms(4) same by (auto simp: airborne_def owns_def agrees_def)
qed

theorem requests_leave_racing_refunds_alone_witness:
  "racing not_worker demo_env demo_captured (operate_step demo_env (RefundPayment 7 2 ''k5'' ''{}'' 1) 4000 demo_race)"
proof -
  have "rc_flights demo_race \<noteq> []"
    using arg_cong [OF demo_answered_flights, of length] by (auto simp: demo_answered_def answer_step_def Let_def split: prod.splits)
  then obtain f where "f \<in> set (rc_flights demo_race)" using last_in_set by blast
  from requests_leave_racing_refunds_alone [OF demo_captured_reachable demo_race_racing _ this, of "RefundPayment 7 2 ''k5'' ''{}'' 1"]
  show ?thesis by simp
qed



section \<open>Histories\<close>

text \<open>C10. In every reachable state, the events recorded for a payment are a path of the state
  machine: they start with its creation, each goes on from where the last one ended, every move
  is one the table allows its actor, the last one leads to the status the row has now, and the
  row's version counts them.\<close>

theorem history_is_lawful:
  assumes "reachable allowed E sys" and "p \<in> set (payment_intents (fst sys))"
  shows "events_of (pi_id p) (fst sys) \<noteq> [] \<and> lawful None (events_of (pi_id p) (fst sys)) \<and>
    pe_to_status (last (events_of (pi_id p) (fst sys))) = pi_status p \<and>
    pi_version p = int (length (events_of (pi_id p) (fst sys)))"
  using reachable_history [OF assms(1)] assms(2) by (auto simp: history_ok_def history_matches_def Let_def)

theorem history_is_lawful_witness:
  "lawful None (events_of 2 (fst demo_refunded)) \<and> length (events_of 2 (fst demo_refunded)) = 5"
  using history_is_lawful [OF demo_reachable [of "\<lambda>_. True"], of demo_payment]
  by (simp add: demo_refunded_rows) (simp add: demo_payment_def)

lemma reachable_lawful:
  "reachable allowed E sys \<Longrightarrow> p \<in> set (payment_intents (fst sys)) \<Longrightarrow> history_matches (fst sys) p"
  using reachable_history [of allowed E sys] by (auto simp: history_ok_def)

text \<open>C12. In every state the program reaches by whole operations, one after another, webhooks and
  worker included: a payment that was ever recorded as FAILED or REFUNDED stays so, that event is
  the last of its history and the row has that status.\<close>

theorem terminal_status_is_final:
  assumes "reachable allowed E sys" and "p \<in> set (payment_intents (fst sys))"
    and "e \<in> set (events_of (pi_id p) (fst sys))" and "pe_to_status e \<in> TERMINAL_PAYMENT_STATUSES"
  shows "e = last (events_of (pi_id p) (fst sys)) \<and> pi_status p = pe_to_status e"
  using reachable_lawful [OF assms(1,2)] lawful_terminal_last [OF _ assms(3,4), of None]
  by (auto simp: history_matches_def Let_def)

theorem terminal_status_is_final_witness:
  "demo_declined_event = last (events_of 2 (fst demo_declined)) \<and> pi_status demo_declined_payment = FAILED"
  using terminal_status_is_final [OF demo_declined_reachable, of demo_declined_payment demo_declined_event]
  by (simp add: demo_declined_rows) (simp add: demo_declined_event_def TERMINAL_PAYMENT_STATUSES_def)

text \<open>C11. A payment whose outcome is UNKNOWN is moved on by reconciliation only, in any history of
  the program.\<close>

theorem unknown_left_by_reconciliation:
  assumes "reachable allowed E sys" and "p \<in> set (payment_intents (fst sys))"
    and "e \<in> set (events_of (pi_id p) (fst sys))" and "pe_from_status e = Some UNKNOWN"
  shows "pe_actor e = RECONCILIATION"
  using reachable_lawful [OF assms(1,2)] lawful_unknown_actor [OF _ assms(3,4), of None]
  by (auto simp: history_matches_def Let_def)

theorem unknown_left_by_reconciliation_witness: "pe_actor demo_resolved_event = RECONCILIATION \<and>
    demo_resolved_event \<in> set (payment_events (fst demo_reconciled))"
  using unknown_left_by_reconciliation [OF demo_reconciled_reachable [of "\<lambda>_. True"],
      of demo_resolved_payment demo_resolved_event]
  by (simp add: demo_reconciled_rows) (simp add: demo_resolved_event_def)

text \<open>C13. In every state the program reaches, every event recorded for a payment has its outbox
  message, in the same order: the creation of a payment a \<open>payment.created\<close> with exactly its
  identifier, every move one with exactly the identifier and the status the payment moved to.\<close>

theorem outbox_tells_every_event:
  assumes "reachable allowed E sys"
  shows "list_all2 announces (payment_events (fst sys)) (payment_messages (fst sys))"
  using reachable_outbox [OF assms] by (simp add: outbox_complete_def)

theorem outbox_tells_every_event_witness: "length (payment_messages (fst demo_refunded)) = 5"
proof -
  have "length (payment_events (fst demo_refunded)) = length (map pe_to_status (payment_events (fst demo_refunded)))"
    by (simp only: length_map)
  also have "\<dots> = 5" by (simp only: demo_refunded_rows) simp
  finally show ?thesis
    using outbox_tells_every_event [OF demo_reachable [of "\<lambda>_. True"]] by (simp add: list_all2_lengthD)
qed

section \<open>Idempotent requests\<close>

lemma reachable_wf: "reachable allowed E sys \<Longrightarrow> schema_wf (fst sys)"
  using reachable_ledger by blast

text \<open>C15. Every reachable state is well-formed, webhooks and worker included: payments and refunds have
  positive amounts that fit their columns and currencies of three capitals, every refund belongs
  to a payment, and idempotency keys, attempts, provider transactions and webhook events are as
  unique as the schema's constraints say.\<close>

theorem reachable_states_are_well_formed:
  assumes "reachable allowed E sys"
  shows "(\<forall>p \<in> set (payment_intents (fst sys)). 0 < pi_amount_minor p \<and> pi_amount_minor p < 2 ^ 63 \<and> iso4217_shaped (pi_currency p)) \<and>
    (\<forall>r \<in> set (refunds (fst sys)). 0 < rf_amount_minor r \<and> (\<exists>p \<in> set (payment_intents (fst sys)). rf_payment_intent_id r = pi_id p)) \<and>
    distinct (map pi_id (payment_intents (fst sys))) \<and>
    distinct (map (\<lambda>k. (ik_merchant_id k, ik_idempotency_key k)) (idempotency_keys (fst sys))) \<and>
    distinct (map (\<lambda>a. (pa_payment_intent_id a, pa_attempt_number a)) (payment_attempts (fst sys))) \<and>
    distinct (map (\<lambda>t. (pt_provider_name t, pt_provider_transaction_id t)) (provider_transactions (fst sys))) \<and>
    distinct (map (\<lambda>w. (wh_provider_name w, wh_provider_event_id w)) (webhook_events (fst sys)))"
  using reachable_wf [OF assms]
  by (auto simp: schema_wf_def payments_wf_def refunds_wf_def keys_wf_def attempts_wf_def transactions_wf_def
      webhooks_wf_def fresh_ids_def bigint_def)

theorem reachable_states_are_well_formed_witness: "iso4217_shaped (pi_currency demo_payment)"
  using reachable_states_are_well_formed [OF demo_reachable [of "\<lambda>_. True"]] by (simp add: demo_refunded_rows)

text \<open>C17. The ledger and the history of payments are append-only: whatever the program does from a
  state it has reached, webhooks and worker included, every ledger entry and every payment event
  stays as it was and where it was, so the triggers that guard the ledger never fire.\<close>

theorem ledger_is_append_only:
  assumes "reachable allowed E sys"
  shows "extends (ledger_entries (fst sys)) (ledger_entries (fst (run_operations E ops sys))) \<and>
    extends (payment_events (fst sys)) (payment_events (fst (run_operations E ops sys)))"
  using run_operations_grown [OF reachable_wf [OF assms], of "ledger_entries (fst sys)" "payment_events (fst sys)" E ops]
  by (simp add: grown_def extends_refl)

theorem ledger_is_append_only_witness:
  "extends (ledger_entries (fst demo_captured)) (ledger_entries (fst demo_refunded))"
proof -
  have "reachable (\<lambda>_. True) demo_env demo_captured"
    unfolding demo_captured_def demo_created_def demo_start_def by (intro reachable.intros) simp_all
  from ledger_is_append_only [OF this, of "[(RefundPayment 7 2 ''k3'' ''{}'' 400, 3000)]"]
  show ?thesis by (simp add: demo_refunded_def)
qed

lemma run_service:
  "perform E op = discard m \<Longrightarrow> m (open_session (set_clock t (fst sys)) (snd sys)) = (res, s') \<Longrightarrow>
   run_operation E op t sys = (committed s', prov_state s')"
  by (simp add: run_operation_def snd_discard Let_def)

lemma service_wf:
  "reachable allowed E sys \<Longrightarrow> perform E op = discard m \<Longrightarrow>
   m (open_session (set_clock t (fst sys)) (snd sys)) = (res, s') \<Longrightarrow> schema_wf (committed s')"
  using run_service run_operation_wf [OF reachable_wf] by (metis fst_conv)

lemma reachable_keys_wf: "reachable allowed E sys \<Longrightarrow> keys_wf (set_clock t (fst sys))"
  using reachable_wf [of allowed E sys] by (simp add: schema_wf_def keys_wf_def set_clock_def)

text \<open>C9. Once \<open>create_payment\<close> has answered a request, every repetition of that request gets the
  same status code and body, whatever operations the program has performed since, at whatever
  time; the repetition writes no row and does not call the provider.\<close>

theorem create_answer_is_permanent:
  assumes "reachable allowed E sys"
    and "create_payment (env_sha256hex E) (env_provider E) rq (open_session (set_clock t (fst sys)) (snd sys)) = (Inr resp, s')"
    and "(d, p) = run_operations E ops (committed s', prov_state s')"
  shows "create_payment (env_sha256hex E) (env_provider E) rq (open_session (set_clock t' d) p) =
    (Inr resp, (open_session (set_clock t' d) p)\<lparr>metrics := [''payment_requests_total'']\<rparr>)"
proof -
  let ?s = "open_session (set_clock t (fst sys)) (snd sys)"
  note wf0 = reachable_keys_wf [OF assms(1)]
    and later = kept_later [OF service_wf [OF assms(1) perform.simps(1) assms(2)], of t' E ops, folded assms(3), unfolded fst_conv]
  have idle: "idle (set_clock t (fst sys)) (?s\<lparr>metrics := [''payment_requests_total'']\<rparr>)" by simp
  from assms(2) have run: "serve (create_payment_claimed (env_provider E) rq) (rq_merchant_id rq) (rq_idempotency_key rq)
      (compute_fingerprint (env_sha256hex E) ''POST'' ''/v1/payments'' (rq_raw_body rq))
      (?s\<lparr>metrics := [''payment_requests_total'']\<rparr>) = (Inr resp, s')"
    by (simp add: create_payment_serve andthen_def bnd_def inc_run open_session_def)
  note create.answer_permanent [OF wf0 idle run later]
  then show ?thesis by (simp add: create_payment_serve andthen_def bnd_def inc_run) (simp add: open_session_def idle_def)
qed

theorem create_answer_is_permanent_witness:
  "fst (create_payment (env_sha256hex demo_env) (env_provider demo_env) demo_request
     (open_session (set_clock 9000 (fst demo_refunded)) (snd demo_refunded))) =
   Inr (Some 201, Some (JObj (serialize_payment (demo_payment\<lparr>pi_status := PROCESSING, pi_version := 2, pi_updated_at := 1000\<rparr>))))"
proof -
  have r: "reachable (\<lambda>_. True) demo_env demo_start" unfolding demo_start_def by (rule reachable.start)
  obtain s' where run: "create_payment (env_sha256hex demo_env) (env_provider demo_env) demo_request
      (open_session (set_clock 1000 (fst demo_start)) (snd demo_start)) =
      (Inr (Some 201, Some (JObj (serialize_payment (demo_payment\<lparr>pi_status := PROCESSING, pi_version := 2, pi_updated_at := 1000\<rparr>)))), s')"
    using demo_create_answer by (metis prod.collapse)
  have "demo_created = (committed s', prov_state s')"
    unfolding demo_created_def by (rule run_service [OF perform.simps(1) run])
  then have "(fst demo_refunded, snd demo_refunded) = run_operations demo_env
      [(CapturePayment 7 2 ''k2'' ''{}'', 2000), (RefundPayment 7 2 ''k3'' ''{}'' 400, 3000)] (committed s', prov_state s')"
    by (simp add: demo_refunded_def demo_captured_def)
  from create_answer_is_permanent [OF r run this] show ?thesis by simp
qed

text \<open>A refund request, once answered, is answered the same way ever after: a client that sends
  it again does not refund twice, and the repetition leaves the session as it found it.\<close>

theorem refund_answer_is_permanent:
  assumes "reachable allowed E sys"
    and "refund_payment (env_sha256hex E) (env_provider E) m pid k body amt (open_session (set_clock t (fst sys)) (snd sys)) =
      (Inr resp, s')"
    and "(d, p) = run_operations E ops (committed s', prov_state s')"
  shows "refund_payment (env_sha256hex E) (env_provider E) m pid k body amt (open_session (set_clock t' d) p) =
    (Inr resp, open_session (set_clock t' d) p)"
proof -
  note later = kept_later [OF service_wf [OF assms(1) perform.simps(3) assms(2)], of t' E ops, folded assms(3), unfolded fst_conv]
  show ?thesis unfolding refund_payment_serve
    by (rule refund.answer_permanent [OF reachable_keys_wf [OF assms(1)] idle_open assms(2) [unfolded refund_payment_serve] later idle_open])
qed

theorem refund_answer_is_permanent_witness:
  "refund_payment (env_sha256hex demo_env) (env_provider demo_env) 7 2 ''k3'' ''{}'' 400
     (open_session (set_clock 9000 (fst demo_refunded)) (snd demo_refunded)) =
   (Inr (Some 201, Some (JObj (serialize_refund demo_refund))), open_session (set_clock 9000 (fst demo_refunded)) (snd demo_refunded))"
proof -
  have r: "reachable (\<lambda>_. True) demo_env demo_captured"
    unfolding demo_captured_def demo_created_def demo_start_def by (intro reachable.intros) simp_all
  obtain s' where run: "refund_payment (env_sha256hex demo_env) (env_provider demo_env) 7 2 ''k3'' ''{}'' 400
      (open_session (set_clock 3000 (fst demo_captured)) (snd demo_captured)) =
      (Inr (Some 201, Some (JObj (serialize_refund demo_refund))), s')"
    using demo_refund_answer by (metis prod.collapse)
  have "(fst demo_refunded, snd demo_refunded) = run_operations demo_env [] (committed s', prov_state s')"
    unfolding demo_refunded_def run_service [OF perform.simps(3) run] by simp
  from refund_answer_is_permanent [OF r run this] show ?thesis .
qed

text \<open>C18. A capture that won its claim and then failed, for whatever reason (unknown payment, wrong
  status, the provider raising, a rejected INSERT), leaves the key free: the same request sent
  again, at any time, wins its claim anew instead of being refused as in progress.\<close>

theorem failed_capture_can_be_retried:
  assumes "reachable allowed E sys"
    and "fp = compute_fingerprint (env_sha256hex E) ''POST'' (''/v1/payments/'' @ uuid_str pid @ ''/capture'') body"
    and "fst (claim_once (m, k, fp) (set_clock t (fst sys))) = CLAIMED"
    and "capture_payment (env_sha256hex E) (env_provider E) m pid k body (open_session (set_clock t (fst sys)) (snd sys)) = (Inl e, s')"
  shows "fst (claim_once (m, k, fp) (set_clock t' (committed s'))) = CLAIMED"
  using capture.failed_retries [OF reachable_keys_wf [OF assms(1)] assms(3) idle_open] assms(2,4)
  by (simp add: capture_payment_serve)

theorem failed_capture_can_be_retried_witness:
  "fst (claim_once (7, ''k2'', ''digest'') (fst (run_operation demo_env (CapturePayment 7 2 ''k2'' ''{}'') 1000 demo_start))) = CLAIMED"
proof -
  have r: "reachable (\<lambda>_. True) demo_env demo_start" unfolding demo_start_def by (rule reachable.start)
  obtain e s' where run: "capture_payment (env_sha256hex demo_env) (env_provider demo_env) 7 2 ''k2'' ''{}''
      (open_session (set_clock 1000 (fst demo_start)) (snd demo_start)) = (Inl e, s')"
    using demo_capture_nothing by (metis prod.collapse)
  have fp: "''digest'' = compute_fingerprint (env_sha256hex demo_env) ''POST'' (''/v1/payments/'' @ uuid_str 2 @ ''/capture'') ''{}''"
    by (simp add: demo_env_def compute_fingerprint_def)
  have "fst (claim_once (7, ''k2'', ''digest'') (set_clock 1000 (fst demo_start))) = CLAIMED"
    by (simp add: fst_claim_once decide_def demo_start_def initial_db_def empty_db_def set_clock_def)
  from failed_capture_can_be_retried [OF r fp this run] show ?thesis
    using run_service [OF perform.simps(2) run] by (simp add: fst_claim_once set_clock_def)
qed

end
